theory Spec2Isabelle
  imports Main "HOL-Library.Sublist"
begin

text \<open>
  The Vercel adapter for Next.js: a shallow embedding of the route compiler of
  \<^verbatim>\<open>onBuildComplete\<close> (index.ts), of the rewrite and data-route helpers (routing.ts),
  of the pattern escaper (utils.ts) and of the pure parts of the output handlers
  (outputs.ts), followed by the properties of the routes array that the specification
  states.
\<close>

section \<open>Strings\<close>

text \<open>
  JavaScript strings are modelled as \<open>string\<close> (character lists).  The backslash
  cannot be written inside a string literal, so it is named once.
\<close>

abbreviation BS :: char where
  "BS \<equiv> CHR 0x5C"

text \<open>\<^verbatim>\<open>s.startsWith(p)\<close>, \<^verbatim>\<open>s.endsWith(p)\<close>, \<^verbatim>\<open>s.includes(p)\<close>.\<close>

definition startsWith :: "string \<Rightarrow> string \<Rightarrow> bool" where
  "startsWith s p = (take (length p) s = p)"

definition endsWith :: "string \<Rightarrow> string \<Rightarrow> bool" where
  "endsWith s p = (length p \<le> length s \<and> drop (length s - length p) s = p)"

fun str_includes :: "string \<Rightarrow> string \<Rightarrow> bool" where
  "str_includes [] p = (p = [])"
| "str_includes (c # cs) p = (startsWith (c # cs) p \<or> str_includes cs p)"

text \<open>\<^verbatim>\<open>s.indexOf(c)\<close> for a one-character needle; \<open>None\<close> stands for \<^verbatim>\<open>-1\<close>.\<close>

fun indexOf :: "string \<Rightarrow> char \<Rightarrow> nat option" where
  "indexOf [] c = None"
| "indexOf (x # xs) c = (if x = c then Some 0 else map_option Suc (indexOf xs c))"

text \<open>\<^verbatim>\<open>s.substring(a, b)\<close> with \<open>a \<le> b\<close>, and \<^verbatim>\<open>s.substring(a)\<close>.\<close>

definition substring :: "string \<Rightarrow> nat \<Rightarrow> nat \<Rightarrow> string" where
  "substring s a b = take (b - a) (drop a s)"

definition substringFrom :: "string \<Rightarrow> nat \<Rightarrow> string" where
  "substringFrom s a = drop a s"

text \<open>\<^verbatim>\<open>xs.join(sep)\<close>.\<close>

fun join_with :: "string \<Rightarrow> string list \<Rightarrow> string" where
  "join_with sep [] = []"
| "join_with sep [x] = x"
| "join_with sep (x # y # ys) = x @ sep @ join_with sep (y # ys)"

section \<open>The pattern escaper (utils.ts)\<close>

text \<open>
  \<^verbatim>\<open>const matchOperatorsRegex = /[|\\{}()[\]^$+*?.-]/g;\<close>
  \<^verbatim>\<open>str.replace(matchOperatorsRegex, '\\$&')\<close>: every character of the class is
  replaced by a backslash followed by itself.
\<close>

definition matchOperators :: "char list" where
  "matchOperators = ''|'' @ [BS] @ ''{}()[]^$+*?.-''"

definition escapeStringRegexp :: "string \<Rightarrow> string" where
  "escapeStringRegexp str =
     concat (map (\<lambda>c. if c \<in> set matchOperators then [BS, c] else [c]) str)"

text \<open>
  The escaping written inline in index.ts and routing.ts:
  \<^verbatim>\<open>locale.replace(/[.*+?^${}()|[\]\\]/g, '\\$&')\<close>.  Its class has no \<^verbatim>\<open>-\<close>.
\<close>

definition inlineOperators :: "char list" where
  "inlineOperators = ''.*+?^${}()|[]'' @ [BS]"

definition escapeInline :: "string \<Rightarrow> string" where
  "escapeInline str =
     concat (map (\<lambda>c. if c \<in> set inlineOperators then [BS, c] else [c]) str)"

text \<open>
  The grammar of patterns, as far as literal text goes.  Outside a character class the
  characters with a meaning of their own are the syntax characters
  \<^verbatim>\<open>^ $ \ . * + ? ( ) [ ] { } |\<close>; every other character stands for itself, and so does
  a backslash followed by a character that is not a letter, a digit or an underscore (an
  identity escape).  \<open>literal_pattern\<close> reads a pattern made of such literal atoms only
  and returns the one string it matches; it returns \<open>None\<close> when the pattern has a
  syntax character that is not escaped or another kind of escape.
\<close>

definition syntaxCharacters :: "char list" where
  "syntaxCharacters = ''^$'' @ [BS] @ ''.*+?()[]{}|''"

definition wordCharacters :: "char list" where
  "wordCharacters =
     ''abcdefghijklmnopqrstuvwxyzABCDEFGHIJKLMNOPQRSTUVWXYZ0123456789_''"

fun literal_pattern :: "string \<Rightarrow> string option" where
  "literal_pattern [] = Some []"
| "literal_pattern [c] = (if c \<in> set syntaxCharacters then None else Some [c])"
| "literal_pattern (c # d # cs) =
     (if c = BS then
        (if d \<in> set wordCharacters then None
         else map_option ((#) d) (literal_pattern cs))
      else if c \<in> set syntaxCharacters then None
      else map_option ((#) c) (literal_pattern (d # cs)))"

text \<open>
  A pattern made of literal atoms and \<^verbatim>\<open>|\<close> only is an alternation of literal
  patterns (\<^verbatim>\<open>|\<close> binds weakest).  \<open>alternatives_pattern\<close> returns the strings it
  matches, one for each alternative, in the order of the pattern.
\<close>

fun alternatives_pattern :: "string \<Rightarrow> string list option" where
  "alternatives_pattern [] = Some [[]]"
| "alternatives_pattern [c] =
     (if c = CHR ''|'' then Some [[], []]
      else if c \<in> set syntaxCharacters then None else Some [[c]])"
| "alternatives_pattern (c # d # cs) =
     (if c = BS then
        (if d \<in> set wordCharacters then None
         else map_option (\<lambda>r. (d # hd r) # tl r) (alternatives_pattern cs))
      else if c = CHR ''|'' then map_option ((#) []) (alternatives_pattern (d # cs))
      else if c \<in> set syntaxCharacters then None
      else map_option (\<lambda>r. (c # hd r) # tl r) (alternatives_pattern (d # cs)))"

section \<open>path.posix.join (Node.js)\<close>

text \<open>
  \<^verbatim>\<open>path.posix.join(...args)\<close> drops the empty arguments, joins the rest with
  \<^verbatim>\<open>/\<close> and normalises: empty segments and \<^verbatim>\<open>.\<close> segments are dropped, a
  \<^verbatim>\<open>..\<close> segment removes the segment before it (and is kept in a relative path when
  there is none), a trailing slash is kept.
\<close>

fun split_slash :: "string \<Rightarrow> string list" where
  "split_slash [] = [[]]"
| "split_slash (c # cs) =
     (let r = split_slash cs
      in if c = CHR ''/'' then [] # r else (c # hd r) # tl r)"

definition push_segment :: "bool \<Rightarrow> string list \<Rightarrow> string \<Rightarrow> string list" where
  "push_segment allowAboveRoot res seg =
     (if seg = [] \<or> seg = ''.'' then res
      else if seg = ''..'' then
        (if res \<noteq> [] \<and> last res \<noteq> ''..'' then butlast res
         else if allowAboveRoot then res @ [''..''] else res)
      else res @ [seg])"

definition normalizeString :: "string \<Rightarrow> bool \<Rightarrow> string" where
  "normalizeString path allowAboveRoot =
     join_with ''/'' (foldl (push_segment allowAboveRoot) [] (split_slash path))"

definition posix_normalize :: "string \<Rightarrow> string" where
  "posix_normalize path =
     (if path = [] then ''.''
      else
        let isAbsolute = (hd path = CHR ''/'');
            trailingSeparator = (last path = CHR ''/'');
            p = normalizeString path (\<not> isAbsolute)
        in if p = [] then
             (if isAbsolute then ''/'' else if trailingSeparator then ''./'' else ''.'')
           else (if isAbsolute then ''/'' else []) @ p @
                (if trailingSeparator then ''/'' else []))"

definition posix_join :: "string list \<Rightarrow> string" where
  "posix_join args =
     (let parts = filter (\<lambda>a. a \<noteq> []) args
      in if parts = [] then ''.'' else posix_normalize (join_with ''/'' parts))"

text \<open>
  Paths that normalisation leaves as they are: \<^verbatim>\<open>/s1/.../sn\<close> with every segment
  non-empty, without a slash and different from \<^verbatim>\<open>.\<close> and \<^verbatim>\<open>..\<close> (the empty path
  for no segment).
\<close>

definition plain_segment :: "string \<Rightarrow> bool" where
  "plain_segment s = (s \<noteq> [] \<and> CHR ''/'' \<notin> set s \<and> s \<noteq> ''.'' \<and> s \<noteq> ''..'')"

definition plain_path :: "string list \<Rightarrow> string" where
  "plain_path segs = concat (map ((#) CHR ''/'') segs)"

text \<open>Strings without two dots in a row: none of their segments is \<^verbatim>\<open>..\<close>.\<close>

fun no_dotdot :: "string \<Rightarrow> bool" where
  "no_dotdot [] = True"
| "no_dotdot [c] = True"
| "no_dotdot (c # d # cs) = (\<not> (c = CHR ''.'' \<and> d = CHR ''.'') \<and> no_dotdot (d # cs))"

section \<open>Data model\<close>

subsection \<open>Output routes (the Route and RouteWithSrc types of the routing utilities)\<close>

text \<open>
  An optional property of a JavaScript object is an \<open>option\<close>; \<open>None\<close> is an absent
  (or undefined) property, which \<^verbatim>\<open>JSON.stringify\<close> leaves out.  Objects whose key
  order matters (\<^verbatim>\<open>headers\<close>, \<^verbatim>\<open>locale.redirect\<close>) are association lists.
  The property \<^verbatim>\<open>locale\<close> of a route is the field \<open>locale'\<close>.
\<close>

record has_field =
  h_type :: string
  h_key :: "string option"
  h_value :: "string option"

record transform =
  t_type :: string
  t_op :: string
  t_target_key :: string
  t_args :: string

record locale_field =
  l_redirect :: "(string \<times> string) list"
  l_cookie :: string

record route_with_src =
  src :: string
  dest :: "string option"
  headers :: "(string \<times> string) list option"
  status :: "nat option"
  has :: "has_field list option"
  missing :: "has_field list option"
  continue :: "bool option"
  override :: "bool option"
  important :: "bool option"
  check :: "bool option"
  caseSensitive :: "bool option"
  locale' :: "locale_field option"
  transforms :: "transform list option"
  middlewarePath :: "string option"
  middlewareRawSrc :: "string list option"

datatype handle_value = Filesystem | Resource | Miss | Rewrite | Hit | Error

datatype route = RouteWithHandle handle_value | RouteWithSrc route_with_src

text \<open>The object literal \<^verbatim>\<open>{ src }\<close>: every other property absent.\<close>

definition route_src :: "string \<Rightarrow> route_with_src" where
  "route_src s =
     \<lparr>src = s, dest = None, headers = None, status = None, has = None, missing = None,
      continue = None, override = None, important = None, check = None,
      caseSensitive = None, locale' = None, transforms = None, middlewarePath = None,
      middlewareRawSrc = None\<rparr>"

text \<open>
  \<^verbatim>\<open>obj[k] = v\<close> on an object kept as an association list in key order: an own
  key keeps its place, a new key goes last.  (JavaScript lists keys that are array
  indices first, and \<^verbatim>\<open>__proto__\<close> is no own key; header names and locale codes are
  taken not to be such keys.)
\<close>

fun obj_set :: "string \<Rightarrow> 'v \<Rightarrow> (string \<times> 'v) list \<Rightarrow> (string \<times> 'v) list" where
  "obj_set k v [] = [(k, v)]"
| "obj_set k v ((k', v') # m) =
     (if k = k' then (k, v) # m else (k', v') # obj_set k v m)"

subsection \<open>Input: the routes, the configuration and the outputs of the build\<close>

text \<open>
  The entries of \<^verbatim>\<open>routes.rewrites\<close>, \<^verbatim>\<open>routes.redirects\<close>,
  \<^verbatim>\<open>routes.headers\<close>, \<^verbatim>\<open>routes.dynamicRoutes\<close> and of the middleware's
  \<^verbatim>\<open>config.matchers\<close>.  Field names carry a prefix per type, since the same
  property names (\<^verbatim>\<open>sourceRegex\<close>, \<^verbatim>\<open>has\<close>, \<^verbatim>\<open>missing\<close>, ...) occur in each.
\<close>

record rewrite_item =
  rw_sourceRegex :: string
  rw_destination :: string
  rw_has :: "has_field list option"
  rw_missing :: "has_field list option"

record redirect_item =
  rd_sourceRegex :: string
  rd_destination :: string
  rd_statusCode :: nat
  rd_priority :: bool
  rd_has :: "has_field list option"
  rd_missing :: "has_field list option"

record header_item =
  hd_sourceRegex :: string
  hd_headers :: "(string \<times> string) list"
  hd_priority :: bool
  hd_has :: "has_field list option"
  hd_missing :: "has_field list option"

record dynamic_item =
  dyn_sourceRegex :: string
  dyn_destination :: string
  dyn_has :: "has_field list option"
  dyn_missing :: "has_field list option"

record matcher =
  m_sourceRegex :: string
  m_source :: "string option"
  m_has :: "has_field list option"
  m_missing :: "has_field list option"

record 'a rewrite_groups =
  beforeFiles :: "'a list"
  afterFiles :: "'a list"
  fallback :: "'a list"

record adapter_routes =
  routes_rewrites :: "rewrite_item rewrite_groups"
  redirects :: "redirect_item list"
  routes_headers :: "header_item list"
  dynamicRoutes :: "dynamic_item list"

record i18n_domain =
  d_domain :: string
  d_defaultLocale :: string
  d_locales :: "string list option"
  d_http :: "bool option"

record i18n_config =
  defaultLocale :: string
  locales :: "string list"
  domains :: "i18n_domain list option"
  localeDetection :: "bool option"

text \<open>
  Of the configuration only what the route compiler reads; \<open>cacheComponents\<close> and
  \<open>clientSegmentCache\<close> are the truth values of the two \<^verbatim>\<open>config.experimental\<close>
  flags.
\<close>

record next_config =
  basePath :: string
  trailingSlash :: bool
  i18n :: "i18n_config option"
  cacheComponents :: bool
  clientSegmentCache :: bool

datatype runtime = Nodejs | Edge

text \<open>
  Modelled from the spec: the enum \<^verbatim>\<open>AdapterOutputType\<close> (imported from
  \<^verbatim>\<open>next/dist/shared/lib/constants\<close>) is not among the sources.  Its members are
  taken to be the strings of their own names, as the keys of \<^verbatim>\<open>AdapterOutput[...]\<close>
  in outputs.ts are, so that \<^verbatim>\<open>AdapterOutputType.PAGES\<close> is a non-empty string: the
  spec's design notes say of the expression computing \<^verbatim>\<open>operationType\<close> that one
  operand is always truthy.
\<close>

datatype AdapterOutputType = PAGES | PAGES_API | APP_PAGE | APP_ROUTE | PRERENDER
  | STATIC_FILE | MIDDLEWARE

fun enum_value :: "AdapterOutputType \<Rightarrow> string" where
  "enum_value PAGES = ''PAGES''"
| "enum_value PAGES_API = ''PAGES_API''"
| "enum_value APP_PAGE = ''APP_PAGE''"
| "enum_value APP_ROUTE = ''APP_ROUTE''"
| "enum_value PRERENDER = ''PRERENDER''"
| "enum_value STATIC_FILE = ''STATIC_FILE''"
| "enum_value MIDDLEWARE = ''MIDDLEWARE''"

record func_output =
  o_id :: string
  o_pathname :: string
  o_runtime :: runtime
  o_type :: AdapterOutputType

record middleware_output = func_output +
  mw_matchers :: "matcher list option"

record static_file =
  s_pathname :: string

text \<open>
  \<open>p_fallbackFalse\<close> is \<^verbatim>\<open>prerender.parentFallbackMode === false\<close>, the one test the
  code makes on that property.
\<close>

record prerender =
  p_pathname :: string
  p_parentOutputId :: string
  p_fallbackFalse :: bool

record outputs =
  appPages :: "func_output list"
  appRoutes :: "func_output list"
  pages :: "func_output list"
  pagesApi :: "func_output list"
  staticFiles :: "static_file list"
  prerenders :: "prerender list"
  middleware :: "middleware_output option"

text \<open>The argument of \<^verbatim>\<open>onBuildComplete\<close>, without the directories.\<close>

record build_context =
  routes :: adapter_routes
  config :: next_config
  buildId :: string
  build_outputs :: outputs

section \<open>routing.ts\<close>

subsection \<open>modifyWithRewriteHeaders\<close>

text \<open>
  The destination is split at the first \<^verbatim>\<open>?\<close> into path and query, and a
  \<^verbatim>\<open>#\<close> fragment is cut from the query (or from the path when there is no
  query).
\<close>

definition split_dest :: "string \<Rightarrow> string \<times> string option" where
  "split_dest d =
     (case indexOf d (CHR ''?'') of
        Some index \<Rightarrow>
          (let query = substringFrom d (index + 1);
               pathname = substring d 0 index
           in (pathname,
               Some (case indexOf query (CHR ''#'') of
                       Some index' \<Rightarrow> substring query 0 index'
                     | None \<Rightarrow> query)))
      | None \<Rightarrow>
          (case indexOf d (CHR ''#'') of
             Some index \<Rightarrow> (substring d 0 index, None)
           | None \<Rightarrow> (d, None)))"

text \<open>
  \<^verbatim>\<open>const parts = ['\\.rsc']; ... parts.join('|')\<close>
\<close>

definition rscSuffix :: "bool \<Rightarrow> bool \<Rightarrow> string" where
  "rscSuffix shouldHandlePrefetchRsc shouldHandleSegmentPrefetches =
     join_with ''|''
       ([BS # ''.rsc''] @
        (if shouldHandlePrefetchRsc then [BS # ''.prefetch'' @ BS # ''.rsc''] else []) @
        (if shouldHandleSegmentPrefetches
         then [BS # ''.segments/.+'' @ BS # ''.segment'' @ BS # ''.rsc''] else []))"

text \<open>
  \<^verbatim>\<open>rewrite.src.replace(/(\\\/(\?)?)?\(\?:\\\/\)\?\$$/, repl)\<close>: the pattern matches, at
  the end of the string only, the text \<^verbatim>\<open>(?:\/)?$\<close>, preceded by \<^verbatim>\<open>\/?\<close> or by
  \<^verbatim>\<open>\/\<close> when one of them is there (the leftmost match is the longest one).  The
  replacement text has no \<^verbatim>\<open>$\<close> and is inserted as it is.
\<close>

definition optionalTrailingSlash :: string where
  "optionalTrailingSlash = ''(?:'' @ BS # ''/)?$''"

definition replaceTrailingSlash :: "string \<Rightarrow> string \<Rightarrow> string" where
  "replaceTrailingSlash s repl =
     (if endsWith s (BS # ''/?'' @ optionalTrailingSlash)
        then take (length s - 11) s @ repl
      else if endsWith s (BS # ''/'' @ optionalTrailingSlash)
        then take (length s - 10) s @ repl
      else if endsWith s optionalTrailingSlash
        then take (length s - 8) s @ repl
      else s)"

text \<open>The destination with \<^verbatim>\<open>$rscsuff\<close> put before the query, if any.\<close>

definition addRscSuffix :: "string \<Rightarrow> string" where
  "addRscSuffix d =
     (case indexOf d (CHR ''?'') of
        None \<Rightarrow> d @ ''$rscsuff''
      | Some destQueryIndex \<Rightarrow>
          substring d 0 destQueryIndex @ ''$rscsuff'' @ substringFrom d destQueryIndex)"

text \<open>
  The body of the loop, for one rewrite.  \<open>falsy\<close> is \<^verbatim>\<open>!x\<close> for a value that is a
  string, \<^verbatim>\<open>null\<close> or \<^verbatim>\<open>undefined\<close>.
\<close>

definition falsy :: "string option \<Rightarrow> bool" where
  "falsy x = (x = None \<or> x = Some [])"

definition modifyRewrite :: "bool \<Rightarrow> bool \<Rightarrow> bool \<Rightarrow> route_with_src \<Rightarrow> route_with_src" where
  "modifyRewrite isAfterFilesRewrite shouldHandlePrefetchRsc shouldHandleSegmentPrefetches
       rewrite =
     (case dest rewrite of
        None \<Rightarrow> rewrite
      | Some d \<Rightarrow>
          if src rewrite = [] \<or> d = [] then rewrite
          else
            let protocol = (if startsWith d ''http://'' then Some ''http://''
                            else if startsWith d ''https://'' then Some ''https://''
                            else None);
                pathname = (if protocol = None then Some (fst (split_dest d)) else None);
                query = (if protocol = None then snd (split_dest d) else None);
                rewrite' =
                  (if isAfterFilesRewrite then
                     rewrite\<lparr>src := replaceTrailingSlash (src rewrite)
                               (''(?:/)?(?<rscsuff>'' @
                                rscSuffix shouldHandlePrefetchRsc
                                  shouldHandleSegmentPrefetches @ '')?''),
                             dest := Some (addRscSuffix d)\<rparr>
                   else rewrite)
            in if protocol \<noteq> None \<or> (falsy pathname \<and> falsy query) then rewrite'
               else
                 rewrite'\<lparr>headers :=
                   Some ((case query of
                            Some q \<Rightarrow> if q = [] then id
                                      else obj_set ''x-nextjs-rewritten-query'' q
                          | None \<Rightarrow> id)
                         ((case pathname of
                             Some p \<Rightarrow> if p = [] then id
                                       else obj_set ''x-nextjs-rewritten-path'' p
                           | None \<Rightarrow> id)
                          (case headers rewrite' of None \<Rightarrow> [] | Some h \<Rightarrow> h)))\<rparr>)"

definition modifyWithRewriteHeaders ::
  "route_with_src list \<Rightarrow> bool \<Rightarrow> bool \<Rightarrow> bool \<Rightarrow> route_with_src list" where
  "modifyWithRewriteHeaders rws isAfterFilesRewrite shouldHandlePrefetchRsc
       shouldHandleSegmentPrefetches =
     map (modifyRewrite isAfterFilesRewrite shouldHandlePrefetchRsc
            shouldHandleSegmentPrefetches) rws"

subsection \<open>normalizeRewrites\<close>

text \<open>
  \<open>normalizeItem\<close> is the local function \<^verbatim>\<open>normalize\<close> of normalizeRewrites (the
  library has a constant of that name).
\<close>

definition normalizeItem :: "rewrite_item \<Rightarrow> route_with_src" where
  "normalizeItem item =
     (route_src (rw_sourceRegex item))
       \<lparr>dest := Some (rw_destination item), has := rw_has item,
        missing := rw_missing item, check := Some True\<rparr>"

definition normalizeRewrites ::
  "rewrite_item rewrite_groups \<Rightarrow> route_with_src rewrite_groups" where
  "normalizeRewrites rw =
     \<lparr>beforeFiles =
        map (\<lambda>item. (normalizeItem item)\<lparr>check := None, continue := Some True,
                                       override := Some True\<rparr>)
          (beforeFiles rw),
      afterFiles = map normalizeItem (afterFiles rw),
      fallback = map normalizeItem (fallback rw)\<rparr>"

subsection \<open>normalizeNextDataRoutes and denormalizeNextDataRoutes\<close>

definition x_nextjs_data :: has_field where
  "x_nextjs_data = \<lparr>h_type = ''header'', h_key = Some ''x-nextjs-data'', h_value = None\<rparr>"

definition normalizeNextDataRoutes ::
  "next_config \<Rightarrow> string \<Rightarrow> bool \<Rightarrow> bool \<Rightarrow> route_with_src list" where
  "normalizeNextDataRoutes cfg bid shouldHandleMiddlewareDataResolving isOverride =
     (if \<not> shouldHandleMiddlewareDataResolving then []
      else
        [(route_src (posix_join [''/'', basePath cfg, ''/_next/data/(.*)'']))
           \<lparr>missing := Some [x_nextjs_data],
            transforms := Some [\<lparr>t_type = ''request.headers'', t_op = ''append'',
                                 t_target_key = ''x-nextjs-data'', t_args = ''1''\<rparr>],
            continue := Some True\<rparr>,
         (route_src (''^'' @ posix_join [''/'', basePath cfg, ''/_next/data/'',
                                         escapeInline bid, ''/(.*).json'']))
           \<lparr>dest := Some (posix_join [''/'', basePath cfg, ''/$1'',
                                      if trailingSlash cfg then ''/'' else []]),
            override := (if isOverride then Some True else None),
            continue := Some True,
            has := Some [x_nextjs_data]\<rparr>,
         (route_src (posix_join [''^/'', basePath cfg, ''/index(?:/)?'']))
           \<lparr>has := Some [x_nextjs_data],
            dest := Some (posix_join [''/'', basePath cfg,
                                      if trailingSlash cfg then ''/'' else []]),
            override := (if isOverride then Some True else None),
            continue := Some True\<rparr>])"

definition denormalizeNextDataRoutes ::
  "next_config \<Rightarrow> string \<Rightarrow> bool \<Rightarrow> bool \<Rightarrow> route_with_src list" where
  "denormalizeNextDataRoutes cfg bid shouldHandleMiddlewareDataResolving isOverride =
     (if \<not> shouldHandleMiddlewareDataResolving then []
      else
        [(route_src (posix_join [''^/'',
                        if basePath cfg \<noteq> [] \<and> basePath cfg \<noteq> ''/''
                        then basePath cfg @ (if trailingSlash cfg then ''/$'' else ''$'')
                        else ''$'']))
           \<lparr>has := Some [x_nextjs_data],
            dest := Some (posix_join [''/'', basePath cfg, ''/_next/data/'', bid,
                                      ''/index.json'']),
            continue := Some True,
            override := (if isOverride then Some True else None)\<rparr>,
         (route_src (posix_join [''^/'', basePath cfg, ''((?!_next/)(?:.*[^/]|.*))/?$'']))
           \<lparr>has := Some [x_nextjs_data],
            dest := Some (posix_join [''/'', basePath cfg, ''/_next/data/'', bid,
                                      ''/$1.json'']),
            continue := Some True,
            override := (if isOverride then Some True else None)\<rparr>])"

section \<open>outputs.ts\<close>

text \<open>
  Writing files is outside the model; of the output handlers there remain the values
  they compute and the errors they throw.
\<close>

text \<open>
  The errors: \<^verbatim>\<open>Invariant: missing parent output <id> for prerender ...\<close> of
  index.ts, \<^verbatim>\<open>Invariant: failed to find parent node output ...\<close> of
  handlePrerenderOutputs, and a TypeError of the JavaScript runtime.
\<close>

datatype build_error =
    MissingParentOutput string
  | FailedToFindParentNodeOutput
  | TypeError

text \<open>
  \<^verbatim>\<open>output.type === AdapterOutputType.APP_PAGE || AdapterOutputType.PAGES ? 'PAGE' : 'API'\<close>:
  \<^verbatim>\<open>===\<close> binds tighter than \<^verbatim>\<open>||\<close>, and \<^verbatim>\<open>||\<close> tighter than the conditional,
  so the condition is the truth value of \<^verbatim>\<open>(type === APP_PAGE) || PAGES\<close>, where a
  string is truthy when it is not empty.  This is the \<^verbatim>\<open>operationType\<close> that
  handleNodeOutputs writes into the \<^verbatim>\<open>.vc-config.json\<close> of the output.
\<close>

definition operationType :: "'a func_output_scheme \<Rightarrow> string" where
  "operationType output =
     (if o_type output = APP_PAGE \<or> enum_value PAGES \<noteq> [] then ''PAGE'' else ''API'')"

text \<open>
  handleMiddleware: one route per matcher.  (The runtime of an output is \<^verbatim>\<open>nodejs\<close> or
  \<^verbatim>\<open>edge\<close> by its type, so the error for another runtime cannot arise.)
\<close>

definition handleMiddleware :: "middleware_output \<Rightarrow> route_with_src list" where
  "handleMiddleware output =
     map (\<lambda>matcher.
            (route_src (m_sourceRegex matcher))
              \<lparr>continue := Some True,
               has := m_has matcher,
               missing := m_missing matcher,
               middlewarePath := Some (o_pathname output),
               middlewareRawSrc :=
                 Some (case m_source matcher of
                         None \<Rightarrow> []
                       | Some s \<Rightarrow> if s = [] then [] else [s]),
               override := Some True\<rparr>)
         (case mw_matchers output of None \<Rightarrow> [] | Some ms \<Rightarrow> ms)"

text \<open>
  handlePrerenderOutputs throws when the parent of a prerender is not in the map of the
  node outputs.  The prerenders are handled concurrently and the first failure rejects
  the whole, so the error names no prerender.
\<close>

definition handlePrerenderOutputs ::
  "prerender list \<Rightarrow> (string \<rightharpoonup> func_output) \<Rightarrow> build_error + unit" where
  "handlePrerenderOutputs prerenderOutputs nodeOutputsParentMap =
     (if list_all (\<lambda>output. nodeOutputsParentMap (p_parentOutputId output) \<noteq> None)
           prerenderOutputs
      then Inr () else Inl FailedToFindParentNodeOutput)"

section \<open>index.ts: onBuildComplete\<close>

subsection \<open>Facts derived from the outputs\<close>

definition hasMiddleware :: "build_context \<Rightarrow> bool" where
  "hasMiddleware b = (middleware (build_outputs b) \<noteq> None)"

definition hasAppDir :: "build_context \<Rightarrow> bool" where
  "hasAppDir b = (appPages (build_outputs b) \<noteq> [] \<or> appRoutes (build_outputs b) \<noteq> [])"

definition hasPagesDir :: "build_context \<Rightarrow> bool" where
  "hasPagesDir b = (pages (build_outputs b) \<noteq> [] \<or> pagesApi (build_outputs b) \<noteq> [])"

definition shouldHandleMiddlewareDataResolving :: "build_context \<Rightarrow> bool" where
  "shouldHandleMiddlewareDataResolving b = (hasPagesDir b \<and> hasMiddleware b)"

record wildcard_entry =
  w_domain :: string
  w_value :: string

definition wildcard :: "next_config \<Rightarrow> wildcard_entry list option" where
  "wildcard cfg =
     (case i18n cfg of
        None \<Rightarrow> None
      | Some i18nConfig \<Rightarrow>
          (case domains i18nConfig of
             None \<Rightarrow> None
           | Some ds \<Rightarrow>
               Some (map (\<lambda>item.
                            \<lparr>w_domain = d_domain item,
                             w_value = (if d_defaultLocale item = defaultLocale i18nConfig
                                        then [] else ''/'' @ d_defaultLocale item)\<rparr>)
                         ds)))"

definition function_outputs :: "build_context \<Rightarrow> func_output list" where
  "function_outputs b =
     appPages (build_outputs b) @ appRoutes (build_outputs b) @
     pages (build_outputs b) @ pagesApi (build_outputs b)"

text \<open>The two loops over the function outputs and over the static files set the flags.\<close>

definition output_pathnames :: "build_context \<Rightarrow> string list" where
  "output_pathnames b =
     map o_pathname (function_outputs b) @ map s_pathname (staticFiles (build_outputs b))"

definition hasNotFoundOutput :: "build_context \<Rightarrow> bool" where
  "hasNotFoundOutput b = list_ex (\<lambda>p. endsWith p ''/_not-found'') (output_pathnames b)"

definition has404Output :: "build_context \<Rightarrow> bool" where
  "has404Output b = list_ex (\<lambda>p. endsWith p ''/404'') (output_pathnames b)"

definition has500Output :: "build_context \<Rightarrow> bool" where
  "has500Output b = list_ex (\<lambda>p. endsWith p ''/500'') (output_pathnames b)"

definition notFoundPath :: "build_context \<Rightarrow> string" where
  "notFoundPath b =
     (if hasNotFoundOutput b then ''/_not-found''
      else if has404Output b then ''/404''
      else ''/_error'')"

definition nodeOutputsParentMap :: "build_context \<Rightarrow> (string \<rightharpoonup> func_output)" where
  "nodeOutputsParentMap b =
     foldl (\<lambda>m output. if o_runtime output = Nodejs then m(o_id output \<mapsto> output) else m)
       Map.empty (function_outputs b)"

subsection \<open>The prerenders whose parent has fallback: false\<close>

text \<open>
  \<^verbatim>\<open>prerenderFallbackFalseMap\<close> is a plain object used as a dictionary.  Reading a key
  that is not its own property finds the properties of \<^verbatim>\<open>Object.prototype\<close>; their
  values are truthy and have no \<^verbatim>\<open>push\<close>, so for such a key the call
  \<^verbatim>\<open>currentMap.push(...)\<close> throws a TypeError.
\<close>

definition object_prototype_keys :: "string list" where
  "object_prototype_keys =
     [''constructor'', ''__defineGetter__'', ''__defineSetter__'', ''hasOwnProperty'',
      ''__lookupGetter__'', ''__lookupSetter__'', ''isPrototypeOf'',
      ''propertyIsEnumerable'', ''toString'', ''valueOf'', ''__proto__'',
      ''toLocaleString'']"

fun prerenderFallbackFalseLoop ::
  "next_config \<Rightarrow> (string \<rightharpoonup> func_output) \<Rightarrow> prerender list \<Rightarrow> (string \<rightharpoonup> string list)
     \<Rightarrow> build_error + (string \<rightharpoonup> string list)" where
  "prerenderFallbackFalseLoop cfg parents [] prerenderFallbackFalseMap =
     Inr prerenderFallbackFalseMap"
| "prerenderFallbackFalseLoop cfg parents (prerender # rest) prerenderFallbackFalseMap =
     (if p_fallbackFalse prerender \<and>
         \<not> str_includes (p_pathname prerender) ''_next/data'' \<and>
         \<not> endsWith (p_pathname prerender) ''.rsc''
      then
        (case parents (p_parentOutputId prerender) of
           None \<Rightarrow> Inl (MissingParentOutput (p_parentOutputId prerender))
         | Some parentOutput \<Rightarrow>
             (let parentPage =
                    substringFrom (o_pathname parentOutput) (length (basePath cfg));
                  path = substringFrom (p_pathname prerender) (length (basePath cfg))
              in case prerenderFallbackFalseMap parentPage of
                   Some currentMap \<Rightarrow>
                     prerenderFallbackFalseLoop cfg parents rest
                       (prerenderFallbackFalseMap(parentPage \<mapsto> currentMap @ [path]))
                 | None \<Rightarrow>
                     if parentPage \<in> set object_prototype_keys then Inl TypeError
                     else prerenderFallbackFalseLoop cfg parents rest
                            (prerenderFallbackFalseMap(parentPage \<mapsto> [path]))))
      else prerenderFallbackFalseLoop cfg parents rest prerenderFallbackFalseMap)"

subsection \<open>The routes made from the user's redirects, headers, rewrites and dynamic routes\<close>

definition shouldHandlePrefetchRsc :: "build_context \<Rightarrow> bool" where
  "shouldHandlePrefetchRsc b = cacheComponents (config b)"

definition shouldHandleSegmentPrefetches :: "build_context \<Rightarrow> bool" where
  "shouldHandleSegmentPrefetches b =
     (clientSegmentCache (config b) \<or> cacheComponents (config b))"

definition convertedRewrites :: "build_context \<Rightarrow> route_with_src rewrite_groups" where
  "convertedRewrites b =
     (let converted = normalizeRewrites (routes_rewrites (routes b))
      in if shouldHandlePrefetchRsc b \<or> shouldHandleSegmentPrefetches b then
           \<lparr>beforeFiles =
              modifyWithRewriteHeaders (beforeFiles converted) False
                (shouldHandlePrefetchRsc b) (shouldHandleSegmentPrefetches b),
            afterFiles =
              modifyWithRewriteHeaders (afterFiles converted) True
                (shouldHandlePrefetchRsc b) (shouldHandleSegmentPrefetches b),
            fallback =
              modifyWithRewriteHeaders (fallback converted) False
                (shouldHandlePrefetchRsc b) (shouldHandleSegmentPrefetches b)\<rparr>
         else converted)"

definition redirectRoute :: "redirect_item \<Rightarrow> route_with_src" where
  "redirectRoute redirect =
     (route_src (rd_sourceRegex redirect))
       \<lparr>headers := Some [(''Location'', rd_destination redirect)],
        status := Some (rd_statusCode redirect),
        has := rd_has redirect,
        missing := rd_missing redirect\<rparr>"

definition priorityRedirects :: "build_context \<Rightarrow> route_with_src list" where
  "priorityRedirects b =
     map (\<lambda>redirect. (redirectRoute redirect)\<lparr>continue := Some True\<rparr>)
       (filter rd_priority (redirects (routes b)))"

definition redirectRoutes :: "build_context \<Rightarrow> route_with_src list" where
  "redirectRoutes b =
     map redirectRoute (filter (\<lambda>redirect. \<not> rd_priority redirect) (redirects (routes b)))"

definition headerRoutes :: "build_context \<Rightarrow> route_with_src list" where
  "headerRoutes b =
     map (\<lambda>route.
            (route_src (hd_sourceRegex route))
              \<lparr>headers := Some (hd_headers route),
               continue := Some True,
               has := hd_has route,
               missing := hd_missing route,
               important := (if hd_priority route then Some True else None)\<rparr>)
       (routes_headers (routes b))"

definition middlewareRoutes :: "build_context \<Rightarrow> route_with_src list" where
  "middlewareRoutes b =
     (case middleware (build_outputs b) of
        None \<Rightarrow> []
      | Some output \<Rightarrow> handleMiddleware output)"

text \<open>
  The loop over \<^verbatim>\<open>routes.dynamicRoutes\<close>; \<open>added\<close> is the variable
  \<^verbatim>\<open>addedNextData404Route\<close>, and \<open>guarded\<close> is \<^verbatim>\<open>hasPagesDir && !hasMiddleware\<close>.
\<close>

definition nextData404Route :: "next_config \<Rightarrow> route_with_src" where
  "nextData404Route cfg =
     (route_src (posix_join [''/'', basePath cfg, ''_next/data/(.*)'']))
       \<lparr>dest := Some (posix_join [''/'', basePath cfg, ''404'']),
        status := Some 404,
        check := Some True\<rparr>"

definition dynamicRoute :: "dynamic_item \<Rightarrow> route_with_src" where
  "dynamicRoute route =
     (route_src (dyn_sourceRegex route))
       \<lparr>dest := Some (dyn_destination route),
        check := Some True,
        has := dyn_has route,
        missing := dyn_missing route\<rparr>"

fun dynamicRoutesLoop ::
  "next_config \<Rightarrow> bool \<Rightarrow> dynamic_item list \<Rightarrow> bool \<Rightarrow> route_with_src list" where
  "dynamicRoutesLoop cfg guarded [] added = []"
| "dynamicRoutesLoop cfg guarded (route # rest) added =
     (if guarded \<and> \<not> str_includes (dyn_sourceRegex route) ''_next/data'' \<and> \<not> added
      then nextData404Route cfg # dynamicRoute route #
           dynamicRoutesLoop cfg guarded rest True
      else dynamicRoute route # dynamicRoutesLoop cfg guarded rest added)"

definition dynamicRoutesOut :: "build_context \<Rightarrow> route_with_src list" where
  "dynamicRoutesOut b =
     dynamicRoutesLoop (config b) (hasPagesDir b \<and> \<not> hasMiddleware b)
       (dynamicRoutes (routes b)) False"

subsection \<open>The routes the adapter generates itself\<close>

text \<open>
  The array assigned to \<^verbatim>\<open>vercelConfig.routes\<close> is one literal made of spread
  fragments.  Each fragment is a definition below, in the order of the source, and each
  route is paired with the name of the fragment that emits it (a label only: the array
  itself is the list of the second components).
\<close>

datatype fragment =
    PriorityRedirects
  | NormalizeDataPreRedirect
  | LocaleWildcard
  | LocaleDomainRedirect
  | LocalePathRedirect
  | DefaultLocaleRewrite
  | UserHeaders
  | Redirects
  | MiddlewareMatchers
  | BeforeFilesRewrites
  | Literal404Locale
  | Literal404
  | Literal500Locale
  | Literal500
  | DenormalizeDataPreFilesystem
  | AppRsc
  | PhaseMarker
  | NextImage
  | NormalizeDataPostFilesystem
  | NextDataNoop
  | IndexRsc
  | AfterFilesRewrites
  | RscRepair
  | FallbackRewrites
  | Directory404
  | Static404
  | DefaultLocaleFallback
  | LocaleStrip
  | SegmentPrefetch
  | DenormalizeDataPostRewrite
  | DynamicRoutes
  | MiddlewareData
  | StaticCache
  | MatchedPath
  | NotFoundLocale
  | NotFound
  | ServerErrorLocale
  | ServerError

definition emit :: "fragment \<Rightarrow> route_with_src list \<Rightarrow> (fragment \<times> route) list" where
  "emit f rs = map (\<lambda>r. (f, RouteWithSrc r)) rs"

definition marker :: "handle_value \<Rightarrow> (fragment \<times> route) list" where
  "marker h = [(PhaseMarker, RouteWithHandle h)]"

text \<open>
  \<^verbatim>\<open>config.i18n.locales.map((locale) => escapeStringRegexp(locale)).join('|')\<close>
\<close>

definition localeAlternatives :: "i18n_config \<Rightarrow> string" where
  "localeAlternatives c = join_with ''|'' (map escapeStringRegexp (locales c))"

text \<open>
  \<^verbatim>\<open>config.basePath && config.basePath !== '/' ? path.posix.join('/', config.basePath) : ''\<close>
\<close>

definition basePathPrefix :: "next_config \<Rightarrow> string" where
  "basePathPrefix cfg =
     (if basePath cfg \<noteq> [] \<and> basePath cfg \<noteq> ''/''
      then posix_join [''/'', basePath cfg] else [])"

text \<open>The source pattern shared by the rules that skip paths with a locale prefix.\<close>

definition nonLocalePathSrc :: "next_config \<Rightarrow> i18n_config \<Rightarrow> string" where
  "nonLocalePathSrc cfg c =
     ''^'' @ posix_join [''/'', basePath cfg, ''/''] @ ''(?!(?:_next/.*|'' @
     localeAlternatives c @ '')(?:/.*|$))(.*)$''"

definition localeWildcard :: "next_config \<Rightarrow> i18n_config \<Rightarrow> route_with_src list" where
  "localeWildcard cfg c =
     [(route_src (''^'' @ posix_join [''/'', basePath cfg, ''/''] @ ''(?!(?:_next/.*|'' @
                  localeAlternatives c @ '')(?:/.*|$))$''))
        \<lparr>dest := Some (basePathPrefix cfg @ ''$wildcard'' @
                        (if trailingSlash cfg then ''/'' else [])),
         continue := Some True\<rparr>,
      (route_src (nonLocalePathSrc cfg c))
        \<lparr>dest := Some (basePathPrefix cfg @ ''$wildcard/$1''),
         continue := Some True\<rparr>]"

text \<open>The \<^verbatim>\<open>reduce\<close> over the domains, and the one over the locales.\<close>

definition domainRedirect :: "i18n_domain list \<Rightarrow> (string \<times> string) list" where
  "domainRedirect ds =
     foldl (\<lambda>prev item.
              let origin = ''http'' @ (if d_http item = Some True then [] else ''s'') @
                           ''://'' @ d_domain item @ ''/'';
                  prev' = obj_set (d_defaultLocale item) origin prev
              in case d_locales item of
                   None \<Rightarrow> prev'
                 | Some ls \<Rightarrow> foldl (\<lambda>p l. obj_set l (origin @ l) p) prev' ls)
       [] ds"

definition localePathRedirect :: "i18n_config \<Rightarrow> (string \<times> string) list" where
  "localePathRedirect c =
     foldl (\<lambda>prev l. obj_set l (if l = defaultLocale c then ''/'' else ''/'' @ l) prev)
       [] (locales c)"

definition localeDetectionEnabled :: "i18n_config \<Rightarrow> bool" where
  "localeDetectionEnabled c = (localeDetection c \<noteq> Some False)"

definition localeDomainRedirect :: "next_config \<Rightarrow> i18n_config \<Rightarrow> route_with_src list" where
  "localeDomainRedirect cfg c =
     (case domains c of
        None \<Rightarrow> []
      | Some ds \<Rightarrow>
          if ds \<noteq> [] \<and> localeDetectionEnabled c then
            [(route_src (''^'' @ posix_join [''/'', basePath cfg] @ ''/?(?:'' @
                         localeAlternatives c @ '')?/?$''))
               \<lparr>locale' := Some \<lparr>l_redirect = domainRedirect ds,
                                   l_cookie = ''NEXT_LOCALE''\<rparr>,
                continue := Some True\<rparr>]
          else [])"

definition localePathRedirectRoute :: "i18n_config \<Rightarrow> route_with_src list" where
  "localePathRedirectRoute c =
     (if localeDetectionEnabled c then
        [(route_src ''/'')
           \<lparr>locale' := Some \<lparr>l_redirect = localePathRedirect c,
                               l_cookie = ''NEXT_LOCALE''\<rparr>,
            continue := Some True\<rparr>]
      else [])"

text \<open>
  The two default-locale rewrites: with \<^verbatim>\<open>continue\<close> before the user's routes, and
  with \<^verbatim>\<open>check\<close> in the miss phase when locale detection is off.
\<close>

definition defaultLocaleRewrite ::
  "next_config \<Rightarrow> i18n_config \<Rightarrow> (route_with_src \<Rightarrow> route_with_src) \<Rightarrow> route_with_src list"
  where
  "defaultLocaleRewrite cfg c flag =
     [flag ((route_src (''^'' @ posix_join [''/'', basePath cfg] @ ''$''))
              \<lparr>dest := Some (posix_join [''/'', basePath cfg, defaultLocale c])\<rparr>),
      flag ((route_src (nonLocalePathSrc cfg c))
              \<lparr>dest := Some (posix_join [''/'', basePath cfg, defaultLocale c] @ ''/$1'')\<rparr>)]"

definition x_prerender_revalidate :: has_field where
  "x_prerender_revalidate =
     \<lparr>h_type = ''header'', h_key = Some ''x-prerender-revalidate'', h_value = None\<rparr>"

definition literalStatusSrc :: "next_config \<Rightarrow> string \<Rightarrow> string" where
  "literalStatusSrc cfg code =
     (case i18n cfg of
        Some c \<Rightarrow>
          posix_join [''/'', basePath cfg, ''/''] @ ''(?:'' @
          join_with ''|'' (map escapeInline (locales c)) @ '')?[/]?'' @ code @ ''/?''
      | None \<Rightarrow> posix_join [''/'', basePath cfg, code @ ''/?''])"

definition literal404 :: "next_config \<Rightarrow> route_with_src list" where
  "literal404 cfg =
     [(route_src (literalStatusSrc cfg ''404''))
        \<lparr>status := Some 404, continue := Some True,
         missing := Some [x_prerender_revalidate]\<rparr>]"

definition literal500 :: "next_config \<Rightarrow> route_with_src list" where
  "literal500 cfg =
     [(route_src (literalStatusSrc cfg ''500''))
        \<lparr>status := Some 500, continue := Some True\<rparr>]"

definition rsc_header :: has_field where
  "rsc_header = \<lparr>h_type = ''header'', h_key = Some ''rsc'', h_value = Some ''1''\<rparr>"

definition appRsc :: "next_config \<Rightarrow> route_with_src list" where
  "appRsc cfg =
     [(route_src (''^'' @ posix_join [''/'', basePath cfg, ''/?'']))
        \<lparr>has := Some [rsc_header],
         dest := Some (posix_join [''/'', basePath cfg, ''/index.rsc'']),
         headers := Some [(''vary'', ''RSC, Next-Router-State-Tree, Next-Router-Prefetch'')],
         continue := Some True,
         override := Some True\<rparr>,
      (route_src (''^'' @ posix_join [''/'', basePath cfg,
                                      ''/((?!.+'' @ BS # ''.rsc).+?)(?:/)?$'']))
        \<lparr>has := Some [rsc_header],
         dest := Some (posix_join [''/'', basePath cfg, ''/$1.rsc'']),
         headers := Some [(''vary'', ''RSC, Next-Router-State-Tree, Next-Router-Prefetch'')],
         continue := Some True,
         override := Some True\<rparr>]"

definition nextImage :: "next_config \<Rightarrow> route_with_src list" where
  "nextImage cfg =
     (if basePath cfg \<noteq> [] then
        [(route_src (posix_join [''/'', basePath cfg, ''_next/image/?'']))
           \<lparr>dest := Some ''/_next/image'', check := Some True\<rparr>]
      else [])"

definition nextDataNoop :: "next_config \<Rightarrow> route_with_src list" where
  "nextDataNoop cfg =
     [(route_src (posix_join [''/'', basePath cfg, ''_next/data/(.*)'']))
        \<lparr>dest := Some (posix_join [''/'', basePath cfg, ''_next/data/$1'']),
         check := Some True\<rparr>]"

definition indexRsc :: "next_config \<Rightarrow> route_with_src list" where
  "indexRsc cfg =
     [(route_src (posix_join [''/'', basePath cfg,
                              ''/index('' @ BS # ''.action|'' @ BS # ''.rsc)'']))
        \<lparr>dest := Some (posix_join [''/'', basePath cfg]),
         continue := Some True\<rparr>]"

definition rscRepair :: "next_config \<Rightarrow> route_with_src list" where
  "rscRepair cfg =
     [(route_src (posix_join [''/'', basePath cfg, ''/'' @ BS # ''.rsc$'']))
        \<lparr>dest := Some (posix_join [''/'', basePath cfg, ''/index.rsc'']),
         check := Some True\<rparr>,
      (route_src (posix_join [''/'', basePath cfg, ''(.+)/'' @ BS # ''.rsc$'']))
        \<lparr>dest := Some (posix_join [''/'', basePath cfg, ''$1.rsc'']),
         check := Some True\<rparr>]"

definition directory404 :: "next_config \<Rightarrow> route_with_src list" where
  "directory404 cfg =
     [(route_src (posix_join [''/'', basePath cfg, ''.*'']))\<lparr>status := Some 404\<rparr>]"

definition static404 :: "next_config \<Rightarrow> route_with_src list" where
  "static404 cfg =
     [(route_src (posix_join [''/'', basePath cfg, ''_next/static/.+'']))
        \<lparr>status := Some 404,
         check := Some True,
         dest := Some (posix_join [''/'', basePath cfg, ''_next/static/not-found.txt'']),
         headers := Some [(''content-type'', ''text/plain; charset=utf-8'')]\<rparr>]"

definition localeStrip :: "next_config \<Rightarrow> i18n_config \<Rightarrow> route_with_src list" where
  "localeStrip cfg c =
     [(route_src (posix_join [''/'', basePath cfg, escapeStringRegexp (defaultLocale c)]))
        \<lparr>dest := Some ''/'', check := Some True\<rparr>,
      (route_src (''^'' @ posix_join [''/'', basePath cfg] @ ''/?(?:'' @
                  localeAlternatives c @ '')/(.*)''))
        \<lparr>dest := Some (posix_join [''/'', basePath cfg, ''/''] @ ''$1''),
         check := Some True\<rparr>]"

definition segmentPrefetch :: "bool \<Rightarrow> route_with_src list" where
  "segmentPrefetch prefetchRsc =
     [(route_src (''^/(?<path>.+)(?<rscSuffix>'' @ BS # ''.segments/.+'' @
                  BS # ''.segment'' @ BS # ''.rsc)(?:/)?$''))
        \<lparr>dest := Some (''/$path'' @ (if prefetchRsc then ''.prefetch.rsc'' else ''.rsc'')),
         check := Some True\<rparr>]"

definition middlewareDataSrc :: "next_config \<Rightarrow> string \<Rightarrow> string" where
  "middlewareDataSrc cfg bid =
     ''^'' @ posix_join [''/'', basePath cfg, ''/_next/data/'', escapeStringRegexp bid,
                         ''/(.*).json'']"

definition middlewareData :: "next_config \<Rightarrow> string \<Rightarrow> route_with_src list" where
  "middlewareData cfg bid =
     [(route_src (middlewareDataSrc cfg bid))
        \<lparr>headers := Some [(''x-nextjs-matched-path'', ''/$1'')],
         continue := Some True,
         override := Some True\<rparr>,
      (route_src (middlewareDataSrc cfg bid))\<lparr>dest := Some ''__next_data_catchall''\<rparr>]"

text \<open>\<^verbatim>\<open>MAX_AGE_ONE_YEAR = 31536000\<close>\<close>

definition staticCache :: "next_config \<Rightarrow> string \<Rightarrow> route_with_src list" where
  "staticCache cfg bid =
     [(route_src (posix_join [''/'', basePath cfg,
                    ''_next/static/(?:[^/]+/pages|pages|chunks|runtime|css|image|media|'' @
                    escapeStringRegexp bid @ '')/.+'']))
        \<lparr>headers := Some [(''cache-control'', ''public,max-age=31536000,immutable'')],
         continue := Some True,
         important := Some True\<rparr>]"

definition matchedPath :: "next_config \<Rightarrow> route_with_src list" where
  "matchedPath cfg =
     [(route_src (if basePath cfg \<noteq> [] \<and> basePath cfg \<noteq> ''/''
                  then posix_join [''/'', basePath cfg, ''/?(?:index)?(?:/)?$'']
                  else ''/(?:index)?(?:/)?$''))
        \<lparr>headers := Some [(''x-matched-path'', ''/'')],
         continue := Some True,
         important := Some True\<rparr>,
      (route_src (posix_join [''/'', basePath cfg, ''/((?!index$).*?)(?:/)?$'']))
        \<lparr>headers := Some [(''x-matched-path'', ''/$1'')],
         continue := Some True,
         important := Some True\<rparr>]"

text \<open>The source patterns of the fallbacks of the error phase.\<close>

definition nextLocaleSrc :: "next_config \<Rightarrow> i18n_config \<Rightarrow> string" where
  "nextLocaleSrc cfg c =
     posix_join [''/'', basePath cfg, ''/''] @ ''(?<nextLocale>'' @
     localeAlternatives c @ '')(/.*|$)''"

definition catchAllSrc :: "next_config \<Rightarrow> string" where
  "catchAllSrc cfg =
     posix_join [''/'', basePath cfg,
                 (if basePath cfg \<noteq> [] \<and> basePath cfg \<noteq> ''/'' then ''?'' else []) @ ''.*'']"

definition notFoundLocale :: "next_config \<Rightarrow> i18n_config \<Rightarrow> string \<Rightarrow> route_with_src list" where
  "notFoundLocale cfg c nfp =
     [(route_src (nextLocaleSrc cfg c))
        \<lparr>dest := Some (posix_join [''/'', basePath cfg, ''/$nextLocale'', nfp]),
         status := Some 404,
         caseSensitive := Some True\<rparr>,
      (route_src (posix_join [''/'', basePath cfg, ''.*'']))
        \<lparr>dest := Some (posix_join [''/'', basePath cfg, ''/'' @ defaultLocale c, nfp]),
         status := Some 404\<rparr>]"

definition notFoundPlain :: "next_config \<Rightarrow> string \<Rightarrow> route_with_src list" where
  "notFoundPlain cfg nfp =
     [(route_src (catchAllSrc cfg))
        \<lparr>dest := Some (posix_join [''/'', basePath cfg, nfp]),
         status := Some 404\<rparr>]"

definition serverErrorLocale :: "next_config \<Rightarrow> i18n_config \<Rightarrow> route_with_src list" where
  "serverErrorLocale cfg c =
     [(route_src (nextLocaleSrc cfg c))
        \<lparr>dest := Some (posix_join [''/'', basePath cfg, ''/$nextLocale/500'']),
         status := Some 500,
         caseSensitive := Some True\<rparr>,
      (route_src (posix_join [''/'', basePath cfg, ''.*'']))
        \<lparr>dest := Some (posix_join [''/'', basePath cfg,
                                   ''/'' @ defaultLocale c @ ''/500'']),
         status := Some 500\<rparr>]"

definition serverErrorPlain :: "next_config \<Rightarrow> bool \<Rightarrow> route_with_src list" where
  "serverErrorPlain cfg has500 =
     [(route_src (catchAllSrc cfg))
        \<lparr>dest := Some (posix_join [''/'', basePath cfg,
                                   if has500 then ''/500'' else ''/_error'']),
         status := Some 500\<rparr>]"

subsection \<open>The routes array\<close>

definition localeRoutes :: "build_context \<Rightarrow> (fragment \<times> route) list" where
  "localeRoutes b =
     (case i18n (config b) of
        Some c \<Rightarrow>
          emit LocaleWildcard (localeWildcard (config b) c) @
          emit LocaleDomainRedirect (localeDomainRedirect (config b) c) @
          emit LocalePathRedirect (localePathRedirectRoute c) @
          emit DefaultLocaleRewrite
            (defaultLocaleRewrite (config b) c (\<lambda>r. r\<lparr>continue := Some True\<rparr>))
      | None \<Rightarrow> [])"

definition literalStatusRoutes :: "build_context \<Rightarrow> (fragment \<times> route) list" where
  "literalStatusRoutes b =
     (case i18n (config b) of
        Some c \<Rightarrow> emit Literal404Locale (literal404 (config b))
      | None \<Rightarrow> emit Literal404 (literal404 (config b))) @
     (case i18n (config b) of
        Some c \<Rightarrow> emit Literal500Locale (literal500 (config b))
      | None \<Rightarrow> emit Literal500 (literal500 (config b)))"

definition localeStripRoutes :: "build_context \<Rightarrow> (fragment \<times> route) list" where
  "localeStripRoutes b =
     (case i18n (config b) of
        Some c \<Rightarrow>
          (if localeDetection c = Some False
           then emit DefaultLocaleFallback
                  (defaultLocaleRewrite (config b) c (\<lambda>r. r\<lparr>check := Some True\<rparr>))
           else []) @
          emit LocaleStrip (localeStrip (config b) c)
      | None \<Rightarrow> [])"

definition errorRoutes :: "build_context \<Rightarrow> (fragment \<times> route) list" where
  "errorRoutes b =
     (case i18n (config b) of
        Some c \<Rightarrow> emit NotFoundLocale (notFoundLocale (config b) c (notFoundPath b))
      | None \<Rightarrow> emit NotFound (notFoundPlain (config b) (notFoundPath b))) @
     (case i18n (config b) of
        Some c \<Rightarrow>
          if has500Output b then emit ServerErrorLocale (serverErrorLocale (config b) c)
          else emit ServerError (serverErrorPlain (config b) (has500Output b))
      | None \<Rightarrow> emit ServerError (serverErrorPlain (config b) (has500Output b)))"

definition routes_tagged :: "build_context \<Rightarrow> (fragment \<times> route) list" where
  "routes_tagged b =
     emit PriorityRedirects (priorityRedirects b) @
     emit NormalizeDataPreRedirect
       (normalizeNextDataRoutes (config b) (buildId b)
          (shouldHandleMiddlewareDataResolving b) True) @
     localeRoutes b @
     emit UserHeaders (headerRoutes b) @
     emit Redirects (redirectRoutes b) @
     emit MiddlewareMatchers (middlewareRoutes b) @
     emit BeforeFilesRewrites (beforeFiles (convertedRewrites b)) @
     literalStatusRoutes b @
     emit DenormalizeDataPreFilesystem
       (denormalizeNextDataRoutes (config b) (buildId b)
          (shouldHandleMiddlewareDataResolving b) True) @
     emit AppRsc (if hasAppDir b then appRsc (config b) else []) @
     marker Filesystem @
     emit NextImage (nextImage (config b)) @
     emit NormalizeDataPostFilesystem
       (normalizeNextDataRoutes (config b) (buildId b)
          (shouldHandleMiddlewareDataResolving b) False) @
     emit NextDataNoop (if \<not> hasMiddleware b then nextDataNoop (config b) else []) @
     emit IndexRsc (if hasAppDir b then indexRsc (config b) else []) @
     emit AfterFilesRewrites (afterFiles (convertedRewrites b)) @
     emit RscRepair (if hasAppDir b then rscRepair (config b) else []) @
     marker Resource @
     emit FallbackRewrites (fallback (convertedRewrites b)) @
     emit Directory404 (directory404 (config b)) @
     marker Miss @
     emit Static404 (static404 (config b)) @
     localeStripRoutes b @
     emit SegmentPrefetch
       (if shouldHandleSegmentPrefetches b
        then segmentPrefetch (shouldHandlePrefetchRsc b) else []) @
     marker Rewrite @
     emit DenormalizeDataPostRewrite
       (denormalizeNextDataRoutes (config b) (buildId b)
          (shouldHandleMiddlewareDataResolving b) False) @
     emit DynamicRoutes (dynamicRoutesOut b) @
     emit MiddlewareData
       (if hasMiddleware b then middlewareData (config b) (buildId b) else []) @
     marker Hit @
     emit StaticCache (staticCache (config b) (buildId b)) @
     emit MatchedPath (matchedPath (config b)) @
     marker Error @
     errorRoutes b"

text \<open>The value of \<^verbatim>\<open>vercelConfig.routes\<close>.\<close>

definition vercelConfig_routes :: "build_context \<Rightarrow> route list" where
  "vercelConfig_routes b = map snd (routes_tagged b)"

subsection \<open>onBuildComplete\<close>

text \<open>
  Modelled from the spec: the type \<^verbatim>\<open>VercelConfig\<close> (\<^verbatim>\<open>./types\<close>) is not among the
  sources.  The spec's route table is the ordered rule list plus supplementary fields;
  of the fields index.ts assigns (\<^verbatim>\<open>version\<close>, \<^verbatim>\<open>overrides\<close>, \<^verbatim>\<open>wildcard\<close>,
  \<^verbatim>\<open>images\<close>, \<^verbatim>\<open>routes\<close>) the record keeps the version, the wildcard table and
  the routes.
\<close>

record vercel_config =
  vc_version :: nat
  vc_wildcard :: "wildcard_entry list option"
  vc_routes :: "route list"

text \<open>
  The order of the source: the loop over the prerenders, then the output handlers
  (of which handlePrerenderOutputs can throw), then the routes, then the configuration
  is written.  An exception leaves no configuration behind.
\<close>

definition onBuildComplete :: "build_context \<Rightarrow> build_error + vercel_config" where
  "onBuildComplete b =
     (case prerenderFallbackFalseLoop (config b) (nodeOutputsParentMap b)
             (prerenders (build_outputs b)) Map.empty of
        Inl e \<Rightarrow> Inl e
      | Inr prerenderFallbackFalseMap \<Rightarrow>
          (case handlePrerenderOutputs (prerenders (build_outputs b))
                  (nodeOutputsParentMap b) of
             Inl e \<Rightarrow> Inl e
           | Inr _ \<Rightarrow>
               Inr \<lparr>vc_version = 3,
                    vc_wildcard = wildcard (config b),
                    vc_routes = vercelConfig_routes b\<rparr>))"

subsection \<open>Reading a route list\<close>

fun handles :: "route list \<Rightarrow> handle_value list" where
  "handles [] = []"
| "handles (RouteWithHandle h # rs) = h # handles rs"
| "handles (RouteWithSrc r # rs) = handles rs"

fun sources :: "route list \<Rightarrow> route_with_src list" where
  "sources [] = []"
| "sources (RouteWithHandle h # rs) = sources rs"
| "sources (RouteWithSrc r # rs) = r # sources rs"

text \<open>The routes that a fragment emitted.\<close>

definition emitted_by :: "fragment \<Rightarrow> build_context \<Rightarrow> route list" where
  "emitted_by f b = map snd (filter (\<lambda>p. fst p = f) (routes_tagged b))"

text \<open>The routes after a phase marker.\<close>

fun after_marker :: "handle_value \<Rightarrow> route list \<Rightarrow> route list" where
  "after_marker h [] = []"
| "after_marker h (r # rs) = (if r = RouteWithHandle h then rs else after_marker h rs)"

text \<open>The fragments that exist for i18n only.\<close>

definition locale_fragments :: "fragment list" where
  "locale_fragments =
     [LocaleWildcard, LocaleDomainRedirect, LocalePathRedirect, DefaultLocaleRewrite,
      Literal404Locale, Literal500Locale, DefaultLocaleFallback, LocaleStrip,
      NotFoundLocale, ServerErrorLocale]"

text \<open>
  The dynamic routes that are data routes for the loop above, and the properties that
  tell the synthetic \<^verbatim>\<open>_next/data\<close> 404 route from every other route of the array.
\<close>

definition is_data_route :: "dynamic_item \<Rightarrow> bool" where
  "is_data_route route = str_includes (dyn_sourceRegex route) ''_next/data''"

definition guard_shape :: "route_with_src \<Rightarrow> bool" where
  "guard_shape r = (status r = Some 404 \<and> check r = Some True \<and> headers r = None)"

text \<open>The routes that carry a \<^verbatim>\<open>locale\<close> property (a \<^verbatim>\<open>locale.redirect\<close> table).\<close>

definition locale_rule :: "route_with_src \<Rightarrow> bool" where
  "locale_rule r = (locale' r \<noteq> None)"

text \<open>
  The fragments whose source patterns are built from the base path (all the generated
  ones but the locale-path redirect and the segment-prefetch rewrite, whose sources are
  fixed texts), the routes they emit, and what it is for a source pattern to begin with
  the base path as it is, after an optional \<^verbatim>\<open>^\<close>.
\<close>

definition base_path_fragments :: "fragment list" where
  "base_path_fragments =
     [NormalizeDataPreRedirect, LocaleWildcard, LocaleDomainRedirect, DefaultLocaleRewrite,
      Literal404Locale, Literal404, Literal500Locale, Literal500,
      DenormalizeDataPreFilesystem, AppRsc, NextImage, NormalizeDataPostFilesystem,
      NextDataNoop, IndexRsc, RscRepair, Directory404, Static404, DefaultLocaleFallback,
      LocaleStrip, DenormalizeDataPostRewrite, MiddlewareData, StaticCache, MatchedPath,
      NotFoundLocale, NotFound, ServerErrorLocale, ServerError]"

definition emitted_among :: "fragment list \<Rightarrow> build_context \<Rightarrow> route list" where
  "emitted_among fs b = map snd (filter (\<lambda>p. fst p \<in> set fs) (routes_tagged b))"

definition base_prefixed :: "string \<Rightarrow> route_with_src \<Rightarrow> bool" where
  "base_prefixed bp r = (startsWith (src r) bp \<or> startsWith (src r) (CHR ''^'' # bp))"

section \<open>Example builds\<close>

definition ex_config :: next_config where
  "ex_config =
     \<lparr>basePath = [], trailingSlash = False, i18n = None,
      cacheComponents = False, clientSegmentCache = False\<rparr>"

definition ex_outputs :: outputs where
  "ex_outputs =
     \<lparr>appPages = [], appRoutes = [], pages = [], pagesApi = [], staticFiles = [],
      prerenders = [], middleware = None\<rparr>"

definition ex_routes :: adapter_routes where
  "ex_routes =
     \<lparr>routes_rewrites = \<lparr>beforeFiles = [], afterFiles = [], fallback = []\<rparr>,
      redirects = [], routes_headers = [], dynamicRoutes = []\<rparr>"

text \<open>An empty build: no pages, no user routes, no i18n.\<close>

definition ex_empty :: build_context where
  "ex_empty =
     \<lparr>routes = ex_routes, config = ex_config, buildId = ''abc123'',
      build_outputs = ex_outputs\<rparr>"

text \<open>An App Router route handler running on Node.js.\<close>

definition ex_api_output :: func_output where
  "ex_api_output =
     \<lparr>o_id = ''/api/hello'', o_pathname = ''/api/hello'', o_runtime = Nodejs,
      o_type = APP_ROUTE\<rparr>"

text \<open>
  A Pages Router build without middleware: a dynamic page \<^verbatim>\<open>/posts/[slug]\<close> with
  \<^verbatim>\<open>fallback: false\<close> and one prerendered path, a data route and a page route among
  the dynamic routes, one rewrite in each group, and \<^verbatim>\<open>cacheComponents\<close> on.
\<close>

definition ex_posts_output :: func_output where
  "ex_posts_output =
     \<lparr>o_id = ''/posts/[slug]'', o_pathname = ''/posts/[slug]'', o_runtime = Nodejs,
      o_type = PAGES\<rparr>"

definition ex_data_route :: dynamic_item where
  "ex_data_route =
     \<lparr>dyn_sourceRegex = ''^/_next/data/abc123/posts/([^/]+?).json$'',
      dyn_destination = ''/posts/[slug]?slug=$1'', dyn_has = None, dyn_missing = None\<rparr>"

definition ex_page_route :: dynamic_item where
  "ex_page_route =
     \<lparr>dyn_sourceRegex = ''^/posts/([^/]+?)(?:/)?$'',
      dyn_destination = ''/posts/[slug]?slug=$1'', dyn_has = None, dyn_missing = None\<rparr>"

definition ex_rewrite :: rewrite_item where
  "ex_rewrite =
     \<lparr>rw_sourceRegex = ''^'' @ BS # ''/blog(?:'' @ BS # ''/)?$'',
      rw_destination = ''/news?from=blog'', rw_has = None, rw_missing = None\<rparr>"

definition ex_prerender :: prerender where
  "ex_prerender =
     \<lparr>p_pathname = ''/posts/a'', p_parentOutputId = ''/posts/[slug]'',
      p_fallbackFalse = True\<rparr>"

definition ex_pages :: build_context where
  "ex_pages =
     \<lparr>routes =
        \<lparr>routes_rewrites =
           \<lparr>beforeFiles = [ex_rewrite], afterFiles = [ex_rewrite], fallback = [ex_rewrite]\<rparr>,
         redirects = [], routes_headers = [],
         dynamicRoutes = [ex_data_route, ex_page_route]\<rparr>,
      config = ex_config\<lparr>cacheComponents := True\<rparr>,
      buildId = ''abc123'',
      build_outputs = ex_outputs\<lparr>pages := [ex_posts_output], prerenders := [ex_prerender]\<rparr>\<rparr>"

text \<open>The same build with a middleware.\<close>

definition ex_middleware_output :: middleware_output where
  "ex_middleware_output =
     \<lparr>o_id = ''/_middleware'', o_pathname = ''/_middleware'', o_runtime = Edge,
      o_type = MIDDLEWARE,
      mw_matchers = Some [\<lparr>m_sourceRegex = ''^/.*$'', m_source = Some ''/:path*'',
                           m_has = None, m_missing = None\<rparr>]\<rparr>"

definition ex_middleware :: build_context where
  "ex_middleware =
     ex_pages\<lparr>build_outputs :=
       (build_outputs ex_pages)\<lparr>middleware := Some ex_middleware_output\<rparr>\<rparr>"

text \<open>The same build with a prerender whose parent is not among the outputs.\<close>

definition ex_orphan :: build_context where
  "ex_orphan =
     ex_pages\<lparr>build_outputs :=
       (build_outputs ex_pages)\<lparr>prerenders :=
          [ex_prerender, ex_prerender\<lparr>p_pathname := ''/docs/a'',
                                       p_parentOutputId := ''/docs/[id]''\<rparr>]\<rparr>\<rparr>"

text \<open>
  Builds with i18n: two locales and two domains under the base path \<^verbatim>\<open>/docs\<close>; the
  same with locale detection switched off; and a base path and a locale with a dot.
\<close>

definition ex_i18n_config :: i18n_config where
  "ex_i18n_config =
     \<lparr>defaultLocale = ''en'', locales = [''en'', ''fr-CA''],
      domains = Some [\<lparr>d_domain = ''example.com'', d_defaultLocale = ''en'',
                        d_locales = None, d_http = None\<rparr>,
                      \<lparr>d_domain = ''example.ca'', d_defaultLocale = ''fr-CA'',
                        d_locales = None, d_http = Some True\<rparr>],
      localeDetection = None\<rparr>"

definition ex_i18n :: build_context where
  "ex_i18n =
     ex_empty\<lparr>config := ex_config\<lparr>basePath := ''/docs'', i18n := Some ex_i18n_config\<rparr>,
              build_outputs := ex_outputs\<lparr>staticFiles := [\<lparr>s_pathname = ''/docs/en/500''\<rparr>,
                                                        \<lparr>s_pathname = ''/docs/en/404''\<rparr>]\<rparr>\<rparr>"

definition ex_no_detection :: build_context where
  "ex_no_detection =
     ex_empty\<lparr>config :=
       ex_config\<lparr>i18n := Some (ex_i18n_config\<lparr>localeDetection := Some False\<rparr>)\<rparr>\<rparr>"

definition ex_dotted :: build_context where
  "ex_dotted =
     ex_empty\<lparr>config :=
       ex_config\<lparr>basePath := ''/a.b'',
                 i18n := Some \<lparr>defaultLocale = ''en-US'', locales = [''en-US''],
                               domains = None, localeDetection = None\<rparr>\<rparr>\<rparr>"

text \<open>
  The Pages Router build with two afterFiles rewrites: the one above, and one whose
  source has \<^verbatim>\<open>\/?\<close> before the optional trailing slash and whose destination has a
  fragment and no query.
\<close>

definition ex_rewrite_dir :: rewrite_item where
  "ex_rewrite_dir =
     \<lparr>rw_sourceRegex = ''^'' @ BS # ''/docs'' @ BS # ''/?(?:'' @ BS # ''/)?$'',
      rw_destination = ''/manual#top'', rw_has = None, rw_missing = None\<rparr>"

definition ex_after :: build_context where
  "ex_after =
     ex_pages\<lparr>routes :=
       (routes ex_pages)\<lparr>routes_rewrites :=
          \<lparr>beforeFiles = [], afterFiles = [ex_rewrite, ex_rewrite_dir], fallback = []\<rparr>\<rparr>\<rparr>"

text \<open>A build with i18n under a base path of two segments, with a static 500 page.\<close>

definition ex_nested :: build_context where
  "ex_nested =
     ex_empty\<lparr>config := ex_config\<lparr>basePath := ''/docs/v2'', i18n := Some ex_i18n_config\<rparr>,
              build_outputs := ex_outputs\<lparr>staticFiles := [\<lparr>s_pathname = ''/docs/v2/en/500''\<rparr>]\<rparr>\<rparr>"

section \<open>Helper lemmas\<close>

subsection \<open>Phase markers\<close>

lemma operationType_always: "operationType output = ''PAGE''"
  by (simp add: operationType_def)

lemma handles_append [simp]: "handles (xs @ ys) = handles xs @ handles ys"
  by (induction xs rule: handles.induct) simp_all

lemma handles_emit [simp]: "handles (map snd (emit f rs)) = []"
  by (induction rs) (simp_all add: emit_def)

lemma handles_marker [simp]: "handles (map snd (marker h)) = [h]"
  by (simp add: marker_def)

lemma handles_localeRoutes [simp]: "handles (map snd (localeRoutes b)) = []"
  by (simp add: localeRoutes_def split: option.split)

lemma handles_literalStatusRoutes [simp]: "handles (map snd (literalStatusRoutes b)) = []"
  by (simp add: literalStatusRoutes_def split: option.split)

lemma handles_localeStripRoutes [simp]: "handles (map snd (localeStripRoutes b)) = []"
  by (simp add: localeStripRoutes_def split: option.split)

lemma handles_errorRoutes [simp]: "handles (map snd (errorRoutes b)) = []"
  by (simp add: errorRoutes_def split: option.split)

lemma handles_routes:
  "handles (vercelConfig_routes b) = [Filesystem, Resource, Miss, Rewrite, Hit, Error]"
  by (simp add: vercelConfig_routes_def routes_tagged_def)

subsection \<open>Fragments of the routes array\<close>

lemma filter_emit:
  "filter (\<lambda>p. fst p = f) (emit g rs) = (if f = g then emit g rs else [])"
  by (induction rs) (simp_all add: emit_def)

lemma filter_marker:
  "filter (\<lambda>p. fst p = f) (marker h) = (if f = PhaseMarker then marker h else [])"
  by (simp add: marker_def)

lemma sources_emit [simp]: "sources (map snd (emit f rs)) = rs"
  by (induction rs) (simp_all add: emit_def)

lemma sources_append [simp]: "sources (xs @ ys) = sources xs @ sources ys"
  by (induction xs rule: sources.induct) simp_all

lemma sources_marker [simp]: "sources (map snd (marker h)) = []"
  by (simp add: marker_def)

lemmas fragment_defs =
  emitted_by_def routes_tagged_def localeRoutes_def literalStatusRoutes_def
  localeStripRoutes_def errorRoutes_def

lemma emitted_NormalizeDataPreRedirect:
  "sources (emitted_by NormalizeDataPreRedirect b) =
     normalizeNextDataRoutes (config b) (buildId b) (shouldHandleMiddlewareDataResolving b) True"
  by (simp add: fragment_defs filter_emit filter_marker split: option.split)

lemma emitted_DenormalizeDataPreFilesystem:
  "sources (emitted_by DenormalizeDataPreFilesystem b) =
     denormalizeNextDataRoutes (config b) (buildId b) (shouldHandleMiddlewareDataResolving b) True"
  by (simp add: fragment_defs filter_emit filter_marker split: option.split)

lemma emitted_NormalizeDataPostFilesystem:
  "sources (emitted_by NormalizeDataPostFilesystem b) =
     normalizeNextDataRoutes (config b) (buildId b) (shouldHandleMiddlewareDataResolving b) False"
  by (simp add: fragment_defs filter_emit filter_marker split: option.split)

lemma emitted_DenormalizeDataPostRewrite:
  "sources (emitted_by DenormalizeDataPostRewrite b) =
     denormalizeNextDataRoutes (config b) (buildId b) (shouldHandleMiddlewareDataResolving b) False"
  by (simp add: fragment_defs filter_emit filter_marker split: option.split)

lemma override_normalize:
  "map override (normalizeNextDataRoutes cfg bid m isOverride) =
     (if m then [None, if isOverride then Some True else None,
                 if isOverride then Some True else None] else [])"
  by (simp add: normalizeNextDataRoutes_def route_src_def)

lemma override_denormalize:
  "map override (denormalizeNextDataRoutes cfg bid m isOverride) =
     (if m then [if isOverride then Some True else None,
                 if isOverride then Some True else None] else [])"
  by (simp add: denormalizeNextDataRoutes_def route_src_def)

lemma ex_middleware_resolving: "shouldHandleMiddlewareDataResolving ex_middleware"
  by (simp add: shouldHandleMiddlewareDataResolving_def hasPagesDir_def hasMiddleware_def
        ex_middleware_def ex_pages_def ex_outputs_def)

subsection \<open>The loop over the dynamic routes\<close>

lemma dynamicRoutesLoop_added: "dynamicRoutesLoop cfg g rs True = map dynamicRoute rs"
  by (induction rs) simp_all

lemma dynamicRoutesLoop_unguarded: "dynamicRoutesLoop cfg False rs a = map dynamicRoute rs"
  by (induction rs arbitrary: a) simp_all

lemma dynamicRoutesLoop_guarded:
  "list_ex (\<lambda>r. \<not> is_data_route r) rs \<Longrightarrow>
   dynamicRoutesLoop cfg True rs False =
     map dynamicRoute (takeWhile is_data_route rs) @
     nextData404Route cfg # map dynamicRoute (dropWhile is_data_route rs)"
  by (induction rs) (simp_all add: is_data_route_def dynamicRoutesLoop_added)

lemma dynamicRoutesLoop_all_data:
  "\<not> list_ex (\<lambda>r. \<not> is_data_route r) rs \<Longrightarrow>
   dynamicRoutesLoop cfg g rs False = map dynamicRoute rs"
  by (induction rs) (simp_all add: is_data_route_def)

lemma guard_shape_guard: "guard_shape (nextData404Route cfg)"
  by (simp add: guard_shape_def nextData404Route_def route_src_def)

lemma guard_shape_dynamicRoute: "\<not> guard_shape (dynamicRoute r)"
  by (simp add: guard_shape_def dynamicRoute_def route_src_def)

lemma filter_guard_dynamic: "filter guard_shape (map dynamicRoute rs) = []"
  by (induction rs) (simp_all add: guard_shape_dynamicRoute)

lemma filter_guard_dynamicRoutesOut:
  "filter guard_shape (dynamicRoutesOut b) =
     (if hasPagesDir b \<and> \<not> hasMiddleware b \<and>
         list_ex (\<lambda>r. \<not> is_data_route r) (dynamicRoutes (routes b))
      then [nextData404Route (config b)] else [])"
proof (cases "hasPagesDir b \<and> \<not> hasMiddleware b")
  case True
  then show ?thesis
    by (cases "list_ex (\<lambda>r. \<not> is_data_route r) (dynamicRoutes (routes b))")
       (simp_all add: dynamicRoutesOut_def dynamicRoutesLoop_guarded
          dynamicRoutesLoop_all_data filter_guard_dynamic guard_shape_guard)
next
  case False
  then have "(hasPagesDir b \<and> \<not> hasMiddleware b) = False" by simp
  then have "filter guard_shape (dynamicRoutesOut b) = []"
    by (simp only: dynamicRoutesOut_def dynamicRoutesLoop_unguarded filter_guard_dynamic)
  with False show ?thesis by auto
qed

subsection \<open>No other route has the shape of the 404 guard\<close>

lemma status_modifyRewrite: "status (modifyRewrite a p s r) = status r"
  by (simp add: modifyRewrite_def Let_def split: option.split)

lemma filter_guard_map: "(\<And>x. \<not> guard_shape (f x)) \<Longrightarrow> filter guard_shape (map f xs) = []"
  by (induction xs) simp_all

lemma guard_priorityRedirects: "filter guard_shape (priorityRedirects b) = []"
  unfolding priorityRedirects_def
  by (rule filter_guard_map) (simp add: guard_shape_def redirectRoute_def route_src_def)

lemma guard_redirectRoutes: "filter guard_shape (redirectRoutes b) = []"
  unfolding redirectRoutes_def
  by (rule filter_guard_map) (simp add: guard_shape_def redirectRoute_def route_src_def)

lemma guard_headerRoutes: "filter guard_shape (headerRoutes b) = []"
  unfolding headerRoutes_def
  by (rule filter_guard_map) (simp add: guard_shape_def route_src_def)

lemma guard_middlewareRoutes: "filter guard_shape (middlewareRoutes b) = []"
  unfolding middlewareRoutes_def handleMiddleware_def
  by (cases "middleware (build_outputs b)")
     (simp_all add: filter_guard_map guard_shape_def route_src_def)

lemma guard_normalizeItem: "\<not> guard_shape (normalizeItem item)"
  by (simp add: guard_shape_def normalizeItem_def route_src_def)

lemma guard_modify_normalizeItem: "\<not> guard_shape (modifyRewrite a p s (normalizeItem item))"
  by (simp add: guard_shape_def status_modifyRewrite normalizeItem_def route_src_def)

lemma guard_convertedRewrites:
  "filter guard_shape (beforeFiles (convertedRewrites b)) = []"
  "filter guard_shape (afterFiles (convertedRewrites b)) = []"
  "filter guard_shape (fallback (convertedRewrites b)) = []"
  by (simp_all add: convertedRewrites_def Let_def normalizeRewrites_def
        modifyWithRewriteHeaders_def filter_guard_map guard_shape_def status_modifyRewrite
        normalizeItem_def route_src_def)

lemma guard_data_routes:
  "filter guard_shape (normalizeNextDataRoutes cfg bid m ov) = []"
  "filter guard_shape (denormalizeNextDataRoutes cfg bid m ov) = []"
  by (simp_all add: normalizeNextDataRoutes_def denormalizeNextDataRoutes_def guard_shape_def
        route_src_def)

lemma guard_generated:
  "filter guard_shape (localeWildcard cfg c) = []"
  "filter guard_shape (localeDomainRedirect cfg c) = []"
  "filter guard_shape (localePathRedirectRoute c) = []"
  "filter guard_shape (defaultLocaleRewrite cfg c (\<lambda>r. r\<lparr>continue := Some True\<rparr>)) = []"
  "filter guard_shape (defaultLocaleRewrite cfg c (\<lambda>r. r\<lparr>check := Some True\<rparr>)) = []"
  "filter guard_shape (literal404 cfg) = []"
  "filter guard_shape (literal500 cfg) = []"
  "filter guard_shape (appRsc cfg) = []"
  "filter guard_shape (nextImage cfg) = []"
  "filter guard_shape (nextDataNoop cfg) = []"
  "filter guard_shape (indexRsc cfg) = []"
  "filter guard_shape (rscRepair cfg) = []"
  "filter guard_shape (directory404 cfg) = []"
  "filter guard_shape (static404 cfg) = []"
  "filter guard_shape (localeStrip cfg c) = []"
  "filter guard_shape (segmentPrefetch p) = []"
  "filter guard_shape (middlewareData cfg bid) = []"
  "filter guard_shape (staticCache cfg bid) = []"
  "filter guard_shape (matchedPath cfg) = []"
  "filter guard_shape (notFoundLocale cfg c nfp) = []"
  "filter guard_shape (notFoundPlain cfg nfp) = []"
  "filter guard_shape (serverErrorLocale cfg c) = []"
  "filter guard_shape (serverErrorPlain cfg h) = []"
  by (simp_all add: guard_shape_def route_src_def localeWildcard_def
        localeDomainRedirect_def localePathRedirectRoute_def defaultLocaleRewrite_def
        literal404_def literal500_def appRsc_def nextImage_def nextDataNoop_def
        indexRsc_def rscRepair_def directory404_def static404_def localeStrip_def
        segmentPrefetch_def middlewareData_def staticCache_def matchedPath_def
        notFoundLocale_def notFoundPlain_def serverErrorLocale_def serverErrorPlain_def
        split: option.split)

lemma filter_guard_routes:
  "filter guard_shape (sources (vercelConfig_routes b)) = filter guard_shape (dynamicRoutesOut b)"
  by (simp add: vercelConfig_routes_def routes_tagged_def localeRoutes_def
        literalStatusRoutes_def localeStripRoutes_def errorRoutes_def
        guard_priorityRedirects guard_redirectRoutes guard_headerRoutes
        guard_middlewareRoutes guard_convertedRewrites guard_data_routes guard_generated
        split: option.split)

lemma count_list_filter: "P x \<Longrightarrow> count_list (filter P xs) x = count_list xs x"
  by (induction xs) auto

lemma count_guard:
  "count_list (sources (vercelConfig_routes b)) (nextData404Route (config b)) =
     (if hasPagesDir b \<and> \<not> hasMiddleware b \<and>
         list_ex (\<lambda>r. \<not> is_data_route r) (dynamicRoutes (routes b))
      then 1 else 0)"
proof -
  have "count_list (sources (vercelConfig_routes b)) (nextData404Route (config b)) =
        count_list (filter guard_shape (sources (vercelConfig_routes b)))
          (nextData404Route (config b))"
    by (simp add: count_list_filter guard_shape_guard)
  then show ?thesis
    by (simp add: filter_guard_routes filter_guard_dynamicRoutesOut)
qed

subsection \<open>Where the dynamic routes stand in the array\<close>

lemma around_here: "\<exists>pre post. emit DynamicRoutes rs @ ys = pre @ emit DynamicRoutes rs @ post"
  by (rule exI [of _ "[]"]) simp

lemma around_later:
  "\<exists>pre post. ys = pre @ m @ post \<Longrightarrow> \<exists>pre post. x @ ys = pre @ m @ post"
proof -
  assume "\<exists>pre post. ys = pre @ m @ post"
  then obtain pre post where "ys = pre @ m @ post" by blast
  then have "x @ ys = (x @ pre) @ m @ post" by simp
  then show ?thesis by blast
qed

lemma dynamic_routes_in_array:
  "\<exists>pre post. routes_tagged b = pre @ emit DynamicRoutes (dynamicRoutesOut b) @ post"
  unfolding routes_tagged_def
  by (rule around_here | rule around_later)+

lemma dynamic_routes_in_routes:
  "\<exists>pre post. vercelConfig_routes b = pre @ map RouteWithSrc (dynamicRoutesOut b) @ post"
proof -
  obtain pre post where "routes_tagged b = pre @ emit DynamicRoutes (dynamicRoutesOut b) @ post"
    using dynamic_routes_in_array by blast
  then have "vercelConfig_routes b =
      map snd pre @ map RouteWithSrc (dynamicRoutesOut b) @ map snd post"
    by (simp add: vercelConfig_routes_def emit_def o_def)
  then show ?thesis by blast
qed

subsection \<open>The errors of the build\<close>

lemma fallback_loop_missing:
  "list_ex (\<lambda>p. p_fallbackFalse p \<and> \<not> str_includes (p_pathname p) ''_next/data'' \<and>
                 \<not> endsWith (p_pathname p) ''.rsc'' \<and> parents (p_parentOutputId p) = None) ps \<Longrightarrow>
   \<exists>e. prerenderFallbackFalseLoop cfg parents ps m = Inl e"
proof (induction ps arbitrary: m)
  case Nil
  then show ?case by simp
next
  case (Cons p ps)
  then show ?case
    by (auto simp: Let_def split: option.split)
qed

lemma fallback_loop_ok:
  "list_all (\<lambda>p. parents (p_parentOutputId p) \<noteq> None) ps \<Longrightarrow>
   (\<And>k out. parents k = Some out \<Longrightarrow>
      substringFrom (o_pathname out) (length (basePath cfg)) \<notin> set object_prototype_keys) \<Longrightarrow>
   \<exists>m'. prerenderFallbackFalseLoop cfg parents ps m = Inr m'"
proof (induction ps arbitrary: m)
  case Nil
  then show ?case by simp
next
  case (Cons p ps)
  then show ?case
    by (auto simp: Let_def split: option.split)
qed

lemma fallback_loop_error_kind:
  "prerenderFallbackFalseLoop cfg parents ps m = Inl e \<Longrightarrow>
   (\<And>k out. parents k = Some out \<Longrightarrow>
      substringFrom (o_pathname out) (length (basePath cfg)) \<notin> set object_prototype_keys) \<Longrightarrow>
   \<exists>p \<in> set ps. e = MissingParentOutput (p_parentOutputId p) \<and>
      parents (p_parentOutputId p) = None"
proof (induction ps arbitrary: m)
  case Nil
  then show ?case by simp
next
  case (Cons p ps)
  then show ?case
    by (auto simp: Let_def split: option.splits if_splits)
qed

lemma parent_map_lookup:
  "foldl (\<lambda>m output. if o_runtime output = Nodejs then m(o_id output \<mapsto> output) else m)
     m0 outs k = Some out \<Longrightarrow>
   m0 k = Some out \<or> (out \<in> set outs \<and> o_runtime out = Nodejs)"
proof (induction outs arbitrary: m0)
  case Nil
  then show ?case by simp
next
  case (Cons a outs)
  show ?case
  proof (cases "o_runtime a = Nodejs")
    case True
    with Cons.prems have "foldl (\<lambda>m output. if o_runtime output = Nodejs
        then m(o_id output \<mapsto> output) else m) (m0(o_id a \<mapsto> a)) outs k = Some out"
      by simp
    from Cons.IH [OF this]
    have "(m0(o_id a \<mapsto> a)) k = Some out \<or> (out \<in> set outs \<and> o_runtime out = Nodejs)" .
    with True show ?thesis by (auto split: if_splits)
  next
    case False
    with Cons.prems have "foldl (\<lambda>m output. if o_runtime output = Nodejs
        then m(o_id output \<mapsto> output) else m) m0 outs k = Some out"
      by simp
    from Cons.IH [OF this] show ?thesis by auto
  qed
qed

lemma nodeOutputsParentMap_lookup:
  "nodeOutputsParentMap b k = Some out \<Longrightarrow>
   out \<in> set (function_outputs b) \<and> o_runtime out = Nodejs"
  using parent_map_lookup [of Map.empty "function_outputs b" k out]
  by (simp add: nodeOutputsParentMap_def)

subsection \<open>The last argument of a join\<close>

lemma endsWith_append [simp]: "endsWith (p @ s) s"
  by (simp add: endsWith_def)

lemma join_with_Cons: "join_with sep (x # xs) = x @ (if xs = [] then [] else sep @ join_with sep xs)"
  by (cases xs) simp_all

lemma join_with_snoc:
  "join_with sep (xs @ [y]) = (if xs = [] then y else join_with sep xs @ sep @ y)"
  by (induction sep xs rule: join_with.induct) simp_all

lemma split_slash_not_Nil [simp]: "split_slash xs \<noteq> []"
  by (induction xs) (simp_all add: Let_def)

lemma split_slash_plain: "CHR ''/'' \<notin> set seg \<Longrightarrow> split_slash seg = [seg]"
  by (induction seg) (auto simp: Let_def)

lemma split_slash_snoc:
  "CHR ''/'' \<notin> set seg \<Longrightarrow> split_slash (xs @ CHR ''/'' # seg) = split_slash xs @ [seg]"
  by (induction xs) (simp_all add: Let_def split_slash_plain)

lemma posix_normalize_last:
  assumes seg: "seg \<noteq> []" "CHR ''/'' \<notin> set seg" "seg \<noteq> ''.''" "seg \<noteq> ''..''"
    and pre: "pre \<noteq> []" "hd pre = CHR ''/''"
  shows "\<exists>p. posix_normalize (pre @ CHR ''/'' # seg) = p @ CHR ''/'' # seg"
proof -
  let ?path = "pre @ CHR ''/'' # seg"
  let ?res = "foldl (push_segment False) [] (split_slash pre)"
  have "foldl (push_segment False) [] (split_slash ?path) = ?res @ [seg]"
    using seg by (simp add: split_slash_snoc push_segment_def)
  then have norm: "normalizeString ?path False =
      (if ?res = [] then seg else join_with ''/'' ?res @ ''/'' @ seg)"
    by (simp add: normalizeString_def join_with_snoc)
  have last: "last ?path \<noteq> CHR ''/''"
    using seg by (cases seg rule: rev_cases) auto
  have hd: "hd ?path = CHR ''/''"
    using pre by simp
  show ?thesis
  proof (cases "?res = []")
    case True
    with norm last hd seg have "posix_normalize ?path = [] @ CHR ''/'' # seg"
      by (simp add: posix_normalize_def Let_def)
    then show ?thesis by blast
  next
    case False
    with norm last hd seg
    have "posix_normalize ?path = (CHR ''/'' # join_with ''/'' ?res) @ CHR ''/'' # seg"
      by (simp add: posix_normalize_def Let_def)
    then show ?thesis by blast
  qed
qed

lemma posix_join_last:
  assumes seg: "seg \<noteq> []" "CHR ''/'' \<notin> set seg" "seg \<noteq> ''.''" "seg \<noteq> ''..''"
  shows "endsWith (posix_join (''/'' # args @ [CHR ''/'' # seg])) (CHR ''/'' # seg)"
proof -
  let ?A = "filter (\<lambda>a. a \<noteq> []) args"
  have "join_with ''/'' (''/'' # ?A @ [CHR ''/'' # seg]) =
        join_with ''/'' (''/'' # ?A) @ ''/'' @ CHR ''/'' # seg"
    using join_with_snoc [of "''/''" "''/'' # ?A" "CHR ''/'' # seg"] by simp
  moreover have "\<exists>r. join_with ''/'' (''/'' # ?A) = CHR ''/'' # r"
    by (simp add: join_with_Cons)
  ultimately obtain r where j:
    "join_with ''/'' (''/'' # ?A @ [CHR ''/'' # seg]) = (CHR ''/'' # r @ ''/'') @ CHR ''/'' # seg"
    by auto
  obtain p where
    "posix_normalize ((CHR ''/'' # r @ ''/'') @ CHR ''/'' # seg) = p @ CHR ''/'' # seg"
    using posix_normalize_last [OF seg, of "CHR ''/'' # r @ ''/''"] by auto
  with j show ?thesis
    by (simp add: posix_join_def)
qed

lemma posix_join_notFoundPath:
  "endsWith (posix_join (''/'' # args @ [notFoundPath b])) (notFoundPath b)"
  by (simp add: notFoundPath_def posix_join_last)

subsection \<open>The routes after the error marker\<close>

lemma after_marker_skip:
  "handles xs = [] \<Longrightarrow> after_marker h (xs @ ys) = after_marker h ys"
  by (induction xs rule: handles.induct) simp_all

lemma after_marker_other:
  "h' \<noteq> h \<Longrightarrow> after_marker h (map snd (marker h') @ ys) = after_marker h ys"
  by (simp add: marker_def)

lemma after_marker_here: "after_marker h (map snd (marker h) @ ys) = ys"
  by (simp add: marker_def)

lemma after_error:
  "after_marker Error (vercelConfig_routes b) = map snd (errorRoutes b)"
  by (simp add: vercelConfig_routes_def routes_tagged_def after_marker_skip
        after_marker_other after_marker_here)

lemma error_phase_404:
  "filter (\<lambda>r. status r = Some 404) (sources (after_marker Error (vercelConfig_routes b))) =
     (case i18n (config b) of
        None \<Rightarrow> notFoundPlain (config b) (notFoundPath b)
      | Some c \<Rightarrow> notFoundLocale (config b) c (notFoundPath b))"
  by (simp add: after_error errorRoutes_def notFoundPlain_def notFoundLocale_def
        serverErrorLocale_def serverErrorPlain_def route_src_def split: option.split)

subsection \<open>Rewrites\<close>

lemma src_modifyRewrite_other: "src (modifyRewrite False p s r) = src r"
  by (simp add: modifyRewrite_def Let_def split: option.split)

lemma dest_modifyRewrite_other: "dest (modifyRewrite False p s r) = dest r"
  by (simp add: modifyRewrite_def Let_def split: option.split)

lemma src_modifyRewrite_after:
  "src r \<noteq> [] \<Longrightarrow> dest r = Some d \<Longrightarrow> d \<noteq> [] \<Longrightarrow>
   src (modifyRewrite True p s r) =
     replaceTrailingSlash (src r) (''(?:/)?(?<rscsuff>'' @ rscSuffix p s @ '')?'')"
  by (simp add: modifyRewrite_def Let_def)

lemma dest_modifyRewrite_after:
  "src r \<noteq> [] \<Longrightarrow> dest r = Some d \<Longrightarrow> d \<noteq> [] \<Longrightarrow>
   dest (modifyRewrite True p s r) = Some (addRscSuffix d)"
  by (simp add: modifyRewrite_def Let_def)

lemma endsWith_iff: "endsWith s t = (\<exists>p. s = p @ t)"
proof
  assume "endsWith s t"
  then have "s = take (length s - length t) s @ t"
    by (metis append_take_drop_id endsWith_def)
  then show "\<exists>p. s = p @ t" ..
next
  assume "\<exists>p. s = p @ t"
  then show "endsWith s t" by (auto simp: endsWith_def)
qed

lemma length_optionalTrailingSlash: "length optionalTrailingSlash = 8"
  by (simp add: optionalTrailingSlash_def)

lemma replaceTrailingSlash_suffix:
  assumes "endsWith s optionalTrailingSlash"
  shows "\<exists>p. (s = p @ optionalTrailingSlash \<or> s = p @ BS # ''/'' @ optionalTrailingSlash \<or>
              s = p @ BS # ''/?'' @ optionalTrailingSlash) \<and>
             replaceTrailingSlash s repl = p @ repl"
proof (cases "endsWith s (BS # ''/?'' @ optionalTrailingSlash)")
  case True
  then obtain p where p: "s = p @ BS # ''/?'' @ optionalTrailingSlash"
    using endsWith_iff by blast
  then have "replaceTrailingSlash s repl = p @ repl"
    using True by (simp add: replaceTrailingSlash_def length_optionalTrailingSlash)
  with p show ?thesis by blast
next
  case F1: False
  show ?thesis
  proof (cases "endsWith s (BS # ''/'' @ optionalTrailingSlash)")
    case True
    then obtain p where p: "s = p @ BS # ''/'' @ optionalTrailingSlash"
      using endsWith_iff by blast
    then have "replaceTrailingSlash s repl = p @ repl"
      using True F1 by (simp add: replaceTrailingSlash_def length_optionalTrailingSlash)
    with p show ?thesis by blast
  next
    case F2: False
    from assms obtain p where p: "s = p @ optionalTrailingSlash"
      using endsWith_iff by blast
    then have "replaceTrailingSlash s repl = p @ repl"
      using assms F1 F2 by (simp add: replaceTrailingSlash_def length_optionalTrailingSlash)
    with p show ?thesis by blast
  qed
qed

lemma indexOf_None: "c \<notin> set s \<Longrightarrow> indexOf s c = None"
  by (induction s) auto

lemma indexOf_first: "c \<notin> set p \<Longrightarrow> indexOf (p @ c # q) c = Some (length p)"
  by (induction p) auto

lemma addRscSuffix_query:
  "CHR ''?'' \<notin> set path \<Longrightarrow>
   addRscSuffix (path @ CHR ''?'' # q) = path @ ''$rscsuff'' @ CHR ''?'' # q"
  by (simp add: addRscSuffix_def indexOf_first substring_def substringFrom_def)

lemma addRscSuffix_plain: "CHR ''?'' \<notin> set d \<Longrightarrow> addRscSuffix d = d @ ''$rscsuff''"
  by (simp add: addRscSuffix_def indexOf_None)

lemma rscSuffix_alternatives:
  "rscSuffix pf sg =
     BS # ''.rsc'' @
     (if pf then ''|'' @ BS # ''.prefetch'' @ BS # ''.rsc'' else []) @
     (if sg then ''|'' @ BS # ''.segments/.+'' @ BS # ''.segment'' @ BS # ''.rsc'' else [])"
  by (simp add: rscSuffix_def)

lemma converted_beforeFiles:
  "map src (beforeFiles (convertedRewrites b)) =
     map rw_sourceRegex (beforeFiles (routes_rewrites (routes b)))"
  "map dest (beforeFiles (convertedRewrites b)) =
     map (\<lambda>item. Some (rw_destination item)) (beforeFiles (routes_rewrites (routes b)))"
  by (simp_all add: convertedRewrites_def Let_def normalizeRewrites_def
        modifyWithRewriteHeaders_def src_modifyRewrite_other dest_modifyRewrite_other
        normalizeItem_def route_src_def o_def)

lemma converted_fallback:
  "map src (fallback (convertedRewrites b)) =
     map rw_sourceRegex (fallback (routes_rewrites (routes b)))"
  "map dest (fallback (convertedRewrites b)) =
     map (\<lambda>item. Some (rw_destination item)) (fallback (routes_rewrites (routes b)))"
  by (simp_all add: convertedRewrites_def Let_def normalizeRewrites_def
        modifyWithRewriteHeaders_def src_modifyRewrite_other dest_modifyRewrite_other
        normalizeItem_def route_src_def o_def)

lemma converted_afterFiles:
  "shouldHandlePrefetchRsc b \<or> shouldHandleSegmentPrefetches b \<Longrightarrow>
   afterFiles (convertedRewrites b) =
     map (\<lambda>item. modifyRewrite True (shouldHandlePrefetchRsc b)
                    (shouldHandleSegmentPrefetches b) (normalizeItem item))
       (afterFiles (routes_rewrites (routes b)))"
  by (simp add: convertedRewrites_def Let_def normalizeRewrites_def
        modifyWithRewriteHeaders_def o_def)

lemma src_normalizeItem [simp]: "src (normalizeItem item) = rw_sourceRegex item"
  by (simp add: normalizeItem_def route_src_def)

lemma dest_normalizeItem [simp]: "dest (normalizeItem item) = Some (rw_destination item)"
  by (simp add: normalizeItem_def route_src_def)

subsection \<open>The fragments of i18n\<close>

lemma emitted_without_i18n:
  "i18n (config b) = None \<Longrightarrow> list_all (\<lambda>f. emitted_by f b = []) locale_fragments"
  by (simp add: locale_fragments_def fragment_defs filter_emit filter_marker)

lemma emitted_with_i18n:
  assumes "i18n (config b) = Some c"
  shows "sources (emitted_by LocaleWildcard b) = localeWildcard (config b) c"
    and "sources (emitted_by LocaleDomainRedirect b) = localeDomainRedirect (config b) c"
    and "sources (emitted_by LocalePathRedirect b) = localePathRedirectRoute c"
    and "sources (emitted_by DefaultLocaleRewrite b) =
           defaultLocaleRewrite (config b) c (\<lambda>r. r\<lparr>continue := Some True\<rparr>)"
    and "sources (emitted_by Literal404Locale b) = literal404 (config b)"
    and "sources (emitted_by Literal500Locale b) = literal500 (config b)"
    and "sources (emitted_by DefaultLocaleFallback b) =
           (if localeDetection c = Some False
            then defaultLocaleRewrite (config b) c (\<lambda>r. r\<lparr>check := Some True\<rparr>) else [])"
    and "sources (emitted_by LocaleStrip b) = localeStrip (config b) c"
    and "sources (emitted_by NotFoundLocale b) = notFoundLocale (config b) c (notFoundPath b)"
    and "sources (emitted_by ServerErrorLocale b) =
           (if has500Output b then serverErrorLocale (config b) c else [])"
    and "emitted_by Literal404 b = []"
    and "emitted_by Literal500 b = []"
    and "emitted_by NotFound b = []"
  using assms by (simp_all add: fragment_defs filter_emit filter_marker)

lemma length_sources_emitted: "length (emitted_by f b) = length (sources (emitted_by f b)) \<or>
    f = PhaseMarker"
proof (cases "f = PhaseMarker")
  case True
  then show ?thesis by simp
next
  case False
  have "handles (emitted_by f b) = []"
    using False
    by (simp add: fragment_defs filter_emit filter_marker split: option.split)
  moreover have "length xs = length (sources xs) + length (handles xs)" for xs
    by (induction xs rule: handles.induct) simp_all
  ultimately show ?thesis by simp
qed

lemma locale_modifyRewrite: "locale' (modifyRewrite a p s r) = locale' r"
  by (simp add: modifyRewrite_def Let_def split: option.split)

lemma filter_map_none: "(\<And>x. \<not> P (f x)) \<Longrightarrow> filter P (map f xs) = []"
  by (induction xs) simp_all

lemma no_locale_user_routes:
  "filter locale_rule (priorityRedirects b) = []"
  "filter locale_rule (redirectRoutes b) = []"
  "filter locale_rule (headerRoutes b) = []"
  "filter locale_rule (middlewareRoutes b) = []"
  "filter locale_rule (dynamicRoutesOut b) = []"
proof -
  show "filter locale_rule (priorityRedirects b) = []"
    unfolding priorityRedirects_def
    by (rule filter_map_none) (simp add: locale_rule_def redirectRoute_def route_src_def)
  show "filter locale_rule (redirectRoutes b) = []"
    unfolding redirectRoutes_def
    by (rule filter_map_none) (simp add: locale_rule_def redirectRoute_def route_src_def)
  show "filter locale_rule (headerRoutes b) = []"
    unfolding headerRoutes_def
    by (rule filter_map_none) (simp add: locale_rule_def route_src_def)
  show "filter locale_rule (middlewareRoutes b) = []"
    unfolding middlewareRoutes_def handleMiddleware_def
    by (cases "middleware (build_outputs b)") (simp_all add: filter_map_none locale_rule_def route_src_def)
  have "filter locale_rule (dynamicRoutesLoop cfg g rs a) = []" for cfg g rs a
    by (induction rs arbitrary: a g)
       (simp_all add: locale_rule_def dynamicRoute_def nextData404Route_def route_src_def)
  then show "filter locale_rule (dynamicRoutesOut b) = []"
    by (simp add: dynamicRoutesOut_def)
qed

lemma no_locale_convertedRewrites:
  "filter locale_rule (beforeFiles (convertedRewrites b)) = []"
  "filter locale_rule (afterFiles (convertedRewrites b)) = []"
  "filter locale_rule (fallback (convertedRewrites b)) = []"
  by (simp_all add: convertedRewrites_def Let_def normalizeRewrites_def
        modifyWithRewriteHeaders_def filter_map_none locale_modifyRewrite
        locale_rule_def normalizeItem_def route_src_def)

lemma no_locale_generated:
  "filter locale_rule (normalizeNextDataRoutes cfg bid m ov) = []"
  "filter locale_rule (denormalizeNextDataRoutes cfg bid m ov) = []"
  "filter locale_rule (localeWildcard cfg c) = []"
  "filter locale_rule (defaultLocaleRewrite cfg c (\<lambda>r. r\<lparr>continue := Some True\<rparr>)) = []"
  "filter locale_rule (defaultLocaleRewrite cfg c (\<lambda>r. r\<lparr>check := Some True\<rparr>)) = []"
  "filter locale_rule (literal404 cfg) = []"
  "filter locale_rule (literal500 cfg) = []"
  "filter locale_rule (appRsc cfg) = []"
  "filter locale_rule (nextImage cfg) = []"
  "filter locale_rule (nextDataNoop cfg) = []"
  "filter locale_rule (indexRsc cfg) = []"
  "filter locale_rule (rscRepair cfg) = []"
  "filter locale_rule (directory404 cfg) = []"
  "filter locale_rule (static404 cfg) = []"
  "filter locale_rule (localeStrip cfg c) = []"
  "filter locale_rule (segmentPrefetch p) = []"
  "filter locale_rule (middlewareData cfg bid) = []"
  "filter locale_rule (staticCache cfg bid) = []"
  "filter locale_rule (matchedPath cfg) = []"
  "filter locale_rule (notFoundLocale cfg c nfp) = []"
  "filter locale_rule (notFoundPlain cfg nfp) = []"
  "filter locale_rule (serverErrorLocale cfg c) = []"
  "filter locale_rule (serverErrorPlain cfg h) = []"
  by (simp_all add: normalizeNextDataRoutes_def denormalizeNextDataRoutes_def
        locale_rule_def route_src_def localeWildcard_def defaultLocaleRewrite_def
        literal404_def literal500_def appRsc_def nextImage_def nextDataNoop_def
        indexRsc_def rscRepair_def directory404_def static404_def localeStrip_def
        segmentPrefetch_def middlewareData_def staticCache_def matchedPath_def
        notFoundLocale_def notFoundPlain_def serverErrorLocale_def serverErrorPlain_def)

lemma locale_redirect_routes:
  "filter locale_rule (sources (vercelConfig_routes b)) =
     (case i18n (config b) of
        None \<Rightarrow> []
      | Some c \<Rightarrow> localeDomainRedirect (config b) c @ localePathRedirectRoute c)"
  by (simp add: vercelConfig_routes_def routes_tagged_def localeRoutes_def
        literalStatusRoutes_def localeStripRoutes_def errorRoutes_def
        no_locale_user_routes no_locale_convertedRewrites no_locale_generated
        localeDomainRedirect_def localePathRedirectRoute_def locale_rule_def route_src_def
        split: option.split)

subsection \<open>Escaping\<close>

lemma escapeInline_eq:
  "CHR ''-'' \<notin> set l \<Longrightarrow> escapeInline l = escapeStringRegexp l"
proof (induction l)
  case Nil
  then show ?case by (simp add: escapeInline_def escapeStringRegexp_def)
next
  case (Cons c l)
  then have "(c \<in> set inlineOperators) = (c \<in> set matchOperators)"
    by (auto simp: inlineOperators_def matchOperators_def)
  with Cons show ?case
    by (simp add: escapeInline_def escapeStringRegexp_def)
qed

lemma emitted_Directory404: "sources (emitted_by Directory404 b) = directory404 (config b)"
  by (simp add: fragment_defs filter_emit filter_marker split: option.split)

subsection \<open>What the replacement of the trailing slash removes\<close>

lemma replaceTrailingSlash_optional_slash:
  "replaceTrailingSlash (p @ BS # ''/?'' @ optionalTrailingSlash) repl = p @ repl"
  by (simp add: replaceTrailingSlash_def length_optionalTrailingSlash endsWith_def)

lemma replaceTrailingSlash_slash:
  "replaceTrailingSlash (p @ BS # ''/'' @ optionalTrailingSlash) repl = p @ repl"
proof -
  have "\<not> endsWith (p @ BS # ''/'' @ optionalTrailingSlash) (BS # ''/?'' @ optionalTrailingSlash)"
  proof
    assume "endsWith (p @ BS # ''/'' @ optionalTrailingSlash) (BS # ''/?'' @ optionalTrailingSlash)"
    then obtain q where "p @ BS # ''/'' @ optionalTrailingSlash =
        q @ BS # ''/?'' @ optionalTrailingSlash"
      using endsWith_iff by blast
    then have "(p @ [BS]) @ CHR ''/'' # optionalTrailingSlash =
        (q @ [BS, CHR ''/'']) @ CHR ''?'' # optionalTrailingSlash"
      by simp
    moreover have "length (CHR ''/'' # optionalTrailingSlash) =
        length (CHR ''?'' # optionalTrailingSlash)"
      by simp
    ultimately have "CHR ''/'' # optionalTrailingSlash = CHR ''?'' # optionalTrailingSlash"
      using append_eq_append_conv by blast
    then show False by simp
  qed
  then show ?thesis
    by (simp add: replaceTrailingSlash_def length_optionalTrailingSlash endsWith_def)
qed

lemma replaceTrailingSlash_bare:
  assumes "\<not> endsWith p (BS # ''/?'')" "\<not> endsWith p (BS # ''/'')"
  shows "replaceTrailingSlash (p @ optionalTrailingSlash) repl = p @ repl"
proof -
  have a: "\<not> endsWith (p @ optionalTrailingSlash) (BS # ''/?'' @ optionalTrailingSlash)"
  proof
    assume "endsWith (p @ optionalTrailingSlash) (BS # ''/?'' @ optionalTrailingSlash)"
    then obtain q where "p @ optionalTrailingSlash = (q @ BS # ''/?'') @ optionalTrailingSlash"
      using endsWith_iff by auto
    then have "p = q @ BS # ''/?''" by simp
    with assms(1) show False by (simp add: endsWith_iff)
  qed
  have b: "\<not> endsWith (p @ optionalTrailingSlash) (BS # ''/'' @ optionalTrailingSlash)"
  proof
    assume "endsWith (p @ optionalTrailingSlash) (BS # ''/'' @ optionalTrailingSlash)"
    then obtain q where "p @ optionalTrailingSlash = (q @ BS # ''/'') @ optionalTrailingSlash"
      using endsWith_iff by auto
    then have "p = q @ BS # ''/''" by simp
    with assms(2) show False by (simp add: endsWith_iff)
  qed
  have c: "endsWith (p @ optionalTrailingSlash) optionalTrailingSlash"
    by simp
  show ?thesis
    using a b c by (simp add: replaceTrailingSlash_def length_optionalTrailingSlash)
qed

lemma replaceTrailingSlash_cases:
  "s = p @ BS # ''/?'' @ optionalTrailingSlash \<or>
   s = p @ BS # ''/'' @ optionalTrailingSlash \<or>
   s = p @ optionalTrailingSlash \<and> \<not> endsWith p (BS # ''/?'') \<and> \<not> endsWith p (BS # ''/'') \<Longrightarrow>
   replaceTrailingSlash s repl = p @ repl"
  using replaceTrailingSlash_optional_slash replaceTrailingSlash_slash replaceTrailingSlash_bare
  by blast

lemma trailing_slash_decomposition:
  assumes "endsWith s optionalTrailingSlash"
  shows "\<exists>p. s = p @ BS # ''/?'' @ optionalTrailingSlash \<or>
             s = p @ BS # ''/'' @ optionalTrailingSlash \<or>
             s = p @ optionalTrailingSlash \<and> \<not> endsWith p (BS # ''/?'') \<and>
             \<not> endsWith p (BS # ''/'')"
proof -
  from assms obtain q where q: "s = q @ optionalTrailingSlash"
    using endsWith_iff by blast
  show ?thesis
  proof (cases "endsWith q (BS # ''/?'')")
    case True
    then obtain p where "q = p @ BS # ''/?''" using endsWith_iff by blast
    with q have "s = p @ BS # ''/?'' @ optionalTrailingSlash" by simp
    then show ?thesis by blast
  next
    case F1: False
    show ?thesis
    proof (cases "endsWith q (BS # ''/'')")
      case True
      then obtain p where "q = p @ BS # ''/''" using endsWith_iff by blast
      with q have "s = p @ BS # ''/'' @ optionalTrailingSlash" by simp
      then show ?thesis by blast
    next
      case False
      with F1 q show ?thesis by blast
    qed
  qed
qed

subsection \<open>Reading escaped text back\<close>

lemma literal_pattern_plain:
  "c \<notin> set syntaxCharacters \<Longrightarrow>
   literal_pattern (c # cs) = map_option ((#) c) (literal_pattern cs)"
  by (cases cs) (auto simp: syntaxCharacters_def)

lemma literal_pattern_identity:
  "d \<notin> set wordCharacters \<Longrightarrow>
   literal_pattern (BS # d # cs) = map_option ((#) d) (literal_pattern cs)"
  by simp

lemma matchOperators_classes:
  "set syntaxCharacters \<subseteq> set matchOperators"
  "set matchOperators \<inter> set wordCharacters = {}"
  by (auto simp: syntaxCharacters_def matchOperators_def wordCharacters_def)

lemma inlineOperators_classes:
  "set syntaxCharacters \<subseteq> set inlineOperators"
  "set inlineOperators \<inter> set wordCharacters = {}"
  by (auto simp: syntaxCharacters_def inlineOperators_def wordCharacters_def)

lemma literal_pattern_escaped_class:
  assumes "set syntaxCharacters \<subseteq> K" and "K \<inter> set wordCharacters = {}"
  shows "literal_pattern (concat (map (\<lambda>c. if c \<in> K then [BS, c] else [c]) s) @ rest) =
         map_option ((@) s) (literal_pattern rest)"
proof (induction s)
  case Nil
  show ?case by (simp add: option.map_ident)
next
  case (Cons c s)
  show ?case
  proof (cases "c \<in> K")
    case True
    with assms(2) have "c \<notin> set wordCharacters" by auto
    with True Cons show ?thesis
      by (simp add: option.map_comp comp_def)
  next
    case False
    with assms(1) have "c \<notin> set syntaxCharacters" by auto
    with False Cons show ?thesis
      by (simp add: literal_pattern_plain option.map_comp comp_def)
  qed
qed

lemma literal_pattern_escapeStringRegexp:
  "literal_pattern (escapeStringRegexp s) = Some s"
  using literal_pattern_escaped_class [OF matchOperators_classes, of s "[]"]
  by (simp add: escapeStringRegexp_def)

lemma literal_pattern_escapeInline:
  "literal_pattern (escapeInline s) = Some s"
  using literal_pattern_escaped_class [OF inlineOperators_classes, of s "[]"]
  by (simp add: escapeInline_def)

lemma alternatives_pattern_plain:
  "c \<notin> set syntaxCharacters \<Longrightarrow>
   alternatives_pattern (c # cs) =
     map_option (\<lambda>r. (c # hd r) # tl r) (alternatives_pattern cs)"
  by (cases cs) (auto simp: syntaxCharacters_def)

lemma alternatives_pattern_bar:
  "alternatives_pattern (CHR ''|'' # cs) = map_option ((#) []) (alternatives_pattern cs)"
  by (cases cs) simp_all

lemma alternatives_pattern_escaped_class:
  assumes "set syntaxCharacters \<subseteq> K" and "K \<inter> set wordCharacters = {}"
  shows "alternatives_pattern (concat (map (\<lambda>c. if c \<in> K then [BS, c] else [c]) s) @ rest) =
         map_option (\<lambda>r. (s @ hd r) # tl r) (alternatives_pattern rest)"
proof (induction s)
  case Nil
  show ?case
  proof (cases "alternatives_pattern rest")
    case None
    then show ?thesis by simp
  next
    case (Some r)
    moreover have "r \<noteq> []" if "alternatives_pattern t = Some r" for t r
      using that
      by (induction t arbitrary: r rule: alternatives_pattern.induct)
        (auto split: if_splits)
    ultimately show ?thesis by simp
  qed
next
  case (Cons c s)
  show ?case
  proof (cases "c \<in> K")
    case True
    with assms(2) have "c \<notin> set wordCharacters" by auto
    with True Cons show ?thesis
      by (simp add: option.map_comp comp_def)
  next
    case False
    with assms(1) have "c \<notin> set syntaxCharacters" by auto
    with False Cons show ?thesis
      by (simp add: alternatives_pattern_plain option.map_comp comp_def)
  qed
qed

lemma alternatives_pattern_join:
  assumes "set syntaxCharacters \<subseteq> K" and "K \<inter> set wordCharacters = {}"
  shows "ls \<noteq> [] \<Longrightarrow>
         alternatives_pattern
           (join_with ''|'' (map (\<lambda>s. concat (map (\<lambda>c. if c \<in> K then [BS, c] else [c]) s)) ls)) =
         Some ls"
proof (induction ls rule: list_nonempty_induct)
  case (single x)
  show ?case
    using alternatives_pattern_escaped_class [OF assms, of x "[]"] by simp
next
  case (cons x xs)
  then show ?case
    using alternatives_pattern_escaped_class [OF assms, of x
        "CHR ''|'' # join_with ''|''
           (map (\<lambda>s. concat (map (\<lambda>c. if c \<in> K then [BS, c] else [c]) s)) xs)"]
    by (simp add: alternatives_pattern_bar join_with_Cons)
qed

lemma alternatives_pattern_escapeStringRegexp:
  "alternatives_pattern (join_with ''|'' (map escapeStringRegexp ls)) =
     Some (if ls = [] then [[]] else ls)"
proof (cases "ls = []")
  case True
  then show ?thesis by simp
next
  case False
  have "escapeStringRegexp =
      (\<lambda>s. concat (map (\<lambda>c. if c \<in> set matchOperators then [BS, c] else [c]) s))"
    by (simp add: escapeStringRegexp_def fun_eq_iff)
  with alternatives_pattern_join [OF matchOperators_classes False] False
  show ?thesis by simp
qed

lemma alternatives_pattern_escapeInline:
  "alternatives_pattern (join_with ''|'' (map escapeInline ls)) =
     Some (if ls = [] then [[]] else ls)"
proof (cases "ls = []")
  case True
  then show ?thesis by simp
next
  case False
  have "escapeInline =
      (\<lambda>s. concat (map (\<lambda>c. if c \<in> set inlineOperators then [BS, c] else [c]) s))"
    by (simp add: escapeInline_def fun_eq_iff)
  with alternatives_pattern_join [OF inlineOperators_classes False] False
  show ?thesis by simp
qed

subsection \<open>Joining onto a base path\<close>

lemma hd_split_slash:
  "hd (split_slash (c # cs)) = (if c = CHR ''/'' then [] else c # hd (split_slash cs))"
  by (simp add: Let_def)

lemma split_slash_append_slash:
  "split_slash (xs @ CHR ''/'' # ys) = split_slash xs @ split_slash ys"
  by (induction xs) (simp_all add: Let_def)

lemma split_slash_prefix:
  "CHR ''/'' \<notin> set s \<Longrightarrow>
   split_slash (s @ ys) = (s @ hd (split_slash ys)) # tl (split_slash ys)"
  by (induction s) (auto simp: Let_def)

lemma split_slash_plain_path:
  "list_all plain_segment ss \<Longrightarrow> split_slash (plain_path ss) = [] # ss"
proof (induction ss)
  case Nil
  show ?case by (simp add: plain_path_def)
next
  case (Cons s ss)
  then have "CHR ''/'' \<notin> set s" and "split_slash (plain_path ss) = [] # ss"
    by (simp_all add: plain_segment_def)
  then show ?case
    using split_slash_prefix [of s "plain_path ss"] by (simp add: plain_path_def)
qed

lemma foldl_push_segment:
  "''..'' \<notin> set xs \<Longrightarrow>
   foldl (push_segment a) st xs = st @ filter (\<lambda>s. s \<noteq> [] \<and> s \<noteq> ''.'') xs"
  by (induction xs arbitrary: st) (auto simp: push_segment_def)

lemma no_dotdot_Cons: "c \<noteq> CHR ''.'' \<Longrightarrow> no_dotdot (c # xs) = no_dotdot xs"
  by (cases xs) simp_all

lemma no_dotdot_lead:
  "no_dotdot xs \<Longrightarrow> xs = [] \<or> hd xs \<noteq> CHR ''.'' \<Longrightarrow> no_dotdot (c # xs)"
  by (cases xs) auto

lemma no_dotdot_append:
  "no_dotdot A \<Longrightarrow> no_dotdot B \<Longrightarrow> B = [] \<or> hd B \<noteq> CHR ''.'' \<Longrightarrow> no_dotdot (A @ B)"
proof (induction A rule: no_dotdot.induct)
  case 1
  then show ?case by simp
next
  case (2 c)
  then show ?case by (simp add: no_dotdot_lead)
next
  case (3 c d cs)
  then show ?case by simp
qed

lemma no_dotdot_plain_path: "list_all no_dotdot ts \<Longrightarrow> no_dotdot (plain_path ts)"
proof (induction ts)
  case Nil
  show ?case by (simp add: plain_path_def)
next
  case (Cons t ts)
  then have "no_dotdot t" and "no_dotdot (plain_path ts)" by simp_all
  moreover have "plain_path ts = [] \<or> hd (plain_path ts) \<noteq> CHR ''.''"
    by (cases ts) (simp_all add: plain_path_def)
  ultimately have "no_dotdot (t @ plain_path ts)"
    by (rule no_dotdot_append)
  then show ?case
    by (simp add: plain_path_def no_dotdot_Cons)
qed

lemma no_dotdot_escaped_class:
  assumes "CHR ''.'' \<in> K"
  shows "no_dotdot (concat (map (\<lambda>c. if c \<in> K then [BS, c] else [c]) s)) \<and>
         (concat (map (\<lambda>c. if c \<in> K then [BS, c] else [c]) s) = [] \<or>
          hd (concat (map (\<lambda>c. if c \<in> K then [BS, c] else [c]) s)) \<noteq> CHR ''.'')"
proof (induction s)
  case Nil
  show ?case by simp
next
  case (Cons c s)
  show ?case
  proof (cases "c \<in> K")
    case True
    with Cons show ?thesis
      by (simp add: no_dotdot_lead)
  next
    case False
    with assms have "c \<noteq> CHR ''.''" by auto
    with False Cons show ?thesis
      by (simp add: no_dotdot_Cons)
  qed
qed

lemma no_dotdot_escapeStringRegexp:
  "no_dotdot (escapeStringRegexp s)"
  "escapeStringRegexp s = [] \<or> hd (escapeStringRegexp s) \<noteq> CHR ''.''"
  using no_dotdot_escaped_class [of "set matchOperators" s]
  by (simp_all add: escapeStringRegexp_def matchOperators_def)

lemma no_dotdot_escapeInline:
  "no_dotdot (escapeInline s)"
  "escapeInline s = [] \<or> hd (escapeInline s) \<noteq> CHR ''.''"
  using no_dotdot_escaped_class [of "set inlineOperators" s]
  by (simp_all add: escapeInline_def inlineOperators_def)

lemma no_dotdot_segments:
  "no_dotdot Z \<Longrightarrow> s \<in> set (split_slash Z) \<Longrightarrow> no_dotdot s"
proof (induction Z arbitrary: s rule: no_dotdot.induct)
  case 1
  then show ?case by simp
next
  case (2 c)
  then show ?case by (auto simp: Let_def split: if_splits)
next
  case (3 c d cs)
  let ?R = "split_slash (d # cs)"
  from 3 have nd: "\<not> (c = CHR ''.'' \<and> d = CHR ''.'')" "no_dotdot (d # cs)"
    by simp_all
  have R: "\<And>s. s \<in> set ?R \<Longrightarrow> no_dotdot s"
    using 3(1) nd(2) by blast
  have hdR: "hd ?R \<in> set ?R"
    by (rule hd_in_set [OF split_slash_not_Nil])
  have tlR: "\<And>x. x \<in> set (tl ?R) \<Longrightarrow> x \<in> set ?R"
    by (rule list.set_sel(2) [OF split_slash_not_Nil])
  have "split_slash (c # d # cs) =
      (if c = CHR ''/'' then [] # ?R else (c # hd ?R) # tl ?R)"
    by (simp add: Let_def)
  with 3(3) have mem: "s \<in> set (if c = CHR ''/'' then [] # ?R else (c # hd ?R) # tl ?R)"
    by (simp only:)
  show ?case
  proof (cases "c = CHR ''/''")
    case True
    with mem have "s = [] \<or> s \<in> set ?R"
      by (simp del: split_slash.simps)
    with R show ?thesis by auto
  next
    case False
    with mem have "s = c # hd ?R \<or> s \<in> set (tl ?R)"
      by (simp del: split_slash.simps)
    then show ?thesis
    proof
      assume s: "s = c # hd ?R"
      have "no_dotdot (hd ?R)" using R hdR by blast
      moreover have "hd ?R = (if d = CHR ''/'' then [] else d # hd (split_slash cs))"
        by (rule hd_split_slash)
      ultimately show ?thesis
        using nd(1) s by (auto split: if_splits)
    next
      assume "s \<in> set (tl ?R)"
      with tlR R show ?thesis by blast
    qed
  qed
qed

lemma no_dotdot_no_parent: "no_dotdot Z \<Longrightarrow> ''..'' \<notin> set (split_slash Z)"
  using no_dotdot_segments [of Z "''..''"] by auto

lemma join_with_plain_path: "join_with ''/'' (x # xs) = x @ plain_path xs"
  by (induction xs arbitrary: x) (simp_all add: join_with_Cons plain_path_def)

lemma plain_path_snoc: "plain_path (ss @ [s]) = plain_path ss @ CHR ''/'' # s"
  by (simp add: plain_path_def)

lemma plain_path_not_root:
  "list_all plain_segment segs \<Longrightarrow> segs \<noteq> [] \<Longrightarrow>
   plain_path segs \<noteq> [] \<and> plain_path segs \<noteq> ''/'' \<and> hd (plain_path segs) = CHR ''/''"
  by (cases segs) (auto simp: plain_path_def plain_segment_def)

lemma startsWith_append: "startsWith s p \<Longrightarrow> startsWith (s @ t) p"
proof -
  assume "startsWith s p"
  then have "s = p @ drop (length p) s"
    by (metis append_take_drop_id startsWith_def)
  then obtain r where r: "s = p @ r" ..
  have "startsWith ((p @ r) @ t) p"
    by (simp add: startsWith_def)
  then show ?thesis
    by (simp only: r)
qed

lemma startsWith_same: "startsWith (p @ t) p"
  by (simp add: startsWith_def)

lemma posix_normalize_base:
  assumes plain: "list_all plain_segment segs" and ne: "segs \<noteq> []"
    and Y: "no_dotdot Y" and H: "H = ''/'' \<or> H = ''^/''"
  shows "startsWith (posix_normalize (H @ CHR ''/'' # plain_path segs @ Y))
           (butlast H @ plain_path segs)"
proof -
  define bs l where "bs = butlast segs" and "l = last segs"
  define h t where "h = hd (split_slash Y)" and "t = tl (split_slash Y)"
  define t' where "t' = filter (\<lambda>s. s \<noteq> [] \<and> s \<noteq> ''.'') t"
  let ?path = "H @ CHR ''/'' # plain_path segs @ Y"
  have segs: "segs = bs @ [l]"
    using ne by (simp add: bs_def l_def)
  have pl: "list_all plain_segment bs" "plain_segment l"
    using plain by (simp_all add: segs)
  have ht: "split_slash Y = h # t"
    by (simp add: h_def t_def)
  have t: "''..'' \<notin> set t"
    using no_dotdot_no_parent [OF Y] by (simp add: ht)
  have bs: "''..'' \<notin> set bs" "filter (\<lambda>s. s \<noteq> [] \<and> s \<noteq> ''.'') bs = bs"
    using pl(1) by (induction bs) (auto simp: plain_segment_def)
  have lh: "l @ h \<noteq> []" "l @ h \<noteq> ''.''" "l @ h \<noteq> ''..''"
    using pl(2) by (auto simp: plain_segment_def append_eq_Cons_conv)
  have "?path = (H @ CHR ''/'' # plain_path bs) @ CHR ''/'' # (l @ Y)"
    by (simp add: segs plain_path_snoc)
  then have "split_slash ?path =
      split_slash (H @ CHR ''/'' # plain_path bs) @ split_slash (l @ Y)"
    by (simp only: split_slash_append_slash)
  also have "split_slash (l @ Y) = (l @ h) # t"
    using pl(2) by (simp add: split_slash_prefix plain_segment_def h_def t_def)
  also have "split_slash (H @ CHR ''/'' # plain_path bs) = split_slash H @ [] # bs"
    by (simp only: split_slash_append_slash split_slash_plain_path [OF pl(1)])
  finally have sp: "split_slash ?path = split_slash H @ ([] # bs) @ (l @ h) # t"
    by simp
  have spH: "split_slash H = (if H = ''/'' then [[], []] else [''^'', []])"
    using H by (auto simp: Let_def)
  have "''..'' \<notin> set (split_slash ?path)"
    using t bs(1) lh H by (auto simp: sp spH)
  then have "foldl (push_segment a) [] (split_slash ?path) =
      [] @ filter (\<lambda>s. s \<noteq> [] \<and> s \<noteq> ''.'') (split_slash ?path)" for a
    by (rule foldl_push_segment)
  then have fold: "foldl (push_segment a) [] (split_slash ?path) =
      (if H = ''/'' then [] else [''^'']) @ bs @ (l @ h) # t'" for a
    using lh bs(2) by (simp add: sp spH t'_def)
  have pp: "plain_path (bs @ (l @ h) # t') = plain_path segs @ h @ plain_path t'"
    by (simp add: segs plain_path_def)
  have j: "CHR ''/'' # join_with ''/'' (bs @ (l @ h) # t') = plain_path segs @ h @ plain_path t'"
  proof (cases bs)
    case Nil
    then show ?thesis
      using pp by (simp add: join_with_plain_path plain_path_def)
  next
    case (Cons x xs)
    then show ?thesis
      using pp by (simp add: join_with_plain_path plain_path_def)
  qed
  have pne: "plain_path segs \<noteq> []"
    using plain_path_not_root [OF plain ne] by simp
  from H show ?thesis
  proof
    assume Hs: "H = ''/''"
    have n: "normalizeString ?path False = join_with ''/'' (bs @ (l @ h) # t')"
      using fold [of False] Hs by (simp add: normalizeString_def)
    obtain s1 rest where s1: "segs = s1 # rest" "s1 \<noteq> []"
      using plain ne by (cases segs) (auto simp: plain_segment_def)
    have "join_with ''/'' (bs @ (l @ h) # t') \<noteq> []"
      using j by (auto simp: s1 plain_path_def)
    with n j Hs have "posix_normalize ?path =
        plain_path segs @ h @ plain_path t' @ (if last ?path = CHR ''/'' then ''/'' else [])"
      by (simp add: posix_normalize_def Let_def)
    then show ?thesis
      using Hs by (simp add: startsWith_def)
  next
    assume Hs: "H = ''^/''"
    have n: "normalizeString ?path True = ''^'' @ plain_path segs @ h @ plain_path t'"
      using fold [of True] Hs pp by (simp add: normalizeString_def join_with_plain_path)
    with Hs have "posix_normalize ?path =
        ''^'' @ plain_path segs @ h @ plain_path t' @
        (if last ?path = CHR ''/'' then ''/'' else [])"
      by (simp add: posix_normalize_def Let_def)
    then show ?thesis
      using Hs by (simp add: startsWith_def)
  qed
qed

lemma posix_join_base:
  assumes plain: "list_all plain_segment segs" and ne: "segs \<noteq> []"
    and x: "no_dotdot x" and ts: "list_all no_dotdot ts" and H: "H = ''/'' \<or> H = ''^/''"
  shows "startsWith (posix_join (H # (plain_path segs @ x) # ts)) (butlast H @ plain_path segs)"
proof -
  let ?ts = "filter (\<lambda>a. a \<noteq> []) ts"
  have "list_all no_dotdot ?ts"
    using ts by (induction ts) simp_all
  then have p: "no_dotdot (plain_path ?ts)"
    by (rule no_dotdot_plain_path)
  have "plain_path ?ts = [] \<or> hd (plain_path ?ts) \<noteq> CHR ''.''"
    by (cases ?ts) (simp_all add: plain_path_def)
  with x p have Y: "no_dotdot (x @ plain_path ?ts)"
    by (rule no_dotdot_append)
  have "plain_path segs \<noteq> []"
    using plain_path_not_root [OF plain ne] by simp
  with H have "posix_join (H # (plain_path segs @ x) # ts) =
      posix_normalize (H @ CHR ''/'' # plain_path segs @ x @ plain_path ?ts)"
    by (auto simp: posix_join_def join_with_plain_path plain_path_def)
  with posix_normalize_base [OF plain ne Y H] show ?thesis
    by simp
qed

subsection \<open>The base path at the head of the generated sources\<close>

lemma startsWith_Cons: "startsWith (c # s) (c # p) = startsWith s p"
  by (simp add: startsWith_def)

lemma no_dotdot_escaped_append:
  "no_dotdot B \<Longrightarrow> B = [] \<or> hd B \<noteq> CHR ''.'' \<Longrightarrow> no_dotdot (escapeStringRegexp s @ B)"
  "no_dotdot B \<Longrightarrow> B = [] \<or> hd B \<noteq> CHR ''.'' \<Longrightarrow> no_dotdot (escapeInline s @ B)"
  by (simp_all add: no_dotdot_append no_dotdot_escapeStringRegexp no_dotdot_escapeInline)

lemma base_join:
  assumes "list_all plain_segment segs" and "segs \<noteq> []"
  shows "list_all no_dotdot ts \<Longrightarrow>
           startsWith (posix_join (''/'' # plain_path segs # ts)) (plain_path segs)"
    and "list_all no_dotdot ts \<Longrightarrow>
           startsWith (posix_join (''^/'' # plain_path segs # ts)) (CHR ''^'' # plain_path segs)"
    and "no_dotdot x \<Longrightarrow>
           startsWith (posix_join [''^/'', plain_path segs @ x]) (CHR ''^'' # plain_path segs)"
  using posix_join_base [OF assms, of "[]" ts "''/''"]
    posix_join_base [OF assms, of "[]" ts "''^/''"]
    posix_join_base [OF assms, of x "[]" "''^/''"]
  by simp_all

lemma list_all_base_Nil: "list_all (base_prefixed []) rs"
  by (induction rs) (simp_all add: base_prefixed_def startsWith_def)

lemmas base_simps =
  base_prefixed_def route_src_def startsWith_append startsWith_Cons
  no_dotdot_Cons no_dotdot_escaped_append no_dotdot_escapeStringRegexp(1)
  no_dotdot_escapeInline(1)

lemma base_data_routes:
  assumes p: "list_all plain_segment segs" "segs \<noteq> []"
    and b: "basePath cfg = plain_path segs"
  shows "list_all (base_prefixed (plain_path segs)) (normalizeNextDataRoutes cfg bid r ov)"
    and "list_all (base_prefixed (plain_path segs)) (denormalizeNextDataRoutes cfg bid r ov)"
    and "base_prefixed (plain_path segs) (nextData404Route cfg)"
  using plain_path_not_root [OF p]
  by (simp_all add: normalizeNextDataRoutes_def denormalizeNextDataRoutes_def
        nextData404Route_def b base_simps base_join [OF p])

lemma base_locale_routes:
  assumes p: "list_all plain_segment segs" "segs \<noteq> []"
    and b: "basePath cfg = plain_path segs"
  shows "list_all (base_prefixed (plain_path segs)) (localeWildcard cfg c)"
    and "list_all (base_prefixed (plain_path segs)) (localeDomainRedirect cfg c)"
    and "list_all (base_prefixed (plain_path segs))
           (defaultLocaleRewrite cfg c (\<lambda>r. r\<lparr>continue := Some True\<rparr>))"
    and "list_all (base_prefixed (plain_path segs))
           (defaultLocaleRewrite cfg c (\<lambda>r. r\<lparr>check := Some True\<rparr>))"
    and "list_all (base_prefixed (plain_path segs)) (localeStrip cfg c)"
    and "list_all (base_prefixed (plain_path segs)) (notFoundLocale cfg c nfp)"
    and "list_all (base_prefixed (plain_path segs)) (serverErrorLocale cfg c)"
  using plain_path_not_root [OF p]
  by (simp_all add: localeWildcard_def localeDomainRedirect_def defaultLocaleRewrite_def
        nonLocalePathSrc_def localeStrip_def notFoundLocale_def serverErrorLocale_def
        nextLocaleSrc_def b base_simps base_join [OF p] split: option.split)

lemma base_status_routes:
  assumes p: "list_all plain_segment segs" "segs \<noteq> []"
    and b: "basePath cfg = plain_path segs"
  shows "list_all (base_prefixed (plain_path segs)) (literal404 cfg)"
    and "list_all (base_prefixed (plain_path segs)) (literal500 cfg)"
    and "list_all (base_prefixed (plain_path segs)) (notFoundPlain cfg nfp)"
    and "list_all (base_prefixed (plain_path segs)) (serverErrorPlain cfg h)"
  using plain_path_not_root [OF p]
  by (simp_all add: literal404_def literal500_def literalStatusSrc_def notFoundPlain_def
        serverErrorPlain_def catchAllSrc_def b base_simps base_join [OF p] split: option.split)

lemma base_fixed_routes:
  assumes p: "list_all plain_segment segs" "segs \<noteq> []"
    and b: "basePath cfg = plain_path segs"
  shows "list_all (base_prefixed (plain_path segs)) (appRsc cfg)"
    and "list_all (base_prefixed (plain_path segs)) (nextImage cfg)"
    and "list_all (base_prefixed (plain_path segs)) (nextDataNoop cfg)"
    and "list_all (base_prefixed (plain_path segs)) (indexRsc cfg)"
    and "list_all (base_prefixed (plain_path segs)) (rscRepair cfg)"
    and "list_all (base_prefixed (plain_path segs)) (directory404 cfg)"
    and "list_all (base_prefixed (plain_path segs)) (static404 cfg)"
    and "list_all (base_prefixed (plain_path segs)) (middlewareData cfg bid)"
    and "list_all (base_prefixed (plain_path segs)) (staticCache cfg bid)"
    and "list_all (base_prefixed (plain_path segs)) (matchedPath cfg)"
  using plain_path_not_root [OF p]
  by (simp_all add: appRsc_def nextImage_def nextDataNoop_def indexRsc_def rscRepair_def
        directory404_def static404_def middlewareData_def middlewareDataSrc_def
        staticCache_def matchedPath_def b base_simps base_join [OF p])

lemma among_emit:
  "filter (\<lambda>p. fst p \<in> set fs) (emit f rs) = (if f \<in> set fs then emit f rs else [])"
  by (induction rs) (simp_all add: emit_def)

lemma among_marker:
  "filter (\<lambda>p. fst p \<in> set fs) (marker h) = (if PhaseMarker \<in> set fs then marker h else [])"
  by (simp add: marker_def)

lemma base_path_sources:
  assumes p: "list_all plain_segment segs" and b: "basePath (config b) = plain_path segs"
  shows "list_all (base_prefixed (plain_path segs))
           (sources (emitted_among base_path_fragments b))"
    and "base_prefixed (plain_path segs) (nextData404Route (config b))"
proof -
  have "list_all (base_prefixed (plain_path segs))
           (sources (emitted_among base_path_fragments b)) \<and>
        base_prefixed (plain_path segs) (nextData404Route (config b))"
  proof (cases "segs = []")
    case True
    then show ?thesis
      using list_all_base_Nil [of "[nextData404Route (config b)]"]
      by (simp add: plain_path_def list_all_base_Nil)
  next
    case False
    note r = base_data_routes [OF p False b] base_locale_routes [OF p False b]
      base_status_routes [OF p False b] base_fixed_routes [OF p False b]
    define fs where "fs = base_path_fragments"
    have nf: "PriorityRedirects \<notin> set fs" "LocalePathRedirect \<notin> set fs"
      "UserHeaders \<notin> set fs" "Redirects \<notin> set fs" "MiddlewareMatchers \<notin> set fs"
      "BeforeFilesRewrites \<notin> set fs" "PhaseMarker \<notin> set fs"
      "AfterFilesRewrites \<notin> set fs" "FallbackRewrites \<notin> set fs"
      "SegmentPrefetch \<notin> set fs" "DynamicRoutes \<notin> set fs"
      by (simp_all add: fs_def base_path_fragments_def)
    have "list_all (base_prefixed (plain_path segs))
        (sources (map snd (filter (\<lambda>p. fst p \<in> set fs) (routes_tagged b))))"
      by (simp add: routes_tagged_def localeRoutes_def literalStatusRoutes_def
            localeStripRoutes_def errorRoutes_def among_emit among_marker nf r
            split: option.split)
    then show ?thesis
      by (simp add: emitted_among_def fs_def r)
  qed
  then show "list_all (base_prefixed (plain_path segs))
           (sources (emitted_among base_path_fragments b))"
    and "base_prefixed (plain_path segs) (nextData404Route (config b))"
    by simp_all
qed

lemma locale_sources:
  assumes c: "i18n (config b) = Some c"
  shows "map src (sources (emitted_by LocaleWildcard b)) =
           [''^'' @ posix_join [''/'', basePath (config b), ''/''] @ ''(?!(?:_next/.*|'' @
              join_with ''|'' (map escapeStringRegexp (locales c)) @ '')(?:/.*|$))$'',
            ''^'' @ posix_join [''/'', basePath (config b), ''/''] @ ''(?!(?:_next/.*|'' @
              join_with ''|'' (map escapeStringRegexp (locales c)) @ '')(?:/.*|$))(.*)$'']"
    and "map src (sources (emitted_by LocaleDomainRedirect b)) =
           (if domains c \<notin> {None, Some []} \<and> localeDetection c \<noteq> Some False
            then [''^'' @ posix_join [''/'', basePath (config b)] @ ''/?(?:'' @
                  join_with ''|'' (map escapeStringRegexp (locales c)) @ '')?/?$'']
            else [])"
    and "map src (sources (emitted_by LocalePathRedirect b)) =
           (if localeDetection c \<noteq> Some False then [''/''] else [])"
    and "map src (sources (emitted_by DefaultLocaleRewrite b)) =
           [''^'' @ posix_join [''/'', basePath (config b)] @ ''$'',
            ''^'' @ posix_join [''/'', basePath (config b), ''/''] @ ''(?!(?:_next/.*|'' @
              join_with ''|'' (map escapeStringRegexp (locales c)) @ '')(?:/.*|$))(.*)$'']"
    and "map src (sources (emitted_by DefaultLocaleFallback b)) =
           (if localeDetection c = Some False
            then [''^'' @ posix_join [''/'', basePath (config b)] @ ''$'',
                  ''^'' @ posix_join [''/'', basePath (config b), ''/''] @
                  ''(?!(?:_next/.*|'' @
                  join_with ''|'' (map escapeStringRegexp (locales c)) @ '')(?:/.*|$))(.*)$'']
            else [])"
    and "map src (sources (emitted_by Literal404Locale b)) =
           [posix_join [''/'', basePath (config b), ''/''] @ ''(?:'' @
            join_with ''|'' (map escapeInline (locales c)) @ '')?[/]?404/?'']"
    and "map src (sources (emitted_by Literal500Locale b)) =
           [posix_join [''/'', basePath (config b), ''/''] @ ''(?:'' @
            join_with ''|'' (map escapeInline (locales c)) @ '')?[/]?500/?'']"
    and "map src (sources (emitted_by LocaleStrip b)) =
           [posix_join [''/'', basePath (config b), escapeStringRegexp (defaultLocale c)],
            ''^'' @ posix_join [''/'', basePath (config b)] @ ''/?(?:'' @
              join_with ''|'' (map escapeStringRegexp (locales c)) @ '')/(.*)'']"
    and "map src (sources (emitted_by NotFoundLocale b)) =
           [posix_join [''/'', basePath (config b), ''/''] @ ''(?<nextLocale>'' @
              join_with ''|'' (map escapeStringRegexp (locales c)) @ '')(/.*|$)'',
            posix_join [''/'', basePath (config b), ''.*'']]"
    and "map src (sources (emitted_by ServerErrorLocale b)) =
           (if has500Output b
            then [posix_join [''/'', basePath (config b), ''/''] @ ''(?<nextLocale>'' @
                    join_with ''|'' (map escapeStringRegexp (locales c)) @ '')(/.*|$)'',
                  posix_join [''/'', basePath (config b), ''.*'']]
            else [])"
  by (simp_all add: emitted_with_i18n [OF c] localeWildcard_def localeDomainRedirect_def
        localePathRedirectRoute_def defaultLocaleRewrite_def nonLocalePathSrc_def
        localeAlternatives_def localeDetectionEnabled_def literal404_def literal500_def
        literalStatusSrc_def c localeStrip_def notFoundLocale_def serverErrorLocale_def
        nextLocaleSrc_def route_src_def split: option.split)

lemma ex_nested_base_sources:
  "length (sources (emitted_among base_path_fragments ex_nested)) = 20"
proof -
  have c: "i18n (config ex_nested) = Some ex_i18n_config"
    "basePath (config ex_nested) = ''/docs/v2''"
    "localeDetection ex_i18n_config = None"
    "domains ex_i18n_config \<noteq> None" "domains ex_i18n_config \<noteq> Some []"
    by (simp_all add: ex_nested_def ex_empty_def ex_config_def ex_i18n_config_def)
  have h: "has500Output ex_nested" "\<not> hasMiddleware ex_nested" "\<not> hasAppDir ex_nested"
    "\<not> shouldHandleMiddlewareDataResolving ex_nested"
    by (simp_all add: has500Output_def output_pathnames_def function_outputs_def ex_nested_def
          ex_empty_def ex_outputs_def endsWith_def hasMiddleware_def hasAppDir_def
          shouldHandleMiddlewareDataResolving_def hasPagesDir_def)
  define fs where "fs = base_path_fragments"
  have nf: "PriorityRedirects \<notin> set fs" "LocalePathRedirect \<notin> set fs"
      "UserHeaders \<notin> set fs" "Redirects \<notin> set fs" "MiddlewareMatchers \<notin> set fs"
      "BeforeFilesRewrites \<notin> set fs" "PhaseMarker \<notin> set fs"
      "AfterFilesRewrites \<notin> set fs" "FallbackRewrites \<notin> set fs"
      "SegmentPrefetch \<notin> set fs" "DynamicRoutes \<notin> set fs"
    and yf: "LocaleWildcard \<in> set fs" "LocaleDomainRedirect \<in> set fs" "DefaultLocaleRewrite \<in> set fs"
      "Literal404Locale \<in> set fs" "Literal500Locale \<in> set fs" "NextImage \<in> set fs"
      "NextDataNoop \<in> set fs" "Directory404 \<in> set fs" "Static404 \<in> set fs" "LocaleStrip \<in> set fs"
      "StaticCache \<in> set fs" "MatchedPath \<in> set fs" "NotFoundLocale \<in> set fs" "ServerErrorLocale \<in> set fs"
      by (simp_all add: fs_def base_path_fragments_def)
  have "length (sources (map snd (filter (\<lambda>p. fst p \<in> set fs) (routes_tagged ex_nested)))) = 20"
    using c(4,5)
    by (simp add: routes_tagged_def localeRoutes_def literalStatusRoutes_def
            localeStripRoutes_def errorRoutes_def among_emit among_marker nf yf c(1,2,3) h
            normalizeNextDataRoutes_def denormalizeNextDataRoutes_def
            localeWildcard_def localeDomainRedirect_def defaultLocaleRewrite_def
            literal404_def literal500_def nextImage_def nextDataNoop_def directory404_def
            static404_def localeStrip_def staticCache_def matchedPath_def notFoundLocale_def
            serverErrorLocale_def localeDetectionEnabled_def
            split: option.split)
  then show ?thesis by (simp add: emitted_among_def fs_def)
qed

section \<open>The claims\<close>

text \<open>
  C1 (as amended).  For every build, the routes array has each of the six phase markers
  exactly once, in the order filesystem, resource, miss, rewrite, hit, error: the list
  of the markers of the array, in the order of their positions, is that list.
\<close>

theorem phase_markers:
  "handles (vercelConfig_routes b) = [Filesystem, Resource, Miss, Rewrite, Hit, Error]"
  by (rule handles_routes)

theorem phase_markers_witness:
  "handles (vercelConfig_routes ex_pages) = [Filesystem, Resource, Miss, Rewrite, Hit, Error]"
  by (rule phase_markers)

text \<open>
  C1 as stated puts the rewrite marker before the miss marker; in the array of the
  empty build the miss marker comes first.
\<close>

theorem phase_markers_counterexample:
  "handles (vercelConfig_routes ex_empty) \<noteq> [Filesystem, Resource, Rewrite, Miss, Hit, Error]"
  by (simp add: handles_routes)

text \<open>
  C2 (as amended).  Without i18n no fragment of the locale handling emits a route, and
  no route of the array carries a \<^verbatim>\<open>locale\<close> property.  With i18n the two
  \<^verbatim>\<open>$wildcard\<close> rules, the two default-locale rewrites, the locale-aware literal 404
  and 500 rules, the two prefix-stripping rules and the two locale-aware 404 fallbacks
  are always emitted (in place of the plain literal and 404 fallback rules); the
  locale-path redirect is emitted exactly when locale detection is not switched off, the
  locale-domain redirect exactly when moreover the list of domains is not empty, the
  default-locale rewrites of the miss phase exactly when locale detection is switched
  off, and the locale-aware 500 fallbacks exactly when there is a 500 output.  The routes
  with a \<^verbatim>\<open>locale\<close> property are those two redirects.
\<close>

theorem i18n_rules:
  "(i18n (config b) = None \<longrightarrow>
      list_all (\<lambda>f. emitted_by f b = []) locale_fragments \<and>
      filter locale_rule (sources (vercelConfig_routes b)) = []) \<and>
   (\<forall>c. i18n (config b) = Some c \<longrightarrow>
      length (emitted_by LocaleWildcard b) = 2 \<and>
      length (emitted_by DefaultLocaleRewrite b) = 2 \<and>
      length (emitted_by Literal404Locale b) = 1 \<and>
      length (emitted_by Literal500Locale b) = 1 \<and>
      length (emitted_by LocaleStrip b) = 2 \<and>
      length (emitted_by NotFoundLocale b) = 2 \<and>
      emitted_by Literal404 b = [] \<and>
      emitted_by Literal500 b = [] \<and>
      emitted_by NotFound b = [] \<and>
      length (emitted_by LocalePathRedirect b) =
        (if localeDetection c = Some False then 0 else 1) \<and>
      length (emitted_by LocaleDomainRedirect b) =
        (if localeDetection c = Some False \<or> domains c = None \<or> domains c = Some []
         then 0 else 1) \<and>
      length (emitted_by DefaultLocaleFallback b) =
        (if localeDetection c = Some False then 2 else 0) \<and>
      length (emitted_by ServerErrorLocale b) = (if has500Output b then 2 else 0) \<and>
      filter locale_rule (sources (vercelConfig_routes b)) =
        sources (emitted_by LocaleDomainRedirect b) @
        sources (emitted_by LocalePathRedirect b))"
proof (intro conjI impI allI)
  assume n: "i18n (config b) = None"
  then show "list_all (\<lambda>f. emitted_by f b = []) locale_fragments"
    by (rule emitted_without_i18n)
  from n show "filter locale_rule (sources (vercelConfig_routes b)) = []"
    by (simp add: locale_redirect_routes)
next
  fix c
  assume c: "i18n (config b) = Some c"
  note e = emitted_with_i18n [OF c]
  have len: "length (emitted_by f b) = length (sources (emitted_by f b))"
    if "f \<noteq> PhaseMarker" for f
    using that length_sources_emitted [of f b] by simp
  show "length (emitted_by LocaleWildcard b) = 2"
    by (simp add: len e localeWildcard_def)
  show "length (emitted_by DefaultLocaleRewrite b) = 2"
    by (simp add: len e defaultLocaleRewrite_def)
  show "length (emitted_by Literal404Locale b) = 1"
    by (simp add: len e literal404_def)
  show "length (emitted_by Literal500Locale b) = 1"
    by (simp add: len e literal500_def)
  show "length (emitted_by LocaleStrip b) = 2"
    by (simp add: len e localeStrip_def)
  show "length (emitted_by NotFoundLocale b) = 2"
    by (simp add: len e notFoundLocale_def)
  show "emitted_by Literal404 b = []" "emitted_by Literal500 b = []" "emitted_by NotFound b = []"
    by (simp_all add: e)
  show "length (emitted_by LocalePathRedirect b) =
        (if localeDetection c = Some False then 0 else 1)"
    by (simp add: len e localePathRedirectRoute_def localeDetectionEnabled_def)
  show "length (emitted_by LocaleDomainRedirect b) =
        (if localeDetection c = Some False \<or> domains c = None \<or> domains c = Some []
         then 0 else 1)"
    by (simp add: len e localeDomainRedirect_def localeDetectionEnabled_def
          split: option.split)
  show "length (emitted_by DefaultLocaleFallback b) =
        (if localeDetection c = Some False then 2 else 0)"
    by (simp add: len e defaultLocaleRewrite_def)
  show "length (emitted_by ServerErrorLocale b) = (if has500Output b then 2 else 0)"
    by (simp add: len e serverErrorLocale_def)
  show "filter locale_rule (sources (vercelConfig_routes b)) =
        sources (emitted_by LocaleDomainRedirect b) @
        sources (emitted_by LocalePathRedirect b)"
    by (simp add: locale_redirect_routes c e)
qed

theorem i18n_rules_witness:
  "i18n (config ex_empty) = None \<and>
   list_all (\<lambda>f. emitted_by f ex_empty = []) locale_fragments \<and>
   i18n (config ex_i18n) = Some ex_i18n_config \<and>
   has500Output ex_i18n \<and>
   length (emitted_by LocaleWildcard ex_i18n) = 2 \<and>
   length (emitted_by LocalePathRedirect ex_i18n) = 1 \<and>
   length (emitted_by LocaleDomainRedirect ex_i18n) = 1 \<and>
   length (emitted_by DefaultLocaleFallback ex_i18n) = 0 \<and>
   length (emitted_by ServerErrorLocale ex_i18n) = 2 \<and>
   length (filter locale_rule (sources (vercelConfig_routes ex_i18n))) = 2"
proof -
  have c: "i18n (config ex_empty) = None" "i18n (config ex_i18n) = Some ex_i18n_config"
    by (simp_all add: ex_empty_def ex_i18n_def ex_config_def)
  have h: "has500Output ex_i18n"
    by (simp add: has500Output_def output_pathnames_def function_outputs_def ex_i18n_def
          ex_empty_def ex_outputs_def endsWith_def)
  have d: "localeDetection ex_i18n_config = None" "domains ex_i18n_config \<noteq> None"
    "domains ex_i18n_config \<noteq> Some []"
    by (simp_all add: ex_i18n_config_def)
  have l: "length (sources (emitted_by LocaleDomainRedirect ex_i18n)) = 1"
    "length (sources (emitted_by LocalePathRedirect ex_i18n)) = 1"
    using emitted_with_i18n(2,3) [OF c(2)]
    by (simp_all add: localeDomainRedirect_def localePathRedirectRoute_def
          localeDetectionEnabled_def ex_i18n_config_def)
  show ?thesis
    using i18n_rules [of ex_empty] i18n_rules [of ex_i18n] c h d l
    by simp
qed

text \<open>
  C2 as stated has every locale rule group emitted whenever i18n is set.  With i18n set
  and locale detection switched off (and no 500 output) the array has no route with a
  \<^verbatim>\<open>locale.redirect\<close> table and no locale-aware 500 fallback.
\<close>

theorem i18n_rules_counterexample:
  "i18n (config ex_no_detection) \<noteq> None \<and>
   filter locale_rule (sources (vercelConfig_routes ex_no_detection)) = [] \<and>
   emitted_by LocalePathRedirect ex_no_detection = [] \<and>
   emitted_by LocaleDomainRedirect ex_no_detection = [] \<and>
   emitted_by ServerErrorLocale ex_no_detection = []"
proof -
  let ?c = "ex_i18n_config\<lparr>localeDetection := Some False\<rparr>"
  have c: "i18n (config ex_no_detection) = Some ?c"
    by (simp add: ex_no_detection_def ex_empty_def ex_config_def)
  have h: "\<not> has500Output ex_no_detection"
    by (simp add: has500Output_def output_pathnames_def function_outputs_def
          ex_no_detection_def ex_empty_def ex_outputs_def)
  have e: "emitted_by f ex_no_detection = []"
    if "f \<noteq> PhaseMarker" "sources (emitted_by f ex_no_detection) = []" for f
    using that length_sources_emitted [of f ex_no_detection] by simp
  have s: "sources (emitted_by LocalePathRedirect ex_no_detection) = []"
    "sources (emitted_by LocaleDomainRedirect ex_no_detection) = []"
    "sources (emitted_by ServerErrorLocale ex_no_detection) = []"
    using emitted_with_i18n(2,3,10) [OF c] h
    by (simp_all add: localeDomainRedirect_def localePathRedirectRoute_def
          localeDetectionEnabled_def ex_i18n_config_def)
  show ?thesis
    by (simp add: c e s locale_redirect_routes localeDomainRedirect_def
          localePathRedirectRoute_def localeDetectionEnabled_def ex_i18n_config_def)
qed

text \<open>
  C3 (as amended).  Both escapers turn every string into a pattern of literal atoms that
  matches exactly that string, and the alternation of the escaped locale codes into a
  pattern that matches exactly the locale codes: escapeStringRegexp, and the replacement
  \<^verbatim>\<open>/[.*+?^${}()|[\]\\]/g\<close> written inline, which leaves \<^verbatim>\<open>-\<close> as it is and
  otherwise agrees with escapeStringRegexp.  With i18n, the source patterns of the locale
  rules are exactly these, where A is the locale codes escaped by escapeStringRegexp and
  joined with \<^verbatim>\<open>|\<close>, I the same with the inline escaper, B is
  \<^verbatim>\<open>path.posix.join('/', basePath)\<close> and D is \<^verbatim>\<open>path.posix.join('/', basePath, '/')\<close>:
  the \<^verbatim>\<open>$wildcard\<close> rules \<^verbatim>\<open>^D(?!(?:_next/.*|A)(?:/.*|$))$\<close> and
  \<^verbatim>\<open>^D(?!(?:_next/.*|A)(?:/.*|$))(.*)$\<close>; the locale-domain redirect
  \<^verbatim>\<open>^B/?(?:A)?/?$\<close>, present with a domain and with locale detection; the locale-path
  redirect \<^verbatim>\<open>/\<close>, present with locale detection; the default-locale rewrites
  \<^verbatim>\<open>^B$\<close> and \<^verbatim>\<open>^D(?!(?:_next/.*|A)(?:/.*|$))(.*)$\<close>, and once more in the miss
  phase without locale detection; the literal status rules \<^verbatim>\<open>D(?:I)?[/]?404/?\<close> and
  \<^verbatim>\<open>D(?:I)?[/]?500/?\<close>; the prefix-stripping rules, the join of the base path with the
  escaped default locale and \<^verbatim>\<open>^B/?(?:A)/(.*)\<close>; the 404 fallbacks
  \<^verbatim>\<open>D(?<nextLocale>A)(/.*|$)\<close> and the join of the base path with \<^verbatim>\<open>.*\<close>, and the
  same two for 500 when there is a 500 output.  The base path is never escaped: when it
  is \<^verbatim>\<open>/s1/.../sn\<close> with segments that are not empty, have no slash and are not
  \<^verbatim>\<open>.\<close> or \<^verbatim>\<open>..\<close>, every source pattern built from it (all the generated ones but the
  locale-path redirect and the segment-prefetch rewrite, and the synthetic
  \<^verbatim>\<open>_next/data\<close> 404 route) begins with the base path as configured, after a
  \<^verbatim>\<open>^\<close> if the pattern has one.
\<close>

theorem locale_escaping:
  "literal_pattern (escapeStringRegexp s) = Some s \<and>
   literal_pattern (escapeInline s) = Some s \<and>
   alternatives_pattern (join_with ''|'' (map escapeStringRegexp ls)) =
     Some (if ls = [] then [[]] else ls) \<and>
   alternatives_pattern (join_with ''|'' (map escapeInline ls)) =
     Some (if ls = [] then [[]] else ls) \<and>
   (CHR ''-'' \<notin> set s \<longrightarrow> escapeInline s = escapeStringRegexp s) \<and>
   (i18n (config b) = Some c \<longrightarrow>
      (let A = join_with ''|'' (map escapeStringRegexp (locales c));
           I = join_with ''|'' (map escapeInline (locales c));
           B = posix_join [''/'', basePath (config b)];
           D = posix_join [''/'', basePath (config b), ''/'']
       in map src (sources (emitted_by LocaleWildcard b)) =
            [''^'' @ D @ ''(?!(?:_next/.*|'' @ A @ '')(?:/.*|$))$'',
             ''^'' @ D @ ''(?!(?:_next/.*|'' @ A @ '')(?:/.*|$))(.*)$''] \<and>
          map src (sources (emitted_by LocaleDomainRedirect b)) =
            (if domains c \<notin> {None, Some []} \<and> localeDetection c \<noteq> Some False
             then [''^'' @ B @ ''/?(?:'' @ A @ '')?/?$''] else []) \<and>
          map src (sources (emitted_by LocalePathRedirect b)) =
            (if localeDetection c \<noteq> Some False then [''/''] else []) \<and>
          map src (sources (emitted_by DefaultLocaleRewrite b)) =
            [''^'' @ B @ ''$'', ''^'' @ D @ ''(?!(?:_next/.*|'' @ A @ '')(?:/.*|$))(.*)$''] \<and>
          map src (sources (emitted_by DefaultLocaleFallback b)) =
            (if localeDetection c = Some False
             then [''^'' @ B @ ''$'', ''^'' @ D @ ''(?!(?:_next/.*|'' @ A @ '')(?:/.*|$))(.*)$'']
             else []) \<and>
          map src (sources (emitted_by Literal404Locale b)) =
            [D @ ''(?:'' @ I @ '')?[/]?404/?''] \<and>
          map src (sources (emitted_by Literal500Locale b)) =
            [D @ ''(?:'' @ I @ '')?[/]?500/?''] \<and>
          map src (sources (emitted_by LocaleStrip b)) =
            [posix_join [''/'', basePath (config b), escapeStringRegexp (defaultLocale c)],
             ''^'' @ B @ ''/?(?:'' @ A @ '')/(.*)''] \<and>
          map src (sources (emitted_by NotFoundLocale b)) =
            [D @ ''(?<nextLocale>'' @ A @ '')(/.*|$)'',
             posix_join [''/'', basePath (config b), ''.*'']] \<and>
          map src (sources (emitted_by ServerErrorLocale b)) =
            (if has500Output b
             then [D @ ''(?<nextLocale>'' @ A @ '')(/.*|$)'',
                   posix_join [''/'', basePath (config b), ''.*'']]
             else []))) \<and>
   (list_all plain_segment segs \<and> basePath (config b) = plain_path segs \<longrightarrow>
      list_all (base_prefixed (plain_path segs))
        (sources (emitted_among base_path_fragments b)) \<and>
      base_prefixed (plain_path segs) (nextData404Route (config b)))"
proof (intro conjI impI)
  show "literal_pattern (escapeStringRegexp s) = Some s"
    by (rule literal_pattern_escapeStringRegexp)
  show "literal_pattern (escapeInline s) = Some s"
    by (rule literal_pattern_escapeInline)
  show "alternatives_pattern (join_with ''|'' (map escapeStringRegexp ls)) =
     Some (if ls = [] then [[]] else ls)"
    by (rule alternatives_pattern_escapeStringRegexp)
  show "alternatives_pattern (join_with ''|'' (map escapeInline ls)) =
     Some (if ls = [] then [[]] else ls)"
    by (rule alternatives_pattern_escapeInline)
next
  assume "CHR ''-'' \<notin> set s"
  then show "escapeInline s = escapeStringRegexp s"
    by (rule escapeInline_eq)
next
  assume c: "i18n (config b) = Some c"
  show "let A = join_with ''|'' (map escapeStringRegexp (locales c));
           I = join_with ''|'' (map escapeInline (locales c));
           B = posix_join [''/'', basePath (config b)];
           D = posix_join [''/'', basePath (config b), ''/'']
       in map src (sources (emitted_by LocaleWildcard b)) =
            [''^'' @ D @ ''(?!(?:_next/.*|'' @ A @ '')(?:/.*|$))$'',
             ''^'' @ D @ ''(?!(?:_next/.*|'' @ A @ '')(?:/.*|$))(.*)$''] \<and>
          map src (sources (emitted_by LocaleDomainRedirect b)) =
            (if domains c \<notin> {None, Some []} \<and> localeDetection c \<noteq> Some False
             then [''^'' @ B @ ''/?(?:'' @ A @ '')?/?$''] else []) \<and>
          map src (sources (emitted_by LocalePathRedirect b)) =
            (if localeDetection c \<noteq> Some False then [''/''] else []) \<and>
          map src (sources (emitted_by DefaultLocaleRewrite b)) =
            [''^'' @ B @ ''$'', ''^'' @ D @ ''(?!(?:_next/.*|'' @ A @ '')(?:/.*|$))(.*)$''] \<and>
          map src (sources (emitted_by DefaultLocaleFallback b)) =
            (if localeDetection c = Some False
             then [''^'' @ B @ ''$'', ''^'' @ D @ ''(?!(?:_next/.*|'' @ A @ '')(?:/.*|$))(.*)$'']
             else []) \<and>
          map src (sources (emitted_by Literal404Locale b)) =
            [D @ ''(?:'' @ I @ '')?[/]?404/?''] \<and>
          map src (sources (emitted_by Literal500Locale b)) =
            [D @ ''(?:'' @ I @ '')?[/]?500/?''] \<and>
          map src (sources (emitted_by LocaleStrip b)) =
            [posix_join [''/'', basePath (config b), escapeStringRegexp (defaultLocale c)],
             ''^'' @ B @ ''/?(?:'' @ A @ '')/(.*)''] \<and>
          map src (sources (emitted_by NotFoundLocale b)) =
            [D @ ''(?<nextLocale>'' @ A @ '')(/.*|$)'',
             posix_join [''/'', basePath (config b), ''.*'']] \<and>
          map src (sources (emitted_by ServerErrorLocale b)) =
            (if has500Output b
             then [D @ ''(?<nextLocale>'' @ A @ '')(/.*|$)'',
                   posix_join [''/'', basePath (config b), ''.*'']]
             else [])"
    unfolding Let_def
    by (intro conjI) (simp_all only: locale_sources [OF c])
next
  assume a: "list_all plain_segment segs \<and> basePath (config b) = plain_path segs"
  then show "list_all (base_prefixed (plain_path segs))
        (sources (emitted_among base_path_fragments b))"
    and "base_prefixed (plain_path segs) (nextData404Route (config b))"
    by (simp_all add: base_path_sources)
qed

theorem locale_escaping_witness:
  "i18n (config ex_nested) = Some ex_i18n_config \<and>
   locales ex_i18n_config = [''en'', ''fr-CA''] \<and>
   list_all plain_segment [''docs'', ''v2''] \<and>
   basePath (config ex_nested) = plain_path [''docs'', ''v2''] \<and>
   plain_path [''docs'', ''v2''] = ''/docs/v2'' \<and>
   CHR ''-'' \<notin> set ''en'' \<and>
   escapeInline ''en'' = escapeStringRegexp ''en'' \<and>
   escapeStringRegexp ''fr-CA'' = ''fr'' @ BS # ''-CA'' \<and>
   literal_pattern (''fr'' @ BS # ''-CA'') = Some ''fr-CA'' \<and>
   escapeInline ''fr-CA'' = ''fr-CA'' \<and>
   literal_pattern ''fr-CA'' = Some ''fr-CA'' \<and>
   alternatives_pattern (''en|fr'' @ BS # ''-CA'') = Some [''en'', ''fr-CA''] \<and>
   alternatives_pattern ''en|fr-CA'' = Some [''en'', ''fr-CA''] \<and>
   map src (sources (emitted_by LocaleWildcard ex_nested)) =
     [''^/docs/v2/(?!(?:_next/.*|en|fr'' @ BS # ''-CA)(?:/.*|$))$'',
      ''^/docs/v2/(?!(?:_next/.*|en|fr'' @ BS # ''-CA)(?:/.*|$))(.*)$''] \<and>
   map src (sources (emitted_by LocaleDomainRedirect ex_nested)) =
     [''^/docs/v2/?(?:en|fr'' @ BS # ''-CA)?/?$''] \<and>
   map src (sources (emitted_by LocalePathRedirect ex_nested)) = [''/''] \<and>
   map src (sources (emitted_by DefaultLocaleRewrite ex_nested)) =
     [''^/docs/v2$'', ''^/docs/v2/(?!(?:_next/.*|en|fr'' @ BS # ''-CA)(?:/.*|$))(.*)$''] \<and>
   map src (sources (emitted_by DefaultLocaleFallback ex_nested)) = [] \<and>
   map src (sources (emitted_by Literal404Locale ex_nested)) =
     [''/docs/v2/(?:en|fr-CA)?[/]?404/?''] \<and>
   map src (sources (emitted_by Literal500Locale ex_nested)) =
     [''/docs/v2/(?:en|fr-CA)?[/]?500/?''] \<and>
   map src (sources (emitted_by LocaleStrip ex_nested)) =
     [''/docs/v2/en'', ''^/docs/v2/?(?:en|fr'' @ BS # ''-CA)/(.*)''] \<and>
   map src (sources (emitted_by NotFoundLocale ex_nested)) =
     [''/docs/v2/(?<nextLocale>en|fr'' @ BS # ''-CA)(/.*|$)'', ''/docs/v2/.*''] \<and>
   has500Output ex_nested \<and>
   map src (sources (emitted_by ServerErrorLocale ex_nested)) =
     [''/docs/v2/(?<nextLocale>en|fr'' @ BS # ''-CA)(/.*|$)'', ''/docs/v2/.*''] \<and>
   length (sources (emitted_among base_path_fragments ex_nested)) = 20 \<and>
   list_all (base_prefixed ''/docs/v2'') (sources (emitted_among base_path_fragments ex_nested)) \<and>
   base_prefixed ''/docs/v2'' (nextData404Route (config ex_nested)) \<and>
   list_all plain_segment [''a.b''] \<and>
   basePath (config ex_dotted) = plain_path [''a.b''] \<and>
   list_all (base_prefixed ''/a.b'') (sources (emitted_among base_path_fragments ex_dotted))"
proof -
  have c: "i18n (config ex_nested) = Some ex_i18n_config"
    "basePath (config ex_nested) = ''/docs/v2''"
    "locales ex_i18n_config = [''en'', ''fr-CA'']"
    "defaultLocale ex_i18n_config = ''en''"
    "localeDetection ex_i18n_config = None"
    "domains ex_i18n_config \<notin> {None, Some []}"
    by (simp_all add: ex_nested_def ex_empty_def ex_config_def ex_i18n_config_def)
  have h: "has500Output ex_nested"
    by (simp add: has500Output_def output_pathnames_def function_outputs_def ex_nested_def
          ex_empty_def ex_outputs_def endsWith_def)
  have j: "posix_join [''/'', ''/docs/v2''] = ''/docs/v2''"
    "posix_join [''/'', ''/docs/v2'', ''/''] = ''/docs/v2/''"
    "posix_join [''/'', ''/docs/v2'', ''en''] = ''/docs/v2/en''"
    "posix_join [''/'', ''/docs/v2'', ''.*''] = ''/docs/v2/.*''"
    by (simp_all add: posix_join_def posix_normalize_def normalizeString_def push_segment_def
          Let_def)
  have e: "escapeStringRegexp ''fr-CA'' = ''fr'' @ BS # ''-CA''"
    "escapeInline ''fr-CA'' = ''fr-CA''"
    "escapeStringRegexp ''en'' = ''en''"
    "escapeInline ''en'' = ''en''"
    by (simp_all add: escapeStringRegexp_def escapeInline_def matchOperators_def
          inlineOperators_def)
  have p: "list_all plain_segment [''docs'', ''v2'']"
    "plain_path [''docs'', ''v2''] = ''/docs/v2''"
    by (simp_all add: plain_segment_def plain_path_def)
  note t = locale_escaping [of "''fr-CA''" "[''en'', ''fr-CA'']" ex_nested ex_i18n_config
      "[''docs'', ''v2'']"]
  have r: "literal_pattern (''fr'' @ BS # ''-CA'') = Some ''fr-CA''"
    "literal_pattern ''fr-CA'' = Some ''fr-CA''"
    "alternatives_pattern (''en|fr'' @ BS # ''-CA'') = Some [''en'', ''fr-CA'']"
    "alternatives_pattern ''en|fr-CA'' = Some [''en'', ''fr-CA'']"
    using t by (simp_all add: e)
  have i: "escapeInline ''en'' = escapeStringRegexp ''en''"
    using locale_escaping [of "''en''" "[]" ex_nested ex_i18n_config "[]"] by simp
  have l: "map src (sources (emitted_by LocaleWildcard ex_nested)) =
     [''^/docs/v2/(?!(?:_next/.*|en|fr'' @ BS # ''-CA)(?:/.*|$))$'',
      ''^/docs/v2/(?!(?:_next/.*|en|fr'' @ BS # ''-CA)(?:/.*|$))(.*)$'']"
    "map src (sources (emitted_by LocaleDomainRedirect ex_nested)) =
     [''^/docs/v2/?(?:en|fr'' @ BS # ''-CA)?/?$'']"
    "map src (sources (emitted_by LocalePathRedirect ex_nested)) = [''/'']"
    "map src (sources (emitted_by DefaultLocaleRewrite ex_nested)) =
     [''^/docs/v2$'', ''^/docs/v2/(?!(?:_next/.*|en|fr'' @ BS # ''-CA)(?:/.*|$))(.*)$'']"
    "map src (sources (emitted_by DefaultLocaleFallback ex_nested)) = []"
    "map src (sources (emitted_by Literal404Locale ex_nested)) =
     [''/docs/v2/(?:en|fr-CA)?[/]?404/?'']"
    "map src (sources (emitted_by Literal500Locale ex_nested)) =
     [''/docs/v2/(?:en|fr-CA)?[/]?500/?'']"
    "map src (sources (emitted_by LocaleStrip ex_nested)) =
     [''/docs/v2/en'', ''^/docs/v2/?(?:en|fr'' @ BS # ''-CA)/(.*)'']"
    "map src (sources (emitted_by NotFoundLocale ex_nested)) =
     [''/docs/v2/(?<nextLocale>en|fr'' @ BS # ''-CA)(/.*|$)'', ''/docs/v2/.*'']"
    "map src (sources (emitted_by ServerErrorLocale ex_nested)) =
     [''/docs/v2/(?<nextLocale>en|fr'' @ BS # ''-CA)(/.*|$)'', ''/docs/v2/.*'']"
    using t [THEN conjunct2, THEN conjunct2, THEN conjunct2, THEN conjunct2, THEN conjunct2,
        THEN conjunct1, rule_format, OF c(1)] c(6) h
    by (simp_all add: Let_def c(2-5) j e)
  have b: "list_all (base_prefixed ''/docs/v2'')
      (sources (emitted_among base_path_fragments ex_nested))"
    "base_prefixed ''/docs/v2'' (nextData404Route (config ex_nested))"
    using t [THEN conjunct2, THEN conjunct2, THEN conjunct2, THEN conjunct2, THEN conjunct2,
        THEN conjunct2, rule_format] p(1) c(2)
    by (simp_all add: p(2))
  have d: "list_all plain_segment [''a.b'']" "plain_path [''a.b''] = ''/a.b''"
    "basePath (config ex_dotted) = ''/a.b''"
    by (simp_all add: plain_segment_def plain_path_def ex_dotted_def ex_empty_def ex_config_def)
  have u: "list_all (base_prefixed ''/a.b'')
      (sources (emitted_among base_path_fragments ex_dotted))"
    using locale_escaping [of "[]" "[]" ex_dotted ex_i18n_config "[''a.b'']"] d(1,3)
    by (simp add: d(2))
  show ?thesis
    using c(1,3) h p r i e(1,2) l b c(2) d u ex_nested_base_sources by simp
qed

text \<open>
  C3 as stated has the base path and every locale code escaped by escapeStringRegexp.
  With the base path \<^verbatim>\<open>/a.b\<close> and the locale \<^verbatim>\<open>en-US\<close>, the directory 404 rule has the
  source \<^verbatim>\<open>/a.b/.*\<close>, in which the dot of the base path is an operator (the escaped
  base path \<^verbatim>\<open>/a\.b\<close> is not in it), and the literal 404 rule has the locale as
  \<^verbatim>\<open>en-US\<close>, not as \<^verbatim>\<open>en\-US\<close>.
\<close>

theorem locale_escaping_counterexample:
  "basePath (config ex_dotted) = ''/a.b'' \<and>
   map src (sources (emitted_by Directory404 ex_dotted)) = [''/a.b/.*''] \<and>
   escapeStringRegexp ''/a.b'' = ''/a'' @ BS # ''.b'' \<and>
   \<not> sublist (escapeStringRegexp ''/a.b'') ''/a.b/.*'' \<and>
   literal_pattern ''/a.b'' = None \<and>
   map src (sources (emitted_by Literal404Locale ex_dotted)) = [''/a.b/(?:en-US)?[/]?404/?''] \<and>
   \<not> sublist (escapeStringRegexp ''en-US'') ''/a.b/(?:en-US)?[/]?404/?''"
proof -
  have c: "basePath (config ex_dotted) = ''/a.b''"
    "i18n (config ex_dotted) =
       Some \<lparr>defaultLocale = ''en-US'', locales = [''en-US''], domains = None,
             localeDetection = None\<rparr>"
    by (simp_all add: ex_dotted_def ex_empty_def ex_config_def)
  have j: "posix_join [''/'', ''/a.b'', ''.*''] = ''/a.b/.*''"
    "posix_join [''/'', ''/a.b'', ''/''] = ''/a.b/''"
    by (simp_all add: posix_join_def posix_normalize_def normalizeString_def push_segment_def
          Let_def)
  have e: "escapeStringRegexp ''/a.b'' = ''/a'' @ BS # ''.b''"
    "escapeStringRegexp ''en-US'' = ''en'' @ BS # ''-US''"
    "escapeInline ''en-US'' = ''en-US''"
    by (simp_all add: escapeStringRegexp_def escapeInline_def matchOperators_def
          inlineOperators_def)
  have n: "\<not> sublist (''/a'' @ BS # ''.b'') ''/a.b/.*''"
    "\<not> sublist (''en'' @ BS # ''-US'') ''/a.b/(?:en-US)?[/]?404/?''"
    by (simp_all add: sublist_Cons_right)
  have p: "literal_pattern ''/a.b'' = None"
    by (simp add: syntaxCharacters_def)
  show ?thesis
    using n p
    by (simp add: c j e emitted_Directory404 directory404_def route_src_def
          emitted_with_i18n(5) [OF c(2)] literal404_def literalStatusSrc_def)
qed

text \<open>
  C4.  The claim asks for the operation type \<^verbatim>\<open>API\<close> for every output that is
  neither an App Router page nor a Pages Router page.  For a route handler of the App
  Router (type \<^verbatim>\<open>APP_ROUTE\<close>) the code computes \<^verbatim>\<open>PAGE\<close>.
\<close>

theorem operationType_app_route:
  "o_type ex_api_output = APP_ROUTE \<and> operationType ex_api_output = ''PAGE''"
  by (simp add: operationType_always ex_api_output_def)

text \<open>
  C5 (as amended).  When either prefetch flag is set, every afterFiles rewrite with a
  non-empty destination whose source ends in the optional-trailing-slash suffix
  \<^verbatim>\<open>(?:\/)?$\<close> has that suffix, together with a \<^verbatim>\<open>\/?\<close> or a \<^verbatim>\<open>\/\<close> standing
  immediately before it when there is one, replaced by \<^verbatim>\<open>(?:/)?(?<rscsuff>...)?\<close>: the
  new source is the text before what is removed, followed by that group.  The
  alternatives of the group are \<^verbatim>\<open>\.rsc\<close>, then \<^verbatim>\<open>\.prefetch\.rsc\<close> when prefetch-RSC
  handling is on, then \<^verbatim>\<open>\.segments/.+\.segment\.rsc\<close> when segment-prefetch handling is
  on.  The destination of such a rewrite gets \<^verbatim>\<open>$rscsuff\<close> immediately before its
  first \<^verbatim>\<open>?\<close>, or at its very end when it has no \<^verbatim>\<open>?\<close>.  The sources and
  destinations of the beforeFiles and fallback rewrites are left as they are.
\<close>

theorem rewrite_rsc_suffix:
  "(shouldHandlePrefetchRsc b \<or> shouldHandleSegmentPrefetches b \<longrightarrow>
      length (afterFiles (convertedRewrites b)) =
        length (afterFiles (routes_rewrites (routes b))) \<and>
      (\<forall>k < length (afterFiles (routes_rewrites (routes b))).
         rw_destination (afterFiles (routes_rewrites (routes b)) ! k) \<noteq> [] \<and>
         endsWith (rw_sourceRegex (afterFiles (routes_rewrites (routes b)) ! k))
           optionalTrailingSlash \<longrightarrow>
           (\<exists>p. rw_sourceRegex (afterFiles (routes_rewrites (routes b)) ! k) =
                  p @ BS # ''/?'' @ optionalTrailingSlash \<or>
                rw_sourceRegex (afterFiles (routes_rewrites (routes b)) ! k) =
                  p @ BS # ''/'' @ optionalTrailingSlash \<or>
                rw_sourceRegex (afterFiles (routes_rewrites (routes b)) ! k) =
                  p @ optionalTrailingSlash \<and>
                \<not> endsWith p (BS # ''/?'') \<and> \<not> endsWith p (BS # ''/'')) \<and>
           (\<forall>p. rw_sourceRegex (afterFiles (routes_rewrites (routes b)) ! k) =
                  p @ BS # ''/?'' @ optionalTrailingSlash \<or>
                rw_sourceRegex (afterFiles (routes_rewrites (routes b)) ! k) =
                  p @ BS # ''/'' @ optionalTrailingSlash \<or>
                rw_sourceRegex (afterFiles (routes_rewrites (routes b)) ! k) =
                  p @ optionalTrailingSlash \<and>
                \<not> endsWith p (BS # ''/?'') \<and> \<not> endsWith p (BS # ''/'') \<longrightarrow>
                src (afterFiles (convertedRewrites b) ! k) =
                  p @ ''(?:/)?(?<rscsuff>'' @
                  rscSuffix (shouldHandlePrefetchRsc b) (shouldHandleSegmentPrefetches b) @
                  '')?'') \<and>
           dest (afterFiles (convertedRewrites b) ! k) =
             Some (addRscSuffix (rw_destination (afterFiles (routes_rewrites (routes b)) ! k))))) \<and>
   rscSuffix pf sg =
     BS # ''.rsc'' @
     (if pf then ''|'' @ BS # ''.prefetch'' @ BS # ''.rsc'' else []) @
     (if sg then ''|'' @ BS # ''.segments/.+'' @ BS # ''.segment'' @ BS # ''.rsc'' else []) \<and>
   (CHR ''?'' \<notin> set path \<longrightarrow>
      addRscSuffix path = path @ ''$rscsuff'' \<and>
      addRscSuffix (path @ CHR ''?'' # query) = path @ ''$rscsuff'' @ CHR ''?'' # query) \<and>
   map src (beforeFiles (convertedRewrites b)) =
     map rw_sourceRegex (beforeFiles (routes_rewrites (routes b))) \<and>
   map dest (beforeFiles (convertedRewrites b)) =
     map (\<lambda>item. Some (rw_destination item)) (beforeFiles (routes_rewrites (routes b))) \<and>
   map src (fallback (convertedRewrites b)) =
     map rw_sourceRegex (fallback (routes_rewrites (routes b))) \<and>
   map dest (fallback (convertedRewrites b)) =
     map (\<lambda>item. Some (rw_destination item)) (fallback (routes_rewrites (routes b)))"
proof (intro conjI impI allI)
  assume flags: "shouldHandlePrefetchRsc b \<or> shouldHandleSegmentPrefetches b"
  show "length (afterFiles (convertedRewrites b)) =
        length (afterFiles (routes_rewrites (routes b)))"
    by (simp add: converted_afterFiles [OF flags])
  fix k
  let ?item = "afterFiles (routes_rewrites (routes b)) ! k"
  let ?group = "''(?:/)?(?<rscsuff>'' @
      rscSuffix (shouldHandlePrefetchRsc b) (shouldHandleSegmentPrefetches b) @ '')?''"
  assume k: "k < length (afterFiles (routes_rewrites (routes b)))"
    and item: "rw_destination ?item \<noteq> [] \<and> endsWith (rw_sourceRegex ?item) optionalTrailingSlash"
  have r: "afterFiles (convertedRewrites b) ! k =
      modifyRewrite True (shouldHandlePrefetchRsc b) (shouldHandleSegmentPrefetches b)
        (normalizeItem ?item)"
    using k by (simp add: converted_afterFiles [OF flags])
  from item have ne: "rw_sourceRegex ?item \<noteq> []"
    by (auto simp: endsWith_def length_optionalTrailingSlash)
  have s: "src (afterFiles (convertedRewrites b) ! k) =
      replaceTrailingSlash (rw_sourceRegex ?item) ?group"
    using ne item src_modifyRewrite_after [of "normalizeItem ?item" "rw_destination ?item"]
    by (simp add: r)
  from item trailing_slash_decomposition [of "rw_sourceRegex ?item"]
  show "\<exists>p. rw_sourceRegex ?item = p @ BS # ''/?'' @ optionalTrailingSlash \<or>
            rw_sourceRegex ?item = p @ BS # ''/'' @ optionalTrailingSlash \<or>
            rw_sourceRegex ?item = p @ optionalTrailingSlash \<and>
            \<not> endsWith p (BS # ''/?'') \<and> \<not> endsWith p (BS # ''/'')"
    by blast
  show "dest (afterFiles (convertedRewrites b) ! k) = Some (addRscSuffix (rw_destination ?item))"
    using ne item dest_modifyRewrite_after [of "normalizeItem ?item" "rw_destination ?item"]
    by (simp add: r)
  fix p
  assume "rw_sourceRegex ?item = p @ BS # ''/?'' @ optionalTrailingSlash \<or>
          rw_sourceRegex ?item = p @ BS # ''/'' @ optionalTrailingSlash \<or>
          rw_sourceRegex ?item = p @ optionalTrailingSlash \<and>
          \<not> endsWith p (BS # ''/?'') \<and> \<not> endsWith p (BS # ''/'')"
  from replaceTrailingSlash_cases [OF this, of ?group]
  show "src (afterFiles (convertedRewrites b) ! k) = p @ ?group"
    by (simp only: s)
next
  show "rscSuffix pf sg =
     BS # ''.rsc'' @
     (if pf then ''|'' @ BS # ''.prefetch'' @ BS # ''.rsc'' else []) @
     (if sg then ''|'' @ BS # ''.segments/.+'' @ BS # ''.segment'' @ BS # ''.rsc'' else [])"
    by (rule rscSuffix_alternatives)
next
  assume "CHR ''?'' \<notin> set path"
  then show "addRscSuffix path = path @ ''$rscsuff''"
    and "addRscSuffix (path @ CHR ''?'' # query) = path @ ''$rscsuff'' @ CHR ''?'' # query"
    by (simp_all add: addRscSuffix_plain addRscSuffix_query)
qed (simp_all add: converted_beforeFiles converted_fallback)

theorem rewrite_rsc_suffix_witness:
  "shouldHandlePrefetchRsc ex_after \<and>
   afterFiles (routes_rewrites (routes ex_after)) = [ex_rewrite, ex_rewrite_dir] \<and>
   rw_destination ex_rewrite \<noteq> [] \<and> rw_destination ex_rewrite_dir \<noteq> [] \<and>
   rw_sourceRegex ex_rewrite = (''^'' @ BS # ''/blog'') @ optionalTrailingSlash \<and>
   \<not> endsWith (''^'' @ BS # ''/blog'') (BS # ''/?'') \<and>
   \<not> endsWith (''^'' @ BS # ''/blog'') (BS # ''/'') \<and>
   rw_sourceRegex ex_rewrite_dir = (''^'' @ BS # ''/docs'') @ BS # ''/?'' @ optionalTrailingSlash \<and>
   map src (afterFiles (convertedRewrites ex_after)) =
     [''^'' @ BS # ''/blog(?:/)?(?<rscsuff>'' @ BS # ''.rsc|'' @ BS # ''.prefetch'' @
      BS # ''.rsc|'' @ BS # ''.segments/.+'' @ BS # ''.segment'' @ BS # ''.rsc)?'',
      ''^'' @ BS # ''/docs(?:/)?(?<rscsuff>'' @ BS # ''.rsc|'' @ BS # ''.prefetch'' @
      BS # ''.rsc|'' @ BS # ''.segments/.+'' @ BS # ''.segment'' @ BS # ''.rsc)?''] \<and>
   map dest (afterFiles (convertedRewrites ex_after)) =
     [Some ''/news$rscsuff?from=blog'', Some ''/manual#top$rscsuff''] \<and>
   CHR ''?'' \<notin> set ''/news'' \<and>
   addRscSuffix (''/news'' @ CHR ''?'' # ''from=blog'') = ''/news$rscsuff?from=blog'' \<and>
   CHR ''?'' \<notin> set ''/manual#top'' \<and>
   addRscSuffix ''/manual#top'' = ''/manual#top$rscsuff''"
proof -
  have f: "shouldHandlePrefetchRsc ex_after" "shouldHandleSegmentPrefetches ex_after"
    by (simp_all add: shouldHandlePrefetchRsc_def shouldHandleSegmentPrefetches_def
          ex_after_def ex_pages_def ex_config_def)
  have a: "afterFiles (routes_rewrites (routes ex_after)) = [ex_rewrite, ex_rewrite_dir]"
    by (simp add: ex_after_def)
  have q: "addRscSuffix (''/news'' @ CHR ''?'' # ''from=blog'') = ''/news$rscsuff?from=blog''"
    "addRscSuffix ''/manual#top'' = ''/manual#top$rscsuff''"
    using rewrite_rsc_suffix [of ex_after _ _ "''/news''" "''from=blog''"]
      rewrite_rsc_suffix [of ex_after _ _ "''/manual#top''"]
    by simp_all
  have e: "rw_destination ex_rewrite = ''/news?from=blog''"
    "rw_destination ex_rewrite_dir = ''/manual#top''"
    "rw_sourceRegex ex_rewrite = (''^'' @ BS # ''/blog'') @ optionalTrailingSlash"
    "rw_sourceRegex ex_rewrite_dir =
       (''^'' @ BS # ''/docs'') @ BS # ''/?'' @ optionalTrailingSlash"
    "\<not> endsWith (''^'' @ BS # ''/blog'') (BS # ''/?'')"
    "\<not> endsWith (''^'' @ BS # ''/blog'') (BS # ''/'')"
    by (simp_all add: ex_rewrite_def ex_rewrite_dir_def optionalTrailingSlash_def endsWith_def)
  have w: "endsWith (rw_sourceRegex ex_rewrite) optionalTrailingSlash"
    "endsWith (rw_sourceRegex ex_rewrite_dir) optionalTrailingSlash"
    by (simp_all add: e(3,4) endsWith_def optionalTrailingSlash_def)
  note t = rewrite_rsc_suffix [of ex_after, THEN conjunct1, rule_format, OF disjI1 [OF f(1)],
      THEN conjunct2, rule_format]
  have t0: "src (afterFiles (convertedRewrites ex_after) ! 0) =
      (''^'' @ BS # ''/blog'') @ ''(?:/)?(?<rscsuff>'' @ rscSuffix True True @ '')?''"
    "dest (afterFiles (convertedRewrites ex_after) ! 0) = Some ''/news$rscsuff?from=blog''"
    using t [of 0] e w f q by (simp_all add: a)
  have t1: "src (afterFiles (convertedRewrites ex_after) ! 1) =
      (''^'' @ BS # ''/docs'') @ ''(?:/)?(?<rscsuff>'' @ rscSuffix True True @ '')?''"
    "dest (afterFiles (convertedRewrites ex_after) ! 1) = Some ''/manual#top$rscsuff''"
    using t [of 1] e w f q by (simp_all add: a)
  have l: "length (afterFiles (convertedRewrites ex_after)) = 2"
    using rewrite_rsc_suffix [of ex_after] f a by simp
  then obtain r0 r1 where r: "afterFiles (convertedRewrites ex_after) = [r0, r1]"
    by (auto simp: length_Suc_conv numeral_2_eq_2)
  show ?thesis
    using t0 t1 f a e q by (simp add: r rscSuffix_def)
qed

text \<open>
  C5 as stated extends the rewriting to the beforeFiles and fallback rewrites and puts
  the placeholder after the query string.  With \<^verbatim>\<open>cacheComponents\<close> on, a beforeFiles
  rewrite from \<^verbatim>\<open>^\/blog(?:\/)?$\<close> to \<^verbatim>\<open>/news?from=blog\<close> keeps its source and its
  destination, and as an afterFiles rewrite its destination becomes
  \<^verbatim>\<open>/news$rscsuff?from=blog\<close>.
\<close>

theorem rewrite_rsc_suffix_counterexample:
  "shouldHandlePrefetchRsc ex_pages \<and>
   endsWith (rw_sourceRegex ex_rewrite) optionalTrailingSlash \<and>
   beforeFiles (routes_rewrites (routes ex_pages)) = [ex_rewrite] \<and>
   map src (beforeFiles (convertedRewrites ex_pages)) = [rw_sourceRegex ex_rewrite] \<and>
   map dest (beforeFiles (convertedRewrites ex_pages)) = [Some ''/news?from=blog''] \<and>
   afterFiles (routes_rewrites (routes ex_pages)) = [ex_rewrite] \<and>
   map dest (afterFiles (convertedRewrites ex_pages)) = [Some ''/news$rscsuff?from=blog'']"
proof -
  have f: "shouldHandlePrefetchRsc ex_pages" "shouldHandleSegmentPrefetches ex_pages"
    by (simp_all add: shouldHandlePrefetchRsc_def shouldHandleSegmentPrefetches_def
          ex_pages_def ex_config_def)
  have a: "afterFiles (routes_rewrites (routes ex_pages)) = [ex_rewrite]"
    "beforeFiles (routes_rewrites (routes ex_pages)) = [ex_rewrite]"
    by (simp_all add: ex_pages_def)
  have e: "endsWith (rw_sourceRegex ex_rewrite) optionalTrailingSlash"
    by (simp add: ex_rewrite_def endsWith_def optionalTrailingSlash_def)
  have d: "dest (modifyRewrite True True True (normalizeItem ex_rewrite)) =
      Some ''/news$rscsuff?from=blog''"
    by (simp add: modifyRewrite_def normalizeItem_def route_src_def ex_rewrite_def Let_def
          addRscSuffix_def substring_def substringFrom_def)
  have r: "rw_destination ex_rewrite = ''/news?from=blog''"
    by (simp add: ex_rewrite_def)
  show ?thesis
    using f e
    by (simp add: a converted_beforeFiles converted_afterFiles d r)
qed

text \<open>
  C6 (as amended).  Of the four groups of data-route rules, the two rewriting rules of
  the pre-redirect normalisation and both rules of the pre-filesystem denormalisation
  carry \<^verbatim>\<open>override: true\<close>; the header-tagging rule of the normalisation, the
  post-filesystem normalisation and the post-rewrite denormalisation carry no override.
  (All four groups are empty unless there are pages and a middleware.)
\<close>

theorem data_route_override:
  "map override (sources (emitted_by NormalizeDataPreRedirect b)) =
     (if shouldHandleMiddlewareDataResolving b then [None, Some True, Some True] else []) \<and>
   map override (sources (emitted_by DenormalizeDataPreFilesystem b)) =
     (if shouldHandleMiddlewareDataResolving b then [Some True, Some True] else []) \<and>
   map override (sources (emitted_by NormalizeDataPostFilesystem b)) =
     (if shouldHandleMiddlewareDataResolving b then [None, None, None] else []) \<and>
   map override (sources (emitted_by DenormalizeDataPostRewrite b)) =
     (if shouldHandleMiddlewareDataResolving b then [None, None] else [])"
  by (simp add: emitted_NormalizeDataPreRedirect emitted_DenormalizeDataPreFilesystem
        emitted_NormalizeDataPostFilesystem emitted_DenormalizeDataPostRewrite
        override_normalize override_denormalize)

theorem data_route_override_witness:
  "shouldHandleMiddlewareDataResolving ex_middleware \<and>
   map override (sources (emitted_by NormalizeDataPreRedirect ex_middleware)) =
     [None, Some True, Some True] \<and>
   map override (sources (emitted_by NormalizeDataPostFilesystem ex_middleware)) =
     [None, None, None] \<and>
   map override (sources (emitted_by DenormalizeDataPostRewrite ex_middleware)) = [None, None]"
  using data_route_override [of ex_middleware] ex_middleware_resolving by simp

text \<open>
  C6 as stated allows the override on the pre-redirect normalisation only; with pages and
  a middleware both rules of the pre-filesystem denormalisation carry it.
\<close>

theorem data_route_override_counterexample:
  "map override (sources (emitted_by DenormalizeDataPreFilesystem ex_middleware)) =
     [Some True, Some True]"
  by (simp add: emitted_DenormalizeDataPreFilesystem override_denormalize
        ex_middleware_resolving)

text \<open>
  C7.  The not-found path is \<^verbatim>\<open>/_not-found\<close> when there is a not-found output, else
  \<^verbatim>\<open>/404\<close> when there is a 404 output, else \<^verbatim>\<open>/_error\<close>.  The routes with status
  404 after the error marker are: without i18n, one route whose destination joins the
  base path and the not-found path; with i18n, one whose destination joins the base path,
  \<^verbatim>\<open>/$nextLocale\<close> and the not-found path, and one with the default locale in the place
  of \<^verbatim>\<open>$nextLocale\<close>.  Each of these destinations ends with the not-found path.
\<close>

theorem not_found_destination:
  "notFoundPath b =
     (if hasNotFoundOutput b then ''/_not-found''
      else if has404Output b then ''/404'' else ''/_error'') \<and>
   map dest (filter (\<lambda>r. status r = Some 404)
               (sources (after_marker Error (vercelConfig_routes b)))) =
     (case i18n (config b) of
        None \<Rightarrow> [Some (posix_join [''/'', basePath (config b), notFoundPath b])]
      | Some c \<Rightarrow>
          [Some (posix_join [''/'', basePath (config b), ''/$nextLocale'', notFoundPath b]),
           Some (posix_join [''/'', basePath (config b), ''/'' @ defaultLocale c,
                             notFoundPath b])]) \<and>
   list_all (\<lambda>r. case dest r of None \<Rightarrow> False | Some d \<Rightarrow> endsWith d (notFoundPath b))
     (filter (\<lambda>r. status r = Some 404)
        (sources (after_marker Error (vercelConfig_routes b))))"
proof (intro conjI)
  show "notFoundPath b =
     (if hasNotFoundOutput b then ''/_not-found''
      else if has404Output b then ''/404'' else ''/_error'')"
    by (simp add: notFoundPath_def)
  show "map dest (filter (\<lambda>r. status r = Some 404)
               (sources (after_marker Error (vercelConfig_routes b)))) =
     (case i18n (config b) of
        None \<Rightarrow> [Some (posix_join [''/'', basePath (config b), notFoundPath b])]
      | Some c \<Rightarrow>
          [Some (posix_join [''/'', basePath (config b), ''/$nextLocale'', notFoundPath b]),
           Some (posix_join [''/'', basePath (config b), ''/'' @ defaultLocale c,
                             notFoundPath b])])"
    by (simp add: error_phase_404 notFoundPlain_def notFoundLocale_def route_src_def
          split: option.split)
  have one: "endsWith (posix_join [''/'', basePath (config b), notFoundPath b]) (notFoundPath b)"
    using posix_join_notFoundPath [of "[basePath (config b)]" b] by simp
  have two: "endsWith (posix_join [''/'', basePath (config b), x, notFoundPath b])
      (notFoundPath b)" for x
    using posix_join_notFoundPath [of "[basePath (config b), x]" b] by simp
  show "list_all (\<lambda>r. case dest r of None \<Rightarrow> False | Some d \<Rightarrow> endsWith d (notFoundPath b))
     (filter (\<lambda>r. status r = Some 404)
        (sources (after_marker Error (vercelConfig_routes b))))"
    by (simp add: error_phase_404 notFoundPlain_def notFoundLocale_def route_src_def one two
          split: option.split)
qed

theorem not_found_destination_witness:
  "has404Output ex_i18n \<and> \<not> hasNotFoundOutput ex_i18n \<and> notFoundPath ex_i18n = ''/404'' \<and>
   map dest (filter (\<lambda>r. status r = Some 404)
               (sources (after_marker Error (vercelConfig_routes ex_i18n)))) =
     [Some ''/docs/$nextLocale/404'', Some ''/docs/en/404''] \<and>
   notFoundPath ex_empty = ''/_error'' \<and>
   map dest (filter (\<lambda>r. status r = Some 404)
               (sources (after_marker Error (vercelConfig_routes ex_empty)))) =
     [Some ''/_error'']"
proof -
  have o: "output_pathnames ex_i18n = [''/docs/en/500'', ''/docs/en/404'']"
    "output_pathnames ex_empty = []"
    by (simp_all add: output_pathnames_def function_outputs_def ex_i18n_def ex_empty_def
          ex_outputs_def)
  have f: "has404Output ex_i18n" "\<not> hasNotFoundOutput ex_i18n"
    "\<not> has404Output ex_empty" "\<not> hasNotFoundOutput ex_empty"
    by (simp_all add: has404Output_def hasNotFoundOutput_def o endsWith_def)
  have c: "i18n (config ex_i18n) = Some ex_i18n_config" "basePath (config ex_i18n) = ''/docs''"
    "i18n (config ex_empty) = None" "basePath (config ex_empty) = []"
    by (simp_all add: ex_i18n_def ex_empty_def ex_config_def)
  have j: "posix_join [''/'', ''/docs'', ''/$nextLocale'', ''/404''] = ''/docs/$nextLocale/404''"
    "posix_join [''/'', ''/docs'', ''/en'', ''/404''] = ''/docs/en/404''"
    "posix_join [''/'', [], ''/_error''] = ''/_error''"
    by (simp_all add: posix_join_def posix_normalize_def normalizeString_def push_segment_def
          Let_def)
  show ?thesis
    using not_found_destination [of ex_i18n] not_found_destination [of ex_empty]
    by (simp add: f c j ex_i18n_config_def)
qed

text \<open>
  C8.  With pages, without middleware, and with a dynamic route whose source does not
  contain \<^verbatim>\<open>_next/data\<close>, the routes array has the synthetic route (source
  \<^verbatim>\<open>_next/data/(.*)\<close> under the base path, status 404) exactly once, and the dynamic
  routes stand in the array in their order with that route put immediately before the
  first entry that is not a data route.  With a middleware the route is not in the array.
\<close>

theorem next_data_404_guard:
  "src (nextData404Route (config b)) =
     posix_join [''/'', basePath (config b), ''_next/data/(.*)''] \<and>
   status (nextData404Route (config b)) = Some 404 \<and>
   (hasPagesDir b \<and> \<not> hasMiddleware b \<and>
    list_ex (\<lambda>r. \<not> is_data_route r) (dynamicRoutes (routes b)) \<longrightarrow>
      count_list (sources (vercelConfig_routes b)) (nextData404Route (config b)) = 1 \<and>
      (\<exists>pre post.
         vercelConfig_routes b =
           pre @
           map RouteWithSrc
             (map dynamicRoute (takeWhile is_data_route (dynamicRoutes (routes b))) @
              nextData404Route (config b) #
              map dynamicRoute (dropWhile is_data_route (dynamicRoutes (routes b)))) @
           post)) \<and>
   (hasMiddleware b \<longrightarrow>
      count_list (sources (vercelConfig_routes b)) (nextData404Route (config b)) = 0)"
proof (intro conjI impI)
  show "src (nextData404Route (config b)) =
          posix_join [''/'', basePath (config b), ''_next/data/(.*)'']"
    by (simp add: nextData404Route_def route_src_def)
  show "status (nextData404Route (config b)) = Some 404"
    by (simp add: nextData404Route_def route_src_def)
next
  assume g: "hasPagesDir b \<and> \<not> hasMiddleware b \<and>
    list_ex (\<lambda>r. \<not> is_data_route r) (dynamicRoutes (routes b))"
  then show "count_list (sources (vercelConfig_routes b)) (nextData404Route (config b)) = 1"
    by (simp add: count_guard)
  from g have "dynamicRoutesOut b =
      map dynamicRoute (takeWhile is_data_route (dynamicRoutes (routes b))) @
      nextData404Route (config b) #
      map dynamicRoute (dropWhile is_data_route (dynamicRoutes (routes b)))"
    by (simp add: dynamicRoutesOut_def dynamicRoutesLoop_guarded)
  with dynamic_routes_in_routes [of b]
  show "\<exists>pre post.
         vercelConfig_routes b =
           pre @
           map RouteWithSrc
             (map dynamicRoute (takeWhile is_data_route (dynamicRoutes (routes b))) @
              nextData404Route (config b) #
              map dynamicRoute (dropWhile is_data_route (dynamicRoutes (routes b)))) @
           post"
    by simp
next
  assume "hasMiddleware b"
  then show "count_list (sources (vercelConfig_routes b)) (nextData404Route (config b)) = 0"
    by (simp add: count_guard)
qed

theorem next_data_404_guard_witness:
  "hasPagesDir ex_pages \<and> \<not> hasMiddleware ex_pages \<and>
   list_ex (\<lambda>r. \<not> is_data_route r) (dynamicRoutes (routes ex_pages)) \<and>
   takeWhile is_data_route (dynamicRoutes (routes ex_pages)) = [ex_data_route] \<and>
   count_list (sources (vercelConfig_routes ex_pages)) (nextData404Route (config ex_pages)) = 1 \<and>
   hasMiddleware ex_middleware \<and>
   count_list (sources (vercelConfig_routes ex_middleware))
     (nextData404Route (config ex_middleware)) = 0"
proof -
  have p: "hasPagesDir ex_pages" "\<not> hasMiddleware ex_pages"
    by (simp_all add: hasPagesDir_def hasMiddleware_def ex_pages_def ex_outputs_def)
  have d: "is_data_route ex_data_route" "\<not> is_data_route ex_page_route"
    by (simp_all add: is_data_route_def ex_data_route_def ex_page_route_def startsWith_def)
  have r: "dynamicRoutes (routes ex_pages) = [ex_data_route, ex_page_route]"
    by (simp add: ex_pages_def)
  have m: "hasMiddleware ex_middleware"
    by (simp add: hasMiddleware_def ex_middleware_def)
  show ?thesis
    using next_data_404_guard [of ex_pages] next_data_404_guard [of ex_middleware] p d r m
    by simp
qed

text \<open>
  C9.  If some prerender with \<^verbatim>\<open>parentFallbackMode === false\<close>, whose pathname neither
  contains \<^verbatim>\<open>_next/data\<close> nor ends in \<^verbatim>\<open>.rsc\<close>, names a parent that is not in the
  map of the node outputs, onBuildComplete ends in an error and produces no
  configuration; on a well-formed input (no page name that is a property of
  \<^verbatim>\<open>Object.prototype\<close>) that error is the invariant violation naming a missing parent.
  If the parent of every prerender is in the map, onBuildComplete on a well-formed input
  returns the configuration with the complete routes array.  Whenever it returns a
  configuration, its routes are the complete routes array.  (Errors of the file system
  are outside the model.)
\<close>

theorem missing_parent_aborts:
  "(list_ex (\<lambda>p. p_fallbackFalse p \<and> \<not> str_includes (p_pathname p) ''_next/data'' \<and>
                  \<not> endsWith (p_pathname p) ''.rsc'' \<and>
                  nodeOutputsParentMap b (p_parentOutputId p) = None)
      (prerenders (build_outputs b)) \<longrightarrow>
      (\<exists>e. onBuildComplete b = Inl e) \<and>
      (list_all (\<lambda>out. substringFrom (o_pathname out) (length (basePath (config b)))
                         \<notin> set object_prototype_keys) (function_outputs b) \<longrightarrow>
         (\<exists>p \<in> set (prerenders (build_outputs b)).
            nodeOutputsParentMap b (p_parentOutputId p) = None \<and>
            onBuildComplete b = Inl (MissingParentOutput (p_parentOutputId p))))) \<and>
   (list_all (\<lambda>p. nodeOutputsParentMap b (p_parentOutputId p) \<noteq> None)
      (prerenders (build_outputs b)) \<and>
    list_all (\<lambda>out. substringFrom (o_pathname out) (length (basePath (config b)))
                      \<notin> set object_prototype_keys) (function_outputs b) \<longrightarrow>
      onBuildComplete b =
        Inr \<lparr>vc_version = 3, vc_wildcard = wildcard (config b),
             vc_routes = vercelConfig_routes b\<rparr>) \<and>
   (\<forall>vc. onBuildComplete b = Inr vc \<longrightarrow> vc_routes vc = vercelConfig_routes b)"
proof (intro conjI impI allI)
  assume miss: "list_ex (\<lambda>p. p_fallbackFalse p \<and> \<not> str_includes (p_pathname p) ''_next/data'' \<and>
                  \<not> endsWith (p_pathname p) ''.rsc'' \<and>
                  nodeOutputsParentMap b (p_parentOutputId p) = None)
      (prerenders (build_outputs b))"
  from fallback_loop_missing [OF this]
  obtain e where e: "prerenderFallbackFalseLoop (config b) (nodeOutputsParentMap b)
      (prerenders (build_outputs b)) Map.empty = Inl e"
    by blast
  then show "\<exists>e. onBuildComplete b = Inl e"
    by (simp add: onBuildComplete_def)
  assume wf: "list_all (\<lambda>out. substringFrom (o_pathname out) (length (basePath (config b)))
                         \<notin> set object_prototype_keys) (function_outputs b)"
  have "\<exists>p \<in> set (prerenders (build_outputs b)).
          e = MissingParentOutput (p_parentOutputId p) \<and>
          nodeOutputsParentMap b (p_parentOutputId p) = None"
  proof (rule fallback_loop_error_kind [OF e])
    fix k out
    assume "nodeOutputsParentMap b k = Some out"
    then have "out \<in> set (function_outputs b)"
      by (simp add: nodeOutputsParentMap_lookup)
    with wf show "substringFrom (o_pathname out) (length (basePath (config b)))
        \<notin> set object_prototype_keys"
      by (simp add: list_all_iff)
  qed
  with e show "\<exists>p \<in> set (prerenders (build_outputs b)).
            nodeOutputsParentMap b (p_parentOutputId p) = None \<and>
            onBuildComplete b = Inl (MissingParentOutput (p_parentOutputId p))"
    by (auto simp: onBuildComplete_def)
next
  assume ok: "list_all (\<lambda>p. nodeOutputsParentMap b (p_parentOutputId p) \<noteq> None)
      (prerenders (build_outputs b)) \<and>
    list_all (\<lambda>out. substringFrom (o_pathname out) (length (basePath (config b)))
                      \<notin> set object_prototype_keys) (function_outputs b)"
  have "\<exists>m'. prerenderFallbackFalseLoop (config b) (nodeOutputsParentMap b)
      (prerenders (build_outputs b)) Map.empty = Inr m'"
  proof (rule fallback_loop_ok)
    show "list_all (\<lambda>p. nodeOutputsParentMap b (p_parentOutputId p) \<noteq> None)
        (prerenders (build_outputs b))"
      using ok by simp
  next
    fix k out
    assume "nodeOutputsParentMap b k = Some out"
    then have "out \<in> set (function_outputs b)"
      by (simp add: nodeOutputsParentMap_lookup)
    with ok show "substringFrom (o_pathname out) (length (basePath (config b)))
        \<notin> set object_prototype_keys"
      by (simp add: list_all_iff)
  qed
  with ok show "onBuildComplete b =
        Inr \<lparr>vc_version = 3, vc_wildcard = wildcard (config b),
             vc_routes = vercelConfig_routes b\<rparr>"
    by (auto simp: onBuildComplete_def handlePrerenderOutputs_def)
next
  fix vc
  assume "onBuildComplete b = Inr vc"
  then show "vc_routes vc = vercelConfig_routes b"
    by (auto simp: onBuildComplete_def split: sum.splits)
qed

theorem missing_parent_aborts_witness:
  "nodeOutputsParentMap ex_orphan ''/docs/[id]'' = None \<and>
   onBuildComplete ex_orphan = Inl (MissingParentOutput ''/docs/[id]'') \<and>
   nodeOutputsParentMap ex_pages ''/posts/[slug]'' = Some ex_posts_output \<and>
   onBuildComplete ex_pages =
     Inr \<lparr>vc_version = 3, vc_wildcard = None, vc_routes = vercelConfig_routes ex_pages\<rparr>"
proof -
  have f: "function_outputs ex_orphan = [ex_posts_output]"
    "function_outputs ex_pages = [ex_posts_output]"
    by (simp_all add: function_outputs_def ex_orphan_def ex_pages_def ex_outputs_def)
  have m: "nodeOutputsParentMap ex_orphan = [''/posts/[slug]'' \<mapsto> ex_posts_output]"
    "nodeOutputsParentMap ex_pages = [''/posts/[slug]'' \<mapsto> ex_posts_output]"
    by (simp_all add: nodeOutputsParentMap_def f ex_posts_output_def)
  have p: "prerenders (build_outputs ex_orphan) =
      [ex_prerender, ex_prerender\<lparr>p_pathname := ''/docs/a'', p_parentOutputId := ''/docs/[id]''\<rparr>]"
    "prerenders (build_outputs ex_pages) = [ex_prerender]"
    by (simp_all add: ex_orphan_def ex_pages_def ex_outputs_def)
  have c: "basePath (config ex_orphan) = []" "basePath (config ex_pages) = []"
    "wildcard (config ex_pages) = None"
    by (simp_all add: ex_orphan_def ex_pages_def ex_config_def wildcard_def)
  have k: "o_pathname ex_posts_output \<notin> set object_prototype_keys"
    by (simp add: ex_posts_output_def object_prototype_keys_def)
  have s: "\<not> str_includes ''/docs/a'' ''_next/data''" "\<not> endsWith ''/docs/a'' ''.rsc''"
    by (simp_all add: startsWith_def endsWith_def)
  show ?thesis
    using missing_parent_aborts [of ex_orphan] missing_parent_aborts [of ex_pages]
    by (simp add: f m p c k s substringFrom_def ex_prerender_def startsWith_def endsWith_def)
qed

text \<open>
  C10.  The wildcard table is absent exactly when i18n is absent or has no
  \<^verbatim>\<open>domains\<close> property; otherwise it has one entry per configured domain, in the
  order of the input, with the domain's name and with the value empty when the domain's
  default locale is the global default locale and \<^verbatim>\<open>/<defaultLocale of the domain>\<close>
  otherwise.
\<close>

theorem wildcard_table:
  "(wildcard cfg = None) = (i18n cfg = None \<or> (\<exists>c. i18n cfg = Some c \<and> domains c = None)) \<and>
   (\<forall>c ds. i18n cfg = Some c \<and> domains c = Some ds \<longrightarrow>
      (\<exists>w. wildcard cfg = Some w \<and> length w = length ds \<and>
           (\<forall>k < length ds.
              w_domain (w ! k) = d_domain (ds ! k) \<and>
              w_value (w ! k) =
                (if d_defaultLocale (ds ! k) = defaultLocale c then []
                 else ''/'' @ d_defaultLocale (ds ! k)))))"
  by (auto simp: wildcard_def split: option.splits)

theorem wildcard_table_witness:
  "i18n (config ex_i18n) = Some ex_i18n_config \<and>
   wildcard (config ex_i18n) =
     Some [\<lparr>w_domain = ''example.com'', w_value = []\<rparr>,
           \<lparr>w_domain = ''example.ca'', w_value = ''/fr-CA''\<rparr>] \<and>
   wildcard (config ex_empty) = None"
  using wildcard_table [of "config ex_i18n"] wildcard_table [of "config ex_empty"]
  by (simp add: wildcard_def ex_i18n_def ex_empty_def ex_config_def ex_i18n_config_def)

end
